theory Spec2Isabelle
  imports Main "HOL-Library.Sublist"
begin

section \<open>Data model of the gallery (src/src/App.tsx)\<close>

text \<open>
  The TypeScript interfaces \<^verbatim>\<open>ObjectInfo\<close> and \<^verbatim>\<open>Image\<close>. An \<^verbatim>\<open>Image\<close> has the two
  fields of an \<^verbatim>\<open>ObjectInfo\<close> and two more, so it is a record extension. The field
  \<^verbatim>\<open>size\<close> is called \<open>sizeBytes\<close> here, \<open>size\<close> being a constant of HOL; it is a
  JavaScript number, an integer or NaN (\<open>None\<close>).
  \<open>lastModified\<close> stays the string the listing delivered; it is parsed wherever the
  source writes \<^verbatim>\<open>new Date(obj.lastModified)\<close>.
\<close>

record ObjectInfo =
  key :: string
  lastModified :: string

record Image = ObjectInfo +
  sizeBytes :: "int option"
  contentType :: string

text \<open>
  A JavaScript \<^verbatim>\<open>Date\<close> object holds a time value: an integral number of milliseconds
  since the epoch, or NaN (an invalid date).
\<close>

datatype Date = InvalidDate | Date int

section \<open>The environment of one step\<close>

text \<open>
  What the browser and the object store contribute is a parameter of the model:
  the result of the listing request for a continuation token, the result of the HEAD
  request for a key, the XML parser, the parser of date strings, the local calendar
  (\<^verbatim>\<open>setHours(0,0,0,0)\<close>, \<^verbatim>\<open>getFullYear\<close>, \<^verbatim>\<open>getMonth\<close>, \<^verbatim>\<open>getDate\<close> on a valid time
  value, in whatever time zone the browser runs), the clock read by \<^verbatim>\<open>new Date()\<close> and
  \<^verbatim>\<open>window.location.origin\<close>.
\<close>

record Response =
  ok :: bool
  status :: nat
  statusText :: string
  body :: string

record HeadResponse =
  headOk :: bool
  contentLength :: "string option"
  contentTypeHeader :: "string option"

datatype 'r fetched = FetchRejected string | Fetched 'r

record ContentsNode =
  keyText :: "string option"
  lastModifiedText :: "string option"

record XmlDocument =
  parsererror :: bool
  contentsNodes :: "ContentsNode list"
  nextContinuationToken :: "string option"

record Env =
  fetchListing :: "string option \<Rightarrow> Response fetched"
  fetchHead :: "string \<Rightarrow> HeadResponse fetched"
  parseFromString :: "string \<Rightarrow> XmlDocument"
  dateParse :: "string \<Rightarrow> Date"
  setHours0 :: "int \<Rightarrow> int"
  getFullYear :: "int \<Rightarrow> int"
  getMonth :: "int \<Rightarrow> int"
  getDate :: "int \<Rightarrow> int"
  now :: int
  origin :: string

section \<open>Constants\<close>

definition batchSize :: nat where
  "batchSize = 20"

definition minFileSize :: int where
  "minFileSize = 10240"

definition concurrentRequests :: nat where
  "concurrentRequests = 5"

section \<open>Dates\<close>

text \<open>ECMAScript's TimeClip: a time value outside the range of a Date is NaN.\<close>

definition timeClip :: "int \<Rightarrow> Date" where
  "timeClip t = (if \<bar>t\<bar> > 8640000000000000 then InvalidDate else Date t)"

text \<open>\<^verbatim>\<open>date.getTime()\<close>; \<open>None\<close> is NaN.\<close>

fun getTime :: "Date \<Rightarrow> int option" where
  "getTime InvalidDate = None"
| "getTime (Date t) = Some t"

text \<open>\<^verbatim>\<open>new Date(date.getTime() + delta)\<close>.\<close>

fun shiftDate :: "Date \<Rightarrow> int \<Rightarrow> Date" where
  "shiftDate InvalidDate delta = InvalidDate"
| "shiftDate (Date t) delta = timeClip (t + delta)"

text \<open>
  \<^verbatim>\<open>normalizeDate\<close>: a copy of the date, set to the start of its day in local time.
  On an invalid date \<^verbatim>\<open>setHours\<close> leaves NaN.
\<close>

fun normalizeDate :: "Env \<Rightarrow> Date \<Rightarrow> Date" where
  "normalizeDate env InvalidDate = InvalidDate"
| "normalizeDate env (Date t) = timeClip (setHours0 env t)"

text \<open>
  \<^verbatim>\<open>areDatesEqual\<close>: year, month and day of the two normalized dates agree. The getters
  of an invalid date return NaN, and \<^verbatim>\<open>NaN === NaN\<close> is false.
\<close>

definition areDatesEqual :: "Env \<Rightarrow> Date \<Rightarrow> Date \<Rightarrow> bool" where
  "areDatesEqual env date1 date2 =
     (case normalizeDate env date1 of
        InvalidDate \<Rightarrow> False
      | Date d1 \<Rightarrow>
          (case normalizeDate env date2 of
             InvalidDate \<Rightarrow> False
           | Date d2 \<Rightarrow>
               getFullYear env d1 = getFullYear env d2 \<and>
               getMonth env d1 = getMonth env d2 \<and>
               getDate env d1 = getDate env d2))"

text \<open>
  \<^verbatim>\<open>hasNextDate = selectedDate ? !areDatesEqual(selectedDate, new Date()) : false\<close>.
  \<open>None\<close> is \<^verbatim>\<open>null\<close> (all dates); every Date object is truthy.
\<close>

definition hasNextDate :: "Env \<Rightarrow> Date option \<Rightarrow> bool" where
  "hasNextDate env selectedDate =
     (case selectedDate of
        Some d \<Rightarrow> \<not> areDatesEqual env d (Date (now env))
      | None \<Rightarrow> False)"

definition hasPreviousDate :: bool where
  "hasPreviousDate = True"

text \<open>
  The reading of "the selected date is the current local day" that the specification
  uses: a date is selected and it is on the same local calendar day as the clock.
\<close>

definition isCurrentLocalDay :: "Env \<Rightarrow> Date option \<Rightarrow> bool" where
  "isCurrentLocalDay env selectedDate =
     (case selectedDate of
        Some d \<Rightarrow> areDatesEqual env d (Date (now env))
      | None \<Rightarrow> False)"

section \<open>Strings\<close>

text \<open>
  \<^verbatim>\<open>s.startsWith(p)\<close>, \<^verbatim>\<open>s.includes(p)\<close>, \<^verbatim>\<open>s.endsWith(p)\<close> and \<^verbatim>\<open>s.trim()\<close>. A
  character here is one of 256 code points; of these JavaScript counts as white space
  or line terminator the space, the tab, the line feed, the vertical tab, the form
  feed, the carriage return and the no-break space. (It counts some code points
  beyond 255 as well, which have no counterpart here.)
\<close>

fun startsWith :: "string \<Rightarrow> string \<Rightarrow> bool" where
  "startsWith s [] = True"
| "startsWith [] (p # ps) = False"
| "startsWith (c # s) (p # ps) = (c = p \<and> startsWith s ps)"

fun includesStr :: "string \<Rightarrow> string \<Rightarrow> bool" where
  "includesStr [] p = (p = [])"
| "includesStr (c # s) p = (startsWith (c # s) p \<or> includesStr s p)"

definition endsWith :: "string \<Rightarrow> string \<Rightarrow> bool" where
  "endsWith s p = startsWith (rev s) (rev p)"

definition isWhiteSpace :: "char \<Rightarrow> bool" where
  "isWhiteSpace c =
     (c \<in> set [CHR 0x20, CHR 0x09, CHR 0x0A, CHR 0x0B, CHR 0x0C, CHR 0x0D, CHR 0xA0])"

definition trim :: "string \<Rightarrow> string" where
  "trim s = rev (dropWhile isWhiteSpace (rev (dropWhile isWhiteSpace s)))"

text \<open>The letters a regular expression with the flag \<^verbatim>\<open>i\<close> identifies: ASCII case.\<close>

definition toLowerASCII :: "char \<Rightarrow> char" where
  "toLowerASCII c =
     (case map_of (zip ''ABCDEFGHIJKLMNOPQRSTUVWXYZ'' ''abcdefghijklmnopqrstuvwxyz'') c of
        Some l \<Rightarrow> l
      | None \<Rightarrow> c)"

text \<open>\<^verbatim>\<open>/\.(jpg|jpeg|png|gif|webp)$/i.test(key)\<close>.\<close>

definition isImageKey :: "string \<Rightarrow> bool" where
  "isImageKey k =
     list_ex (\<lambda>ext. endsWith (map toLowerASCII k) (CHR ''.'' # ext))
       [''jpg'', ''jpeg'', ''png'', ''gif'', ''webp'']"

text \<open>Template literals print a number in decimal.\<close>

fun decimal :: "nat \<Rightarrow> string" where
  "decimal n =
     (if n < 10 then [''0123456789'' ! n]
      else decimal (n div 10) @ [''0123456789'' ! (n mod 10)])"

text \<open>
  \<^verbatim>\<open>parseInt(str, 10)\<close>: leading white space is skipped, then an optional sign, then
  the longest run of decimal digits is read; with no digit there the result is NaN
  (\<open>None\<close>). (The value is exact here; JavaScript rounds beyond \<open>2^53\<close>.)
\<close>

definition isDigit :: "char \<Rightarrow> bool" where
  "isDigit c = (c \<in> set ''0123456789'')"

definition digitValue :: "char \<Rightarrow> int" where
  "digitValue c =
     (case map_of (zip ''0123456789'' [0, 1, 2, 3, 4, 5, 6, 7, 8, 9]) c of
        Some d \<Rightarrow> d
      | None \<Rightarrow> 0)"

definition digitsValue :: "string \<Rightarrow> int" where
  "digitsValue ds = foldl (\<lambda>n c. 10 * n + digitValue c) 0 ds"

definition parseInt :: "string \<Rightarrow> int option" where
  "parseInt str =
     (let s = dropWhile isWhiteSpace str;
          unsigned = (if startsWith s ''-'' \<or> startsWith s ''+'' then tl s else s);
          z = takeWhile isDigit unsigned
      in if z = [] then None
         else Some (if startsWith s ''-'' then - digitsValue z else digitsValue z))"

text \<open>\<^verbatim>\<open>a < b\<close> for a number \<open>a\<close> that may be NaN: false then.\<close>

definition lessNumber :: "int option \<Rightarrow> int \<Rightarrow> bool" where
  "lessNumber a b = (case a of None \<Rightarrow> False | Some n \<Rightarrow> n < b)"

section \<open>Bucket listing: \<^verbatim>\<open>fetchObjects\<close>\<close>

text \<open>
  Every \<^verbatim>\<open>throw\<close> inside the \<^verbatim>\<open>try\<close> block of \<^verbatim>\<open>fetchObjects\<close> is a value: the four
  errors the source constructs, the rejection of \<^verbatim>\<open>fetch\<close> (a TypeError carrying its
  message) and the RangeError of \<^verbatim>\<open>toISOString\<close> on an invalid date.
\<close>

datatype Error =
    HttpError nat string
  | HtmlInsteadOfXml
  | XmlParseError
  | NoObjectsFound
  | NetworkError string
  | InvalidTimeValue

fun message :: "Error \<Rightarrow> string" where
  "message (HttpError st txt) = ''HTTP error: '' @ decimal st @ '' '' @ txt"
| "message HtmlInsteadOfXml =
     ''Received HTML instead of XML. The bucket URL may be incorrect or serving the MinIO browser UI. Contact the bucket owner to confirm the S3 API endpoint (e.g., https://storage.algosol.ca/s3/social-cleaner-posts-img/).''"
| "message XmlParseError =
     ''Failed to parse XML response. Ensure the bucket returns a valid object listing.''"
| "message NoObjectsFound = ''No objects found in the bucket.''"
| "message (NetworkError m) = m"
| "message InvalidTimeValue = ''Invalid time value''"

text \<open>
  The two errors about the format of the payload, and the error about an empty
  listing, as the specification names them.
\<close>

fun isFormatError :: "Error \<Rightarrow> bool" where
  "isFormatError HtmlInsteadOfXml = True"
| "isFormatError XmlParseError = True"
| "isFormatError e = False"

fun isEmptyResultError :: "Error \<Rightarrow> bool" where
  "isEmptyResultError NoObjectsFound = True"
| "isEmptyResultError e = False"

text \<open>The message the \<^verbatim>\<open>catch\<close> block passes to \<^verbatim>\<open>setError\<close>.\<close>

definition errorMessage :: "Env \<Rightarrow> Error \<Rightarrow> string" where
  "errorMessage env e =
     (if includesStr (message e) ''cors'' \<or> includesStr (message e) ''fetch''
      then message e @ ''. Ensure the server is configured to allow CORS for '' @ origin env @ ''.''
      else message e)"

text \<open>\<^verbatim>\<open>text.trim().startsWith('<!DOCTYPE html>') || text.includes('<html')\<close>.\<close>

definition looksLikeHtml :: "string \<Rightarrow> bool" where
  "looksLikeHtml txt =
     (startsWith (trim txt) ''<!DOCTYPE html>'' \<or> includesStr txt ''<html'')"

text \<open>\<^verbatim>\<open>x?.textContent || ''\<close> and \<^verbatim>\<open>x?.textContent || null\<close>.\<close>

definition orEmpty :: "string option \<Rightarrow> string" where
  "orEmpty t = (case t of None \<Rightarrow> [] | Some s \<Rightarrow> s)"

definition orNull :: "string option \<Rightarrow> string option" where
  "orNull t = (case t of None \<Rightarrow> None | Some s \<Rightarrow> if s = [] then None else Some s)"

definition nodeToObject :: "ContentsNode \<Rightarrow> ObjectInfo" where
  "nodeToObject node =
     \<lparr>key = orEmpty (keyText node), lastModified = orEmpty (lastModifiedText node)\<rparr>"

text \<open>
  One pass through the body of the \<^verbatim>\<open>do ... while\<close> loop: the objects of the page and
  the next continuation token, or the error thrown.
\<close>

definition listPage :: "Env \<Rightarrow> string option \<Rightarrow> Error + (ObjectInfo list \<times> string option)" where
  "listPage env continuationToken =
     (case fetchListing env continuationToken of
        FetchRejected m \<Rightarrow> Inl (NetworkError m)
      | Fetched response \<Rightarrow>
          if \<not> ok response then Inl (HttpError (status response) (statusText response))
          else if looksLikeHtml (body response) then Inl HtmlInsteadOfXml
          else
            let xml = parseFromString env (body response) in
            if parsererror xml then Inl XmlParseError
            else Inr (map nodeToObject (contentsNodes xml),
                      orNull (nextContinuationToken xml)))"

text \<open>
  The loop. A store that never stops handing out continuation tokens keeps it running for
  ever, so the loop takes fuel, one unit per request; \<open>None\<close> says the fuel ran out.
\<close>

fun listObjects ::
  "nat \<Rightarrow> Env \<Rightarrow> ObjectInfo list \<Rightarrow> string option \<Rightarrow> (Error + ObjectInfo list) option" where
  "listObjects 0 env objectList continuationToken = None"
| "listObjects (Suc fuel) env objectList continuationToken =
     (case listPage env continuationToken of
        Inl e \<Rightarrow> Some (Inl e)
      | Inr (objs, None) \<Rightarrow> Some (Inr (objectList @ objs))
      | Inr (objs, Some t) \<Rightarrow> listObjects fuel env (objectList @ objs) (Some t))"

text \<open>
  The token of the request made after \<open>k\<close> more passes, starting from a token: \<open>None\<close>
  when the loop has ended before.
\<close>

fun tokenAfter :: "Env \<Rightarrow> string option \<Rightarrow> nat \<Rightarrow> string option option" where
  "tokenAfter env continuationToken 0 = Some continuationToken"
| "tokenAfter env continuationToken (Suc k) =
     (case listPage env continuationToken of
        Inr (objs, Some t) \<Rightarrow> tokenAfter env (Some t) k
      | _ \<Rightarrow> None)"

text \<open>
  \<^verbatim>\<open>Array.prototype.sort\<close> with a comparison function: stable, and a comparison that
  yields NaN (\<open>None\<close>) counts as 0. Insertion from the right is a stable sort; when the
  comparison is not consistent the language leaves the order to the implementation,
  and this is one such order.
\<close>

fun insertBy :: "('a \<Rightarrow> 'a \<Rightarrow> int option) \<Rightarrow> 'a \<Rightarrow> 'a list \<Rightarrow> 'a list" where
  "insertBy cmp x [] = [x]"
| "insertBy cmp x (y # ys) =
     (if (case cmp x y of None \<Rightarrow> False | Some v \<Rightarrow> 0 < v)
      then y # insertBy cmp x ys
      else x # y # ys)"

definition sortBy :: "('a \<Rightarrow> 'a \<Rightarrow> int option) \<Rightarrow> 'a list \<Rightarrow> 'a list" where
  "sortBy cmp xs = foldr (insertBy cmp) xs []"

text \<open>Subtraction of two numbers, either of which may be NaN.\<close>

fun minusNumber :: "int option \<Rightarrow> int option \<Rightarrow> int option" where
  "minusNumber (Some a) (Some b) = Some (a - b)"
| "minusNumber a b = None"

text \<open>\<^verbatim>\<open>new Date(obj.lastModified).getTime()\<close>.\<close>

definition timeOf :: "Env \<Rightarrow> 'a ObjectInfo_scheme \<Rightarrow> int option" where
  "timeOf env obj = getTime (dateParse env (lastModified obj))"

text \<open>The comparison function of the sort: newest first.\<close>

definition newestFirst :: "Env \<Rightarrow> 'a ObjectInfo_scheme \<Rightarrow> 'a ObjectInfo_scheme \<Rightarrow> int option" where
  "newestFirst env a b = minusNumber (timeOf env b) (timeOf env a)"

text \<open>
  The days of the listing. \<^verbatim>\<open>toISOString\<close> throws a RangeError on an invalid date, and
  prints a valid time value in a form that \<^verbatim>\<open>new Date\<close> reads back as the same time
  value, so the strings are represented by the time values they stand for.
\<close>

fun dayStamps :: "Env \<Rightarrow> 'a ObjectInfo_scheme list \<Rightarrow> Error + int list" where
  "dayStamps env [] = Inr []"
| "dayStamps env (obj # objs) =
     (case normalizeDate env (dateParse env (lastModified obj)) of
        InvalidDate \<Rightarrow> Inl InvalidTimeValue
      | Date t \<Rightarrow>
          (case dayStamps env objs of
             Inl e \<Rightarrow> Inl e
           | Inr ts \<Rightarrow> Inr (t # ts)))"

text \<open>\<^verbatim>\<open>Array.from(new Set(xs))\<close>: the first occurrence of each element, in order.\<close>

definition distinctInOrder :: "'a list \<Rightarrow> 'a list" where
  "distinctInOrder xs = rev (remdups (rev xs))"

definition imageObjects :: "Env \<Rightarrow> ObjectInfo list \<Rightarrow> ObjectInfo list" where
  "imageObjects env objectList =
     sortBy (newestFirst env) (filter (\<lambda>obj. isImageKey (key obj)) objectList)"

text \<open>
  The \<^verbatim>\<open>try\<close> block of \<^verbatim>\<open>fetchObjects\<close>: the filtered, sorted objects and the unique
  dates it is about to commit, or the error it throws.
\<close>

definition listAll :: "nat \<Rightarrow> Env \<Rightarrow> (Error + (ObjectInfo list \<times> Date list)) option" where
  "listAll fuel env =
     (case listObjects fuel env [] None of
        None \<Rightarrow> None
      | Some (Inl e) \<Rightarrow> Some (Inl e)
      | Some (Inr objectList) \<Rightarrow>
          if length objectList = 0 then Some (Inl NoObjectsFound)
          else
            let filteredObjects = imageObjects env objectList in
            (case dayStamps env filteredObjects of
               Inl e \<Rightarrow> Some (Inl e)
             | Inr ts \<Rightarrow>
                 Some (Inr (filteredObjects,
                   sortBy (\<lambda>a b. minusNumber (getTime b) (getTime a))
                     (map Date (distinctInOrder ts))))))"

section \<open>The state of the component\<close>

text \<open>
  The \<^verbatim>\<open>useState\<close> cells and the \<^verbatim>\<open>metadataCache\<close> ref that the listing, the
  enrichment, the date filter and the pagination read and write, and the warnings
  written to the console. (The modal's selection, the footer flag and the observer refs
  are presentation only and take no part in these.)
\<close>

record AppState =
  objects :: "ObjectInfo list"
  images :: "Image list"
  displayedImages :: "Image list"
  selectedDate :: "Date option"
  uniqueDates :: "Date list"
  loading :: bool
  error :: "string option"
  page :: nat
  hasMore :: bool
  metadataCache :: "string \<rightharpoonup> Image"
  consoleWarnings :: "string list"

definition initialState :: "Env \<Rightarrow> AppState" where
  "initialState env =
     \<lparr>objects = [], images = [], displayedImages = [],
      selectedDate = Some (Date (now env)), uniqueDates = [],
      loading = True, error = None, page = 1, hasMore = True,
      metadataCache = Map.empty, consoleWarnings = []\<rparr>"

text \<open>
  \<^verbatim>\<open>fetchObjects\<close>: on success the objects and the unique dates are committed; on an
  error only the message is set. \<open>None\<close>: the listing loop has not returned.
\<close>

definition fetchObjects :: "nat \<Rightarrow> Env \<Rightarrow> AppState \<Rightarrow> AppState option" where
  "fetchObjects fuel env s =
     (case listAll fuel env of
        None \<Rightarrow> None
      | Some (Inr (filteredObjects, dates)) \<Rightarrow>
          Some (s\<lparr>objects := filteredObjects, uniqueDates := dates, loading := False\<rparr>)
      | Some (Inl e) \<Rightarrow>
          Some (s\<lparr>error := Some (errorMessage env e), loading := False\<rparr>))"

section \<open>Metadata enrichment: \<^verbatim>\<open>fetchMetadata\<close>\<close>

text \<open>
  The task run for one object: the cached image if there is one; otherwise the HEAD
  request, whose failure (a rejected \<^verbatim>\<open>fetch\<close>, or a status that is not ok) is logged
  and yields \<^verbatim>\<open>null\<close>; a size under \<open>minFileSize\<close> yields \<^verbatim>\<open>null\<close> with no log; else the
  image, which is also cached. The result is the image or \<^verbatim>\<open>null\<close>, the cache after the
  task and what the task logged. The size is what \<^verbatim>\<open>parseInt\<close> reads from the header
  \<^verbatim>\<open>Content-Length\<close> (\<^verbatim>\<open>'0'\<close> when the header is absent or empty), which is NaN
  when the header does not start with a number; an absent or empty \<^verbatim>\<open>Content-Type\<close>
  reads \<^verbatim>\<open>'unknown'\<close>.
\<close>

text \<open>\<^verbatim>\<open>headers.get(name) || fallback\<close>.\<close>

definition orDefault :: "string option \<Rightarrow> string \<Rightarrow> string" where
  "orDefault t fallback = (case t of None \<Rightarrow> fallback | Some str \<Rightarrow> if str = [] then fallback else str)"

text \<open>\<^verbatim>\<open>parseInt(headResponse.headers.get('Content-Length') || '0', 10)\<close>.\<close>

definition headSize :: "HeadResponse \<Rightarrow> int option" where
  "headSize headResponse = parseInt (orDefault (contentLength headResponse) ''0'')"

definition probe ::
  "Env \<Rightarrow> (string \<rightharpoonup> Image) \<Rightarrow> ObjectInfo \<Rightarrow> Image option \<times> (string \<rightharpoonup> Image) \<times> string list" where
  "probe env cache obj =
     (case cache (key obj) of
        Some cached \<Rightarrow> (Some cached, cache, [])
      | None \<Rightarrow>
          (case fetchHead env (key obj) of
             FetchRejected m \<Rightarrow>
               (None, cache, [''Error fetching metadata for '' @ key obj @ '':''])
           | Fetched headResponse \<Rightarrow>
               if \<not> headOk headResponse
               then (None, cache, [''Failed to fetch metadata for '' @ key obj])
               else
                 let size = headSize headResponse in
                 if lessNumber size minFileSize then (None, cache, [])
                 else
                   let img =
                     \<lparr>key = key obj, lastModified = lastModified obj, sizeBytes = size,
                      contentType = orDefault (contentTypeHeader headResponse) ''unknown''\<rparr>
                   in (Some img, cache(key obj \<mapsto> img), [])))"

text \<open>
  \<^verbatim>\<open>fetchMetadata\<close>: the tasks of a batch and the results that are not \<^verbatim>\<open>null\<close>, in the
  order of the batch (\<^verbatim>\<open>Promise.all\<close> keeps that order). The tasks are run here one
  after the other, each finding the cache as the tasks before it left it. In the source
  up to \<open>concurrentRequests\<close> tasks run at a time, so that two tasks for one key may both
  miss the cache and both send a request; for a batch with distinct keys, as the
  batches cut from a listing are, the tasks do not meet in the cache and the order in
  which they run makes no difference to the result (lemma \<open>fetchMetadata_independent\<close>).
\<close>

fun fetchMetadata ::
  "Env \<Rightarrow> (string \<rightharpoonup> Image) \<Rightarrow> ObjectInfo list \<Rightarrow> Image list \<times> (string \<rightharpoonup> Image) \<times> string list" where
  "fetchMetadata env cache [] = ([], cache, [])"
| "fetchMetadata env cache (obj # objs) =
     (case probe env cache obj of
        (r, cache', w) \<Rightarrow>
          (case fetchMetadata env cache' objs of
             (imgs, cache'', ws) \<Rightarrow>
               ((case r of None \<Rightarrow> imgs | Some img \<Rightarrow> img # imgs), cache'', w @ ws)))"

section \<open>Date filter and pagination\<close>

text \<open>
  The test that the date filter applies to a record \<^verbatim>\<open>obj\<close>, for a selected date:
  \<^verbatim>\<open>areDatesEqual(new Date(obj.lastModified), normalizeDate(selectedDate))\<close>.
\<close>

definition onSelectedDay :: "Env \<Rightarrow> Date \<Rightarrow> 'a ObjectInfo_scheme \<Rightarrow> bool" where
  "onSelectedDay env d obj =
     areDatesEqual env (dateParse env (lastModified obj)) (normalizeDate env d)"

text \<open>
  \<^verbatim>\<open>objectsToDisplay\<close>, computed alike by \<^verbatim>\<open>fetchInitialImages\<close> and
  \<^verbatim>\<open>loadMoreImages\<close>: all objects when no date is selected, else the objects that pass
  the test.
\<close>

definition objectsToDisplay :: "Env \<Rightarrow> AppState \<Rightarrow> ObjectInfo list" where
  "objectsToDisplay env s =
     (case selectedDate s of
        Some d \<Rightarrow> filter (\<lambda>obj. onSelectedDay env d obj) (objects s)
      | None \<Rightarrow> objects s)"

text \<open>\<^verbatim>\<open>xs.slice(a, b)\<close> for indices that are not negative.\<close>

definition slice :: "nat \<Rightarrow> nat \<Rightarrow> 'a list \<Rightarrow> 'a list" where
  "slice a b xs = take (b - a) (drop a xs)"

text \<open>
  \<^verbatim>\<open>fetchInitialImages\<close>, from its call to its end, with nothing else happening while it
  awaits the metadata (the function stopped at its \<^verbatim>\<open>await\<close> is \<open>fetchInitialImagesBegin\<close>
  below). \<^verbatim>\<open>fetchMetadata\<close> catches every failure of a probe itself, so the \<^verbatim>\<open>catch\<close>
  branch of this function is never entered.
\<close>

definition fetchInitialImages :: "Env \<Rightarrow> AppState \<Rightarrow> AppState" where
  "fetchInitialImages env s =
     (let toDisplay = objectsToDisplay env s;
          initialObjects = slice 0 batchSize toDisplay
      in case fetchMetadata env (metadataCache s) initialObjects of
           (newImages, cache', ws) \<Rightarrow>
             s\<lparr>images := newImages,
               displayedImages := newImages,
               hasMore := (length toDisplay > batchSize),
               loading := False,
               metadataCache := cache',
               consoleWarnings := consoleWarnings s @ ws\<rparr>)"

text \<open>
  The effect that runs when \<^verbatim>\<open>selectedDate\<close> or \<^verbatim>\<open>objects\<close> changes: first the four
  resets, then \<^verbatim>\<open>fetchInitialImages\<close> if there are objects.
\<close>

definition resetDisplay :: "AppState \<Rightarrow> AppState" where
  "resetDisplay s =
     s\<lparr>displayedImages := [], images := [], page := 1, metadataCache := Map.empty\<rparr>"

definition selectedDateEffect :: "Env \<Rightarrow> AppState \<Rightarrow> AppState" where
  "selectedDateEffect env s =
     (let s' = resetDisplay s
      in if length (objects s') > 0 then fetchInitialImages env s' else s')"

text \<open>
  \<^verbatim>\<open>loadMoreImages\<close>, from its call to its end, with nothing else happening while it
  awaits the metadata (the function stopped at its \<^verbatim>\<open>await\<close> is \<open>loadMoreImagesBegin\<close>
  below).
\<close>

definition loadMoreImages :: "Env \<Rightarrow> AppState \<Rightarrow> AppState" where
  "loadMoreImages env s =
     (if \<not> hasMore s \<or> loading s then s
      else
        let nextPage = page s + 1;
            startIndex = page s * batchSize;
            endIndex = nextPage * batchSize;
            toDisplay = objectsToDisplay env s;
            nextObjects = slice startIndex endIndex toDisplay
        in case fetchMetadata env (metadataCache s) nextObjects of
             (newImages, cache', ws) \<Rightarrow>
               s\<lparr>images := images s @ newImages,
                 displayedImages := displayedImages s @ newImages,
                 page := nextPage,
                 hasMore := (endIndex < length toDisplay),
                 loading := False,
                 metadataCache := cache',
                 consoleWarnings := consoleWarnings s @ ws\<rparr>)"

section \<open>Handlers and the life of the component\<close>

text \<open>
  \<^verbatim>\<open>setSelectedDate\<close> followed by the effect that depends on \<^verbatim>\<open>selectedDate\<close>. React
  compares by identity: a Date object just made is a change, \<^verbatim>\<open>null\<close> after \<^verbatim>\<open>null\<close> is
  not.
\<close>

definition setSelectedDate :: "Env \<Rightarrow> Date option \<Rightarrow> AppState \<Rightarrow> AppState" where
  "setSelectedDate env d s =
     (if d = None \<and> selectedDate s = None then s
      else selectedDateEffect env (s\<lparr>selectedDate := d\<rparr>))"

definition handlePreviousDate :: "Env \<Rightarrow> AppState \<Rightarrow> AppState" where
  "handlePreviousDate env s =
     (case selectedDate s of
        Some d \<Rightarrow> setSelectedDate env (Some (shiftDate d (- (24 * 60 * 60 * 1000)))) s
      | None \<Rightarrow> setSelectedDate env (Some (Date (now env))) s)"

definition handleNextDate :: "Env \<Rightarrow> AppState \<Rightarrow> AppState" where
  "handleNextDate env s =
     (case selectedDate s of
        Some d \<Rightarrow> setSelectedDate env (Some (shiftDate d (24 * 60 * 60 * 1000))) s
      | None \<Rightarrow> s)"

text \<open>The \<^verbatim>\<open>onClick\<close> of the button labelled Clear.\<close>

definition handleClear :: "Env \<Rightarrow> AppState \<Rightarrow> AppState" where
  "handleClear env s = setSelectedDate env (Some (Date (now env))) s"

text \<open>
  What the user can do. The Next button is disabled unless \<open>hasNextDate\<close>; the Clear
  button is rendered only while a date is selected; the sentinel of the infinite scroll
  calls \<^verbatim>\<open>loadMoreImages\<close>.
\<close>

datatype Event =
    DatePickerChange "Date option"
  | PreviousDate
  | NextDate
  | Clear
  | ScrollToSentinel

fun react :: "Env \<Rightarrow> Event \<Rightarrow> AppState \<Rightarrow> AppState" where
  "react env (DatePickerChange d) s = setSelectedDate env d s"
| "react env PreviousDate s = handlePreviousDate env s"
| "react env NextDate s = (if hasNextDate env (selectedDate s) then handleNextDate env s else s)"
| "react env Clear s = (if selectedDate s = None then s else handleClear env s)"
| "react env ScrollToSentinel s = loadMoreImages env s"

text \<open>
  Mounting: both effects run on the initial state, the date effect finding no objects;
  when \<^verbatim>\<open>fetchObjects\<close> commits a listing, \<^verbatim>\<open>objects\<close> has changed and the date effect
  runs again.
\<close>

definition mount :: "nat \<Rightarrow> Env \<Rightarrow> AppState option" where
  "mount fuel env =
     (case fetchObjects fuel env (selectedDateEffect env (initialState env)) of
        None \<Rightarrow> None
      | Some s \<Rightarrow>
          (case listAll fuel env of
             Some (Inr committed) \<Rightarrow> Some (selectedDateEffect env s)
           | _ \<Rightarrow> Some s))"

text \<open>
  The events of a session. The parsers and the calendar are those of the session; each
  event comes with the answers of the store to HEAD requests and the reading of the
  clock at its moment.
\<close>

fun run ::
  "Env \<Rightarrow> AppState \<Rightarrow> ((string \<Rightarrow> HeadResponse fetched) \<times> int \<times> Event) list \<Rightarrow> AppState" where
  "run env s [] = s"
| "run env s ((head, clock, ev) # evs) =
     run env (react (env\<lparr>fetchHead := head, now := clock\<rparr>) ev s) evs"

section \<open>Handlers that overlap\<close>

text \<open>
  \<^verbatim>\<open>fetchInitialImages\<close> and \<^verbatim>\<open>loadMoreImages\<close> are asynchronous: each runs up to
  \<^verbatim>\<open>await fetchMetadata(...)\<close> and the rest of it runs when the metadata has arrived.
  In between the component renders and reacts to the user; \<^verbatim>\<open>loadMoreImages\<close> returns
  at once while \<open>loading\<close> is set, but the date picker and the date buttons are not
  disabled. \<open>react\<close> and \<open>run\<close> above take every handler from its call to its end in one
  step. The definitions of this section stop a handler at its \<^verbatim>\<open>await\<close>.

  What is suspended at the \<^verbatim>\<open>await\<close> holds the values that the rest of the function has
  captured: the batch handed to \<^verbatim>\<open>fetchMetadata\<close> and, computed before the \<^verbatim>\<open>await\<close>
  from the \<^verbatim>\<open>objectsToDisplay\<close> of that moment, the value that \<^verbatim>\<open>setHasMore\<close> will be
  given; for \<^verbatim>\<open>loadMoreImages\<close> also \<^verbatim>\<open>nextPage\<close>.
\<close>

datatype Awaiting =
    InitialImages "ObjectInfo list" bool
  | MoreImages "ObjectInfo list" nat bool

text \<open>\<^verbatim>\<open>fetchInitialImages\<close> up to its \<^verbatim>\<open>await\<close>.\<close>

definition fetchInitialImagesBegin :: "Env \<Rightarrow> AppState \<Rightarrow> AppState \<times> Awaiting" where
  "fetchInitialImagesBegin env s =
     (let toDisplay = objectsToDisplay env s;
          initialObjects = slice 0 batchSize toDisplay
      in (s\<lparr>loading := True\<rparr>, InitialImages initialObjects (length toDisplay > batchSize)))"

text \<open>\<^verbatim>\<open>loadMoreImages\<close> up to its \<^verbatim>\<open>await\<close>; \<open>None\<close> when it returns at once.\<close>

definition loadMoreImagesBegin :: "Env \<Rightarrow> AppState \<Rightarrow> AppState \<times> Awaiting option" where
  "loadMoreImagesBegin env s =
     (if \<not> hasMore s \<or> loading s then (s, None)
      else
        let nextPage = page s + 1;
            startIndex = page s * batchSize;
            endIndex = nextPage * batchSize;
            toDisplay = objectsToDisplay env s;
            nextObjects = slice startIndex endIndex toDisplay
        in (s\<lparr>loading := True\<rparr>,
            Some (MoreImages nextObjects nextPage (endIndex < length toDisplay))))"

text \<open>
  The rest of the function, run in the state of the moment at which the metadata
  arrives. \<^verbatim>\<open>fetchInitialImages\<close> sets \<open>images\<close> and \<open>displayedImages\<close> to the new
  images; \<^verbatim>\<open>loadMoreImages\<close> appends them to what the state holds then
  (\<^verbatim>\<open>setImages((prev) => [...prev, ...newImages])\<close>) and sets the page it captured. The
  tasks of \<^verbatim>\<open>fetchMetadata\<close> run while the function is suspended; they are taken here
  to read and write the cache at the moment the metadata arrives, and to be answered
  by the store of that moment.
\<close>

fun resume :: "Env \<Rightarrow> Awaiting \<Rightarrow> AppState \<Rightarrow> AppState" where
  "resume env (InitialImages initialObjects moreToLoad) s =
     (case fetchMetadata env (metadataCache s) initialObjects of
        (newImages, cache', ws) \<Rightarrow>
          s\<lparr>images := newImages,
            displayedImages := newImages,
            hasMore := moreToLoad,
            loading := False,
            metadataCache := cache',
            consoleWarnings := consoleWarnings s @ ws\<rparr>)"
| "resume env (MoreImages nextObjects nextPage moreToLoad) s =
     (case fetchMetadata env (metadataCache s) nextObjects of
        (newImages, cache', ws) \<Rightarrow>
          s\<lparr>images := images s @ newImages,
            displayedImages := displayedImages s @ newImages,
            page := nextPage,
            hasMore := moreToLoad,
            loading := False,
            metadataCache := cache',
            consoleWarnings := consoleWarnings s @ ws\<rparr>)"

text \<open>A handler stopped at its \<^verbatim>\<open>await\<close>, resumed at once.\<close>

definition settled :: "Env \<Rightarrow> AppState \<times> Awaiting option \<Rightarrow> AppState" where
  "settled env r = (case snd r of None \<Rightarrow> fst r | Some a \<Rightarrow> resume env a (fst r))"

text \<open>
  The date effect, \<^verbatim>\<open>setSelectedDate\<close> with the effect it triggers, and the handlers of
  the events, each up to the \<^verbatim>\<open>await\<close> of \<^verbatim>\<open>fetchInitialImages\<close> or \<^verbatim>\<open>loadMoreImages\<close>.
\<close>

definition selectedDateEffectBegin :: "Env \<Rightarrow> AppState \<Rightarrow> AppState \<times> Awaiting option" where
  "selectedDateEffectBegin env s =
     (let s' = resetDisplay s
      in if length (objects s') > 0
         then (fst (fetchInitialImagesBegin env s'), Some (snd (fetchInitialImagesBegin env s')))
         else (s', None))"

definition setSelectedDateBegin ::
  "Env \<Rightarrow> Date option \<Rightarrow> AppState \<Rightarrow> AppState \<times> Awaiting option" where
  "setSelectedDateBegin env d s =
     (if d = None \<and> selectedDate s = None then (s, None)
      else selectedDateEffectBegin env (s\<lparr>selectedDate := d\<rparr>))"

definition handlePreviousDateBegin :: "Env \<Rightarrow> AppState \<Rightarrow> AppState \<times> Awaiting option" where
  "handlePreviousDateBegin env s =
     (case selectedDate s of
        Some d \<Rightarrow> setSelectedDateBegin env (Some (shiftDate d (- (24 * 60 * 60 * 1000)))) s
      | None \<Rightarrow> setSelectedDateBegin env (Some (Date (now env))) s)"

definition handleNextDateBegin :: "Env \<Rightarrow> AppState \<Rightarrow> AppState \<times> Awaiting option" where
  "handleNextDateBegin env s =
     (case selectedDate s of
        Some d \<Rightarrow> setSelectedDateBegin env (Some (shiftDate d (24 * 60 * 60 * 1000))) s
      | None \<Rightarrow> (s, None))"

definition handleClearBegin :: "Env \<Rightarrow> AppState \<Rightarrow> AppState \<times> Awaiting option" where
  "handleClearBegin env s = setSelectedDateBegin env (Some (Date (now env))) s"

fun reactBegin :: "Env \<Rightarrow> Event \<Rightarrow> AppState \<Rightarrow> AppState \<times> Awaiting option" where
  "reactBegin env (DatePickerChange d) s = setSelectedDateBegin env d s"
| "reactBegin env PreviousDate s = handlePreviousDateBegin env s"
| "reactBegin env NextDate s =
     (if hasNextDate env (selectedDate s) then handleNextDateBegin env s else (s, None))"
| "reactBegin env Clear s = (if selectedDate s = None then (s, None) else handleClearBegin env s)"
| "reactBegin env ScrollToSentinel s = loadMoreImagesBegin env s"

text \<open>
  A session in which handlers overlap: the state of the component and the functions
  suspended at their \<^verbatim>\<open>await\<close>, oldest first. A step is an event of the user, whose
  handler runs up to its \<^verbatim>\<open>await\<close>, or the arrival of the metadata that the suspended
  function at some position is waiting for, which runs the rest of that function.
\<close>

record Session =
  app :: AppState
  suspended :: "Awaiting list"

datatype Action = UserEvent Event | Settle nat

fun perform :: "Env \<Rightarrow> Action \<Rightarrow> Session \<Rightarrow> Session" where
  "perform env (UserEvent ev) session =
     \<lparr>app = fst (reactBegin env ev (app session)),
      suspended =
        suspended session @
        (case snd (reactBegin env ev (app session)) of None \<Rightarrow> [] | Some a \<Rightarrow> [a])\<rparr>"
| "perform env (Settle i) session =
     (if i < length (suspended session)
      then \<lparr>app = resume env (suspended session ! i) (app session),
            suspended = take i (suspended session) @ drop (Suc i) (suspended session)\<rparr>
      else session)"

fun play :: "Env \<Rightarrow> Session \<Rightarrow> Action list \<Rightarrow> Session" where
  "play env session [] = session"
| "play env session (a # as) = play env (perform env a session) as"

section \<open>Properties the claims speak of\<close>

text \<open>
  \<open>a.lastModified >= b.lastModified\<close> on the parsed timestamps; a comparison with NaN
  is false.
\<close>

definition newerOrEqual :: "Env \<Rightarrow> 'a ObjectInfo_scheme \<Rightarrow> 'b ObjectInfo_scheme \<Rightarrow> bool" where
  "newerOrEqual env a b =
     (case timeOf env a of
        None \<Rightarrow> False
      | Some ta \<Rightarrow> (case timeOf env b of None \<Rightarrow> False | Some tb \<Rightarrow> tb \<le> ta))"

text \<open>The \<^verbatim>\<open>ObjectInfo\<close> an \<^verbatim>\<open>Image\<close> extends.\<close>

definition toObject :: "Image \<Rightarrow> ObjectInfo" where
  "toObject img = \<lparr>key = key img, lastModified = lastModified img\<rparr>"

text \<open>A HEAD request that is rejected or answered with a status that is not ok.\<close>

definition probeFails :: "Env \<Rightarrow> string \<Rightarrow> bool" where
  "probeFails env k =
     (case fetchHead env k of FetchRejected m \<Rightarrow> True | Fetched h \<Rightarrow> \<not> headOk h)"

text \<open>A listing response with an unparseable payload, or with one that looks like HTML.\<close>

definition badPayload :: "Env \<Rightarrow> string option \<Rightarrow> bool" where
  "badPayload env tok =
     (case fetchListing env tok of
        FetchRejected m \<Rightarrow> False
      | Fetched r \<Rightarrow> ok r \<and> (looksLikeHtml (body r) \<or> parsererror (parseFromString env (body r))))"

text \<open>
  What the task of one object contributes to the result of \<^verbatim>\<open>fetchMetadata\<close> when it
  finds the cache as it was before the batch: the image or \<^verbatim>\<open>null\<close>, and its warnings.
\<close>

definition enrich :: "Env \<Rightarrow> (string \<rightharpoonup> Image) \<Rightarrow> ObjectInfo \<Rightarrow> Image option" where
  "enrich env cache obj = fst (probe env cache obj)"

definition warned :: "Env \<Rightarrow> (string \<rightharpoonup> Image) \<Rightarrow> ObjectInfo \<Rightarrow> string list" where
  "warned env cache obj = snd (snd (probe env cache obj))"

text \<open>
  The size of an image is at least the floor; and the test of the source, \<^verbatim>\<open>size < minFileSize\<close>,
  on the size of an image. For a size that is NaN both are false.
\<close>

definition aboveFloor :: "Image \<Rightarrow> bool" where
  "aboveFloor img = (case sizeBytes img of None \<Rightarrow> False | Some n \<Rightarrow> minFileSize \<le> n)"

definition belowFloor :: "Image \<Rightarrow> bool" where
  "belowFloor img = lessNumber (sizeBytes img) minFileSize"

text \<open>
  No image the state retains, in \<open>images\<close>, in \<open>displayedImages\<close> or in the cache, is
  below the floor.
\<close>

definition noneBelowFloor :: "AppState \<Rightarrow> bool" where
  "noneBelowFloor s =
     ((\<forall>img \<in> set (images s). \<not> belowFloor img) \<and>
      (\<forall>img \<in> set (displayedImages s). \<not> belowFloor img) \<and>
      (\<forall>k img. metadataCache s k = Some img \<longrightarrow> \<not> belowFloor img))"

text \<open>
  Two environments with the same parser of dates and the same calendar: they may differ
  in what the store answers and in what the clock reads.
\<close>

definition sameCalendar :: "Env \<Rightarrow> Env \<Rightarrow> bool" where
  "sameCalendar env env' =
     (dateParse env' = dateParse env \<and> setHours0 env' = setHours0 env \<and>
      getFullYear env' = getFullYear env \<and> getMonth env' = getMonth env \<and>
      getDate env' = getDate env)"

text \<open>
  Every cached image is filed under its own key and extends an object of the listing.
\<close>

definition cacheMirrors :: "ObjectInfo list \<Rightarrow> (string \<rightharpoonup> Image) \<Rightarrow> bool" where
  "cacheMirrors objs cache =
     (\<forall>k img. cache k = Some img \<longrightarrow> key img = k \<and> toObject img \<in> set objs)"

text \<open>
  Every cached image is the image \<open>mk obj\<close> of an object \<open>obj\<close> of the listing, filed
  under the key of the object.
\<close>

definition cacheServes ::
  "(ObjectInfo \<Rightarrow> Image) \<Rightarrow> ObjectInfo list \<Rightarrow> (string \<rightharpoonup> Image) \<Rightarrow> bool" where
  "cacheServes mk objs cache =
     (\<forall>k img. cache k = Some img \<longrightarrow> (\<exists>obj \<in> set objs. key obj = k \<and> img = mk obj))"

text \<open>
  The image that the task of \<^verbatim>\<open>fetchMetadata\<close> builds from an object and the answer to its
  HEAD request.
\<close>

definition imageOf :: "HeadResponse \<Rightarrow> ObjectInfo \<Rightarrow> Image" where
  "imageOf headResponse obj =
     \<lparr>key = key obj, lastModified = lastModified obj, sizeBytes = headSize headResponse,
      contentType = orDefault (contentTypeHeader headResponse) ''unknown''\<rparr>"

text \<open>
  The invariant of the gallery: the objects are sorted newest first and have distinct
  keys, the cache mirrors them, and the images extend, in order, some of the objects on
  the pages of the filtered objects loaded so far.
\<close>

definition galleryInvariant :: "Env \<Rightarrow> AppState \<Rightarrow> bool" where
  "galleryInvariant env s =
     (sorted_wrt (newerOrEqual env) (objects s) \<and>
      distinct (map key (objects s)) \<and>
      cacheMirrors (objects s) (metadataCache s) \<and>
      subseq (map toObject (images s)) (take (page s * batchSize) (objectsToDisplay env s)))"

section \<open>A sample bucket\<close>

text \<open>
  The calendar of a browser in UTC: the civil date of a day number (days since
  1970-01-01), by the usual computation from the day of the 400-year era, with years
  that start in March. Months count from 0, as \<^verbatim>\<open>getMonth\<close> counts them.
\<close>

definition dayOfEra :: "int \<Rightarrow> int" where
  "dayOfEra z = (z + 719468) mod 146097"

definition yearOfEra :: "int \<Rightarrow> int" where
  "yearOfEra z =
     (dayOfEra z - dayOfEra z div 1460 + dayOfEra z div 36524 - dayOfEra z div 146096) div 365"

definition dayOfYear :: "int \<Rightarrow> int" where
  "dayOfYear z =
     dayOfEra z - (365 * yearOfEra z + yearOfEra z div 4 - yearOfEra z div 100)"

definition monthFromMarch :: "int \<Rightarrow> int" where
  "monthFromMarch z = (5 * dayOfYear z + 2) div 153"

definition civilYear :: "int \<Rightarrow> int" where
  "civilYear z =
     yearOfEra z + ((z + 719468) div 146097) * 400 + (if monthFromMarch z < 10 then 0 else 1)"

definition civilMonth :: "int \<Rightarrow> int" where
  "civilMonth z = (if monthFromMarch z < 10 then monthFromMarch z + 2 else monthFromMarch z - 10)"

definition civilDay :: "int \<Rightarrow> int" where
  "civilDay z = dayOfYear z - (153 * monthFromMarch z + 2) div 5 + 1"

definition sampleTimes :: "(string \<times> int) list" where
  "sampleTimes =
     [(''2025-04-18T15:45:00.000Z'', 1744991100000),
      (''2025-04-18T10:00:00.000Z'', 1744970400000),
      (''2025-04-18T09:30:00.000Z'', 1744968600000),
      (''2025-04-17T12:00:00.000Z'', 1744891200000),
      (''2025-04-16T08:00:00.000Z'', 1744790400000)]"

definition samplePages :: "(string \<times> XmlDocument) list" where
  "samplePages =
     [(''<ListBucketResult>1</ListBucketResult>'',
       \<lparr>parsererror = False,
        contentsNodes =
          [\<lparr>keyText = Some ''sunrise.jpg'', lastModifiedText = Some ''2025-04-18T10:00:00.000Z''\<rparr>,
           \<lparr>keyText = Some ''notes.txt'', lastModifiedText = Some ''2025-04-18T09:30:00.000Z''\<rparr>,
           \<lparr>keyText = Some ''harbour.PNG'', lastModifiedText = Some ''2025-04-17T12:00:00.000Z''\<rparr>],
        nextContinuationToken = Some ''next-1''\<rparr>),
      (''<ListBucketResult>2</ListBucketResult>'',
       \<lparr>parsererror = False,
        contentsNodes =
          [\<lparr>keyText = Some ''thumb.gif'', lastModifiedText = Some ''2025-04-18T10:00:00.000Z''\<rparr>,
           \<lparr>keyText = Some ''broken.webp'', lastModifiedText = Some ''2025-04-18T09:30:00.000Z''\<rparr>],
        nextContinuationToken = None\<rparr>),
      (''<ListBucketResult>notes</ListBucketResult>'',
       \<lparr>parsererror = False,
        contentsNodes =
          [\<lparr>keyText = Some ''notes.txt'', lastModifiedText = Some ''2025-04-18T09:30:00.000Z''\<rparr>],
        nextContinuationToken = None\<rparr>)]"

definition sampleHeads :: "(string \<times> HeadResponse fetched) list" where
  "sampleHeads =
     [(''sunrise.jpg'',
       Fetched \<lparr>headOk = True, contentLength = Some ''20480'', contentTypeHeader = Some ''image/jpeg''\<rparr>),
      (''harbour.PNG'',
       Fetched \<lparr>headOk = True, contentLength = Some ''51200'', contentTypeHeader = None\<rparr>),
      (''thumb.gif'',
       Fetched \<lparr>headOk = True, contentLength = Some ''512'', contentTypeHeader = Some ''image/gif''\<rparr>),
      (''broken.webp'',
       Fetched \<lparr>headOk = False, contentLength = None, contentTypeHeader = None\<rparr>)]"

definition okResponse :: "string \<Rightarrow> Response fetched" where
  "okResponse txt = Fetched \<lparr>ok = True, status = 200, statusText = ''OK'', body = txt\<rparr>"

text \<open>
  A bucket of five objects listed on two pages, seen on 2025-04-18 at 16:00 UTC. A
  payload that is not one of the sample pages does not parse; a key that is not in
  the bucket has its request rejected.
\<close>

definition sampleEnv :: Env where
  "sampleEnv =
     \<lparr>fetchListing =
        (\<lambda>tok. if tok = None then okResponse ''<ListBucketResult>1</ListBucketResult>''
               else if tok = Some ''next-1'' then okResponse ''<ListBucketResult>2</ListBucketResult>''
               else FetchRejected ''Failed to fetch''),
      fetchHead =
        (\<lambda>k. case map_of sampleHeads k of Some r \<Rightarrow> r | None \<Rightarrow> FetchRejected ''Failed to fetch''),
      parseFromString =
        (\<lambda>txt. case map_of samplePages txt of
                  Some doc \<Rightarrow> doc
                | None \<Rightarrow> \<lparr>parsererror = True, contentsNodes = [], nextContinuationToken = None\<rparr>),
      dateParse = (\<lambda>str. case map_of sampleTimes str of Some t \<Rightarrow> Date t | None \<Rightarrow> InvalidDate),
      setHours0 = (\<lambda>t. t - t mod 86400000),
      getFullYear = (\<lambda>t. civilYear (t div 86400000)),
      getMonth = (\<lambda>t. civilMonth (t div 86400000)),
      getDate = (\<lambda>t. civilDay (t div 86400000)),
      now = 1744992000000,
      origin = ''https://gallery.example''\<rparr>"

text \<open>
  An album of 45 images on three days: 20 on 2025-04-18, 15 on the day before and 10
  on the day before that, newest first.
\<close>

definition albumPhoto :: "string \<Rightarrow> nat \<Rightarrow> ObjectInfo" where
  "albumPhoto stamp n = \<lparr>key = ''photo-'' @ decimal n @ ''.jpg'', lastModified = stamp\<rparr>"

definition albumObjects :: "ObjectInfo list" where
  "albumObjects =
     map (albumPhoto ''2025-04-18T10:00:00.000Z'') [0..<20] @
     map (albumPhoto ''2025-04-17T12:00:00.000Z'') [20..<35] @
     map (albumPhoto ''2025-04-16T08:00:00.000Z'') [35..<45]"

text \<open>
  The store of the album: its listing has one page, and every HEAD request is answered
  with success, 204800 bytes and the type \<^verbatim>\<open>image/jpeg\<close>. The calendar and the clock are
  those of the sample bucket.
\<close>

definition albumHead :: HeadResponse where
  "albumHead =
     \<lparr>headOk = True, contentLength = Some ''204800'', contentTypeHeader = Some ''image/jpeg''\<rparr>"

definition albumEnv :: Env where
  "albumEnv =
     sampleEnv
       \<lparr>fetchListing := (\<lambda>tok. okResponse ''<ListBucketResult>album</ListBucketResult>''),
        fetchHead := (\<lambda>k. Fetched albumHead),
        parseFromString :=
          (\<lambda>txt. \<lparr>parsererror = False,
                   contentsNodes =
                     map (\<lambda>obj. \<lparr>keyText = Some (key obj),
                                  lastModifiedText = Some (lastModified obj)\<rparr>) albumObjects,
                   nextContinuationToken = None\<rparr>)\<rparr>"

text \<open>
  The album with a date selected or with all dates, before the date effect has run.
\<close>

definition albumState :: "Date option \<Rightarrow> AppState" where
  "albumState sel = (initialState albumEnv)\<lparr>objects := albumObjects, selectedDate := sel\<rparr>"

text \<open>
  A session on the album, once mounted: the user picks all dates and the first page
  arrives; the sentinel comes into view and \<^verbatim>\<open>loadMoreImages\<close> asks for the second
  page; while it waits the user picks 2025-04-16, whose first page arrives; then the
  second page of all dates arrives.
\<close>

definition stalePage :: "Action list" where
  "stalePage =
     [UserEvent (DatePickerChange None), Settle 0,
      UserEvent ScrollToSentinel,
      UserEvent (DatePickerChange (Some (Date 1744761600000))), Settle 1,
      Settle 0]"

definition afterStalePage :: "Session option" where
  "afterStalePage =
     map_option (\<lambda>s0. play albumEnv \<lparr>app = s0, suspended = []\<rparr> stalePage) (mount 1 albumEnv)"

text \<open>The state of the gallery once it is mounted on the sample bucket.\<close>

definition mounted :: AppState where
  "mounted =
     \<lparr>objects =
        [\<lparr>key = ''sunrise.jpg'', lastModified = ''2025-04-18T10:00:00.000Z''\<rparr>,
         \<lparr>key = ''thumb.gif'', lastModified = ''2025-04-18T10:00:00.000Z''\<rparr>,
         \<lparr>key = ''broken.webp'', lastModified = ''2025-04-18T09:30:00.000Z''\<rparr>,
         \<lparr>key = ''harbour.PNG'', lastModified = ''2025-04-17T12:00:00.000Z''\<rparr>],
      images =
        [\<lparr>key = ''sunrise.jpg'', lastModified = ''2025-04-18T10:00:00.000Z'',
          sizeBytes = Some 20480, contentType = ''image/jpeg''\<rparr>],
      displayedImages =
        [\<lparr>key = ''sunrise.jpg'', lastModified = ''2025-04-18T10:00:00.000Z'',
          sizeBytes = Some 20480, contentType = ''image/jpeg''\<rparr>],
      selectedDate = Some (Date 1744992000000),
      uniqueDates = [Date 1744934400000, Date 1744848000000],
      loading = False, error = None, page = 1, hasMore = False,
      metadataCache =
        [''sunrise.jpg'' \<mapsto>
           \<lparr>key = ''sunrise.jpg'', lastModified = ''2025-04-18T10:00:00.000Z'',
            sizeBytes = Some 20480, contentType = ''image/jpeg''\<rparr>],
      consoleWarnings = [''Failed to fetch metadata for broken.webp'']\<rparr>"

text \<open>
  Three faulty stores: one whose endpoint serves the page of a browser console, one
  whose second listing page is cut off, and one that holds a text file only.
\<close>

definition htmlEnv :: Env where
  "htmlEnv =
     sampleEnv\<lparr>fetchListing :=
       (\<lambda>tok. okResponse ''<!DOCTYPE html><html><body>MinIO Console</body></html>'')\<rparr>"

definition truncatedEnv :: Env where
  "truncatedEnv =
     sampleEnv\<lparr>fetchListing :=
       (\<lambda>tok. if tok = None then okResponse ''<ListBucketResult>1</ListBucketResult>''
              else okResponse ''<ListBucketResult><Contents><Key>thumb'')\<rparr>"

definition notesEnv :: Env where
  "notesEnv =
     sampleEnv\<lparr>fetchListing := (\<lambda>tok. okResponse ''<ListBucketResult>notes</ListBucketResult>'')\<rparr>"

text \<open>
  Ten candidates, and a store that answers every HEAD request but those for two of
  them, which are rejected.
\<close>

definition candidates :: "ObjectInfo list" where
  "candidates = map (albumPhoto ''2025-04-18T10:00:00.000Z'') [0..<10]"

definition flakyEnv :: Env where
  "flakyEnv =
     sampleEnv\<lparr>fetchHead :=
       (\<lambda>k. if k = ''photo-3.jpg'' \<or> k = ''photo-7.jpg'' then FetchRejected ''Failed to fetch''
            else Fetched \<lparr>headOk = True, contentLength = Some ''204800'',
                          contentTypeHeader = Some ''image/jpeg''\<rparr>)\<rparr>"

text \<open>
  A store that answers every HEAD request with success and with a \<^verbatim>\<open>Content-Length\<close> that
  is not a number.
\<close>

definition garbledHeads :: "string \<Rightarrow> HeadResponse fetched" where
  "garbledHeads k =
     Fetched \<lparr>headOk = True, contentLength = Some ''unknown'',
              contentTypeHeader = Some ''image/jpeg''\<rparr>"

section \<open>Evaluating the sample bucket\<close>

text \<open>
  The equation of \<open>decimal\<close> is unfolded on numerals only, where it is asked for.
\<close>

declare decimal.simps [simp del]

lemmas civil_defs =
  civilYear_def civilMonth_def civilDay_def monthFromMarch_def dayOfYear_def yearOfEra_def
  dayOfEra_def

lemma sampleEnv_sel:
  "fetchListing sampleEnv tok =
     (if tok = None then okResponse ''<ListBucketResult>1</ListBucketResult>''
      else if tok = Some ''next-1'' then okResponse ''<ListBucketResult>2</ListBucketResult>''
      else FetchRejected ''Failed to fetch'')"
  "fetchHead sampleEnv k =
     (case map_of sampleHeads k of Some r \<Rightarrow> r | None \<Rightarrow> FetchRejected ''Failed to fetch'')"
  "parseFromString sampleEnv txt =
     (case map_of samplePages txt of
        Some doc \<Rightarrow> doc
      | None \<Rightarrow> \<lparr>parsererror = True, contentsNodes = [], nextContinuationToken = None\<rparr>)"
  "dateParse sampleEnv str =
     (case map_of sampleTimes str of Some t \<Rightarrow> Date t | None \<Rightarrow> InvalidDate)"
  "setHours0 sampleEnv t = t - t mod 86400000"
  "getFullYear sampleEnv t = civilYear (t div 86400000)"
  "getMonth sampleEnv t = civilMonth (t div 86400000)"
  "getDate sampleEnv t = civilDay (t div 86400000)"
  "now sampleEnv = 1744992000000"
  "origin sampleEnv = ''https://gallery.example''"
  by (simp_all add: sampleEnv_def)

lemma sample_days:
  "onSelectedDay sampleEnv (Date 1744992000000) (albumPhoto ''2025-04-18T10:00:00.000Z'' n)"
  "\<not> onSelectedDay sampleEnv (Date 1744992000000) (albumPhoto ''2025-04-17T12:00:00.000Z'' n)"
  "\<not> onSelectedDay sampleEnv (Date 1744992000000) (albumPhoto ''2025-04-16T08:00:00.000Z'' n)"
  by (simp_all add: onSelectedDay_def albumPhoto_def areDatesEqual_def sampleEnv_sel
      sampleTimes_def timeClip_def civil_defs)

lemma album_lengths:
  "length (filter (onSelectedDay sampleEnv (Date 1744992000000)) albumObjects) = 20"
  "length albumObjects = 45"
  by (simp_all add: albumObjects_def filter_map o_def sample_days)

lemma sample_listing:
  "listObjects 2 sampleEnv [] None =
     Some (Inr [\<lparr>key = ''sunrise.jpg'', lastModified = ''2025-04-18T10:00:00.000Z''\<rparr>,
                \<lparr>key = ''notes.txt'', lastModified = ''2025-04-18T09:30:00.000Z''\<rparr>,
                \<lparr>key = ''harbour.PNG'', lastModified = ''2025-04-17T12:00:00.000Z''\<rparr>,
                \<lparr>key = ''thumb.gif'', lastModified = ''2025-04-18T10:00:00.000Z''\<rparr>,
                \<lparr>key = ''broken.webp'', lastModified = ''2025-04-18T09:30:00.000Z''\<rparr>])"
  by (simp add: numeral_2_eq_2 listPage_def sampleEnv_sel okResponse_def looksLikeHtml_def
      trim_def isWhiteSpace_def samplePages_def nodeToObject_def orEmpty_def orNull_def)

lemma sample_keys:
  "isImageKey ''sunrise.jpg''" "\<not> isImageKey ''notes.txt''" "isImageKey ''harbour.PNG''"
  "isImageKey ''thumb.gif''" "isImageKey ''broken.webp''"
  by (simp_all add: isImageKey_def endsWith_def toLowerASCII_def)

lemma sample_times:
  "timeOf sampleEnv (r\<lparr>lastModified := ''2025-04-18T15:45:00.000Z''\<rparr>) = Some 1744991100000"
  "timeOf sampleEnv (r\<lparr>lastModified := ''2025-04-18T10:00:00.000Z''\<rparr>) = Some 1744970400000"
  "timeOf sampleEnv (r\<lparr>lastModified := ''2025-04-18T09:30:00.000Z''\<rparr>) = Some 1744968600000"
  "timeOf sampleEnv (r\<lparr>lastModified := ''2025-04-17T12:00:00.000Z''\<rparr>) = Some 1744891200000"
  by (simp_all add: timeOf_def sampleEnv_sel sampleTimes_def)

lemma sample_imageObjects:
  "imageObjects sampleEnv
     [\<lparr>key = ''sunrise.jpg'', lastModified = ''2025-04-18T10:00:00.000Z''\<rparr>,
      \<lparr>key = ''notes.txt'', lastModified = ''2025-04-18T09:30:00.000Z''\<rparr>,
      \<lparr>key = ''harbour.PNG'', lastModified = ''2025-04-17T12:00:00.000Z''\<rparr>,
      \<lparr>key = ''thumb.gif'', lastModified = ''2025-04-18T10:00:00.000Z''\<rparr>,
      \<lparr>key = ''broken.webp'', lastModified = ''2025-04-18T09:30:00.000Z''\<rparr>] =
     [\<lparr>key = ''sunrise.jpg'', lastModified = ''2025-04-18T10:00:00.000Z''\<rparr>,
      \<lparr>key = ''thumb.gif'', lastModified = ''2025-04-18T10:00:00.000Z''\<rparr>,
      \<lparr>key = ''broken.webp'', lastModified = ''2025-04-18T09:30:00.000Z''\<rparr>,
      \<lparr>key = ''harbour.PNG'', lastModified = ''2025-04-17T12:00:00.000Z''\<rparr>]"
  using sample_times[of "\<lparr>key = k, lastModified = l\<rparr>" for k l]
  by (simp add: imageObjects_def sample_keys sortBy_def newestFirst_def)

lemma sample_dayStamps:
  "dayStamps sampleEnv
     [\<lparr>key = ''sunrise.jpg'', lastModified = ''2025-04-18T10:00:00.000Z''\<rparr>,
      \<lparr>key = ''thumb.gif'', lastModified = ''2025-04-18T10:00:00.000Z''\<rparr>,
      \<lparr>key = ''broken.webp'', lastModified = ''2025-04-18T09:30:00.000Z''\<rparr>,
      \<lparr>key = ''harbour.PNG'', lastModified = ''2025-04-17T12:00:00.000Z''\<rparr>] =
     Inr [1744934400000, 1744934400000, 1744934400000, 1744848000000]"
  by (simp add: sampleEnv_sel sampleTimes_def timeClip_def)

lemma sample_listAll:
  "listAll 2 sampleEnv =
     Some (Inr ([\<lparr>key = ''sunrise.jpg'', lastModified = ''2025-04-18T10:00:00.000Z''\<rparr>,
                 \<lparr>key = ''thumb.gif'', lastModified = ''2025-04-18T10:00:00.000Z''\<rparr>,
                 \<lparr>key = ''broken.webp'', lastModified = ''2025-04-18T09:30:00.000Z''\<rparr>,
                 \<lparr>key = ''harbour.PNG'', lastModified = ''2025-04-17T12:00:00.000Z''\<rparr>],
                [Date 1744934400000, Date 1744848000000]))"
  by (simp add: listAll_def sample_listing sample_imageObjects sample_dayStamps
      distinctInOrder_def sortBy_def del: dayStamps.simps)


lemma sample_today:
  "onSelectedDay sampleEnv (Date 1744992000000) (r\<lparr>lastModified := ''2025-04-18T15:45:00.000Z''\<rparr>)"
  "onSelectedDay sampleEnv (Date 1744992000000) (r\<lparr>lastModified := ''2025-04-18T10:00:00.000Z''\<rparr>)"
  "onSelectedDay sampleEnv (Date 1744992000000) (r\<lparr>lastModified := ''2025-04-18T09:30:00.000Z''\<rparr>)"
  "\<not> onSelectedDay sampleEnv (Date 1744992000000) (r\<lparr>lastModified := ''2025-04-17T12:00:00.000Z''\<rparr>)"
  by (simp_all add: onSelectedDay_def areDatesEqual_def sampleEnv_sel sampleTimes_def
      timeClip_def civil_defs)

lemma sample_yesterday:
  "\<not> onSelectedDay sampleEnv (Date 1744905600000) (r\<lparr>lastModified := ''2025-04-18T15:45:00.000Z''\<rparr>)"
  "\<not> onSelectedDay sampleEnv (Date 1744905600000) (r\<lparr>lastModified := ''2025-04-18T10:00:00.000Z''\<rparr>)"
  "\<not> onSelectedDay sampleEnv (Date 1744905600000) (r\<lparr>lastModified := ''2025-04-18T09:30:00.000Z''\<rparr>)"
  "onSelectedDay sampleEnv (Date 1744905600000) (r\<lparr>lastModified := ''2025-04-17T12:00:00.000Z''\<rparr>)"
  by (simp_all add: onSelectedDay_def areDatesEqual_def sampleEnv_sel sampleTimes_def
      timeClip_def civil_defs)

lemma parseInt_samples:
  "parseInt ''20480'' = Some 20480" "parseInt ''51200'' = Some 51200"
  "parseInt ''512'' = Some 512" "parseInt ''204800'' = Some 204800"
  "parseInt ''0'' = Some 0" "parseInt ''unknown'' = None"
  by (simp_all add: parseInt_def isWhiteSpace_def isDigit_def digitsValue_def digitValue_def
      Let_def)

lemma sample_probes:
  "probe sampleEnv c \<lparr>key = ''thumb.gif'', lastModified = l\<rparr> =
     (case c ''thumb.gif'' of
        None \<Rightarrow> (None, c, [])
      | Some cached \<Rightarrow> (Some cached, c, []))"
  "probe sampleEnv Map.empty \<lparr>key = ''sunrise.jpg'', lastModified = l\<rparr> =
     (Some \<lparr>key = ''sunrise.jpg'', lastModified = l, sizeBytes = Some 20480, contentType = ''image/jpeg''\<rparr>,
      [''sunrise.jpg'' \<mapsto>
         \<lparr>key = ''sunrise.jpg'', lastModified = l, sizeBytes = Some 20480, contentType = ''image/jpeg''\<rparr>],
      [])"
  "probe sampleEnv c \<lparr>key = ''broken.webp'', lastModified = l\<rparr> =
     (case c ''broken.webp'' of
        None \<Rightarrow> (None, c, [''Failed to fetch metadata for broken.webp''])
      | Some cached \<Rightarrow> (Some cached, c, []))"
  "probe sampleEnv Map.empty \<lparr>key = ''harbour.PNG'', lastModified = l\<rparr> =
     (Some \<lparr>key = ''harbour.PNG'', lastModified = l, sizeBytes = Some 51200, contentType = ''unknown''\<rparr>,
      [''harbour.PNG'' \<mapsto>
         \<lparr>key = ''harbour.PNG'', lastModified = l, sizeBytes = Some 51200, contentType = ''unknown''\<rparr>],
      [])"
  by (simp_all add: probe_def sampleEnv_sel sampleHeads_def headSize_def orDefault_def
      parseInt_samples lessNumber_def minFileSize_def Let_def split: option.splits)

lemma sample_effect_today:
  "objects s =
     [\<lparr>key = ''sunrise.jpg'', lastModified = ''2025-04-18T10:00:00.000Z''\<rparr>,
      \<lparr>key = ''thumb.gif'', lastModified = ''2025-04-18T10:00:00.000Z''\<rparr>,
      \<lparr>key = ''broken.webp'', lastModified = ''2025-04-18T09:30:00.000Z''\<rparr>,
      \<lparr>key = ''harbour.PNG'', lastModified = ''2025-04-17T12:00:00.000Z''\<rparr>] \<Longrightarrow>
   selectedDate s = Some (Date 1744992000000) \<Longrightarrow>
   selectedDateEffect sampleEnv s =
     s\<lparr>displayedImages :=
         [\<lparr>key = ''sunrise.jpg'', lastModified = ''2025-04-18T10:00:00.000Z'',
           sizeBytes = Some 20480, contentType = ''image/jpeg''\<rparr>],
       images :=
         [\<lparr>key = ''sunrise.jpg'', lastModified = ''2025-04-18T10:00:00.000Z'',
           sizeBytes = Some 20480, contentType = ''image/jpeg''\<rparr>],
       page := 1,
       metadataCache :=
         [''sunrise.jpg'' \<mapsto>
            \<lparr>key = ''sunrise.jpg'', lastModified = ''2025-04-18T10:00:00.000Z'',
             sizeBytes = Some 20480, contentType = ''image/jpeg''\<rparr>],
       hasMore := False, loading := False,
       consoleWarnings := consoleWarnings s @ [''Failed to fetch metadata for broken.webp'']\<rparr>"
  using sample_today[of "\<lparr>key = k, lastModified = l\<rparr>" for k l]
  by (simp add: selectedDateEffect_def resetDisplay_def fetchInitialImages_def objectsToDisplay_def
      slice_def batchSize_def sample_probes)

lemma selectedDateEffect_no_objects:
  "objects s = [] \<Longrightarrow> selectedDateEffect env s = resetDisplay s"
  by (simp add: selectedDateEffect_def resetDisplay_def)

lemma sample_mount: "mount 2 sampleEnv = Some mounted"
  by (simp add: mount_def fetchObjects_def sample_listAll selectedDateEffect_no_objects
      resetDisplay_def initialState_def sampleEnv_sel sample_effect_today mounted_def)

lemma sample_env_same:
  "sampleEnv\<lparr>now := 1744992000000\<rparr> = sampleEnv"
  by (simp add: sampleEnv_def)

lemma sample_effect_yesterday:
  "objects s =
     [\<lparr>key = ''sunrise.jpg'', lastModified = ''2025-04-18T10:00:00.000Z''\<rparr>,
      \<lparr>key = ''thumb.gif'', lastModified = ''2025-04-18T10:00:00.000Z''\<rparr>,
      \<lparr>key = ''broken.webp'', lastModified = ''2025-04-18T09:30:00.000Z''\<rparr>,
      \<lparr>key = ''harbour.PNG'', lastModified = ''2025-04-17T12:00:00.000Z''\<rparr>] \<Longrightarrow>
   selectedDate s = Some (Date 1744905600000) \<Longrightarrow>
   selectedDateEffect sampleEnv s =
     s\<lparr>displayedImages :=
         [\<lparr>key = ''harbour.PNG'', lastModified = ''2025-04-17T12:00:00.000Z'',
           sizeBytes = Some 51200, contentType = ''unknown''\<rparr>],
       images :=
         [\<lparr>key = ''harbour.PNG'', lastModified = ''2025-04-17T12:00:00.000Z'',
           sizeBytes = Some 51200, contentType = ''unknown''\<rparr>],
       page := 1,
       metadataCache :=
         [''harbour.PNG'' \<mapsto>
            \<lparr>key = ''harbour.PNG'', lastModified = ''2025-04-17T12:00:00.000Z'',
             sizeBytes = Some 51200, contentType = ''unknown''\<rparr>],
       hasMore := False, loading := False\<rparr>"
  using sample_yesterday[of "\<lparr>key = k, lastModified = l\<rparr>" for k l]
  by (simp add: selectedDateEffect_def resetDisplay_def fetchInitialImages_def objectsToDisplay_def
      slice_def batchSize_def sample_probes)

lemma sample_previous:
  "react sampleEnv PreviousDate mounted =
     mounted\<lparr>selectedDate := Some (Date 1744905600000),
       displayedImages :=
         [\<lparr>key = ''harbour.PNG'', lastModified = ''2025-04-17T12:00:00.000Z'',
           sizeBytes = Some 51200, contentType = ''unknown''\<rparr>],
       images :=
         [\<lparr>key = ''harbour.PNG'', lastModified = ''2025-04-17T12:00:00.000Z'',
           sizeBytes = Some 51200, contentType = ''unknown''\<rparr>],
       metadataCache :=
         [''harbour.PNG'' \<mapsto>
            \<lparr>key = ''harbour.PNG'', lastModified = ''2025-04-17T12:00:00.000Z'',
             sizeBytes = Some 51200, contentType = ''unknown''\<rparr>]\<rparr>"
proof -
  have "react sampleEnv PreviousDate mounted =
      selectedDateEffect sampleEnv (mounted\<lparr>selectedDate := Some (Date 1744905600000)\<rparr>)"
    by (simp add: handlePreviousDate_def setSelectedDate_def mounted_def timeClip_def)
  also have "\<dots> = mounted\<lparr>selectedDate := Some (Date 1744905600000),
       displayedImages :=
         [\<lparr>key = ''harbour.PNG'', lastModified = ''2025-04-17T12:00:00.000Z'',
           sizeBytes = Some 51200, contentType = ''unknown''\<rparr>],
       images :=
         [\<lparr>key = ''harbour.PNG'', lastModified = ''2025-04-17T12:00:00.000Z'',
           sizeBytes = Some 51200, contentType = ''unknown''\<rparr>],
       metadataCache :=
         [''harbour.PNG'' \<mapsto>
            \<lparr>key = ''harbour.PNG'', lastModified = ''2025-04-17T12:00:00.000Z'',
             sizeBytes = Some 51200, contentType = ''unknown''\<rparr>]\<rparr>"
    by (subst sample_effect_yesterday) (simp_all add: mounted_def)
  finally show ?thesis .
qed

section \<open>The date filter and the pages\<close>

lemma objectsToDisplay_cong:
  "selectedDate s' = selectedDate s \<Longrightarrow> objects s' = objects s \<Longrightarrow>
   objectsToDisplay env s' = objectsToDisplay env s"
  by (simp add: objectsToDisplay_def split: option.splits)

lemma objectsToDisplay_eq:
  "objectsToDisplay env s =
     (case selectedDate s of
        None \<Rightarrow> objects s
      | Some d \<Rightarrow> filter (onSelectedDay env d) (objects s))"
  by (simp add: objectsToDisplay_def)

lemma fetchInitialImages_frame:
  "objects (fetchInitialImages env s) = objects s"
  "selectedDate (fetchInitialImages env s) = selectedDate s"
  "uniqueDates (fetchInitialImages env s) = uniqueDates s"
  "page (fetchInitialImages env s) = page s"
  "error (fetchInitialImages env s) = error s"
  "loading (fetchInitialImages env s) = False"
  "hasMore (fetchInitialImages env s) = (batchSize < length (objectsToDisplay env s))"
  by (simp_all add: fetchInitialImages_def Let_def split: prod.splits)

lemma selectedDateEffect_frame:
  "objects (selectedDateEffect env s) = objects s"
  "selectedDate (selectedDateEffect env s) = selectedDate s"
  "uniqueDates (selectedDateEffect env s) = uniqueDates s"
  "page (selectedDateEffect env s) = 1"
  "error (selectedDateEffect env s) = error s"
  by (simp_all add: selectedDateEffect_def resetDisplay_def Let_def fetchInitialImages_frame)

lemma selectedDateEffect_hasMore:
  "objects s \<noteq> [] \<Longrightarrow>
   hasMore (selectedDateEffect env s) = (batchSize < length (objectsToDisplay env s)) \<and>
   \<not> loading (selectedDateEffect env s)"
proof -
  have "objectsToDisplay env (resetDisplay s) = objectsToDisplay env s"
    by (rule objectsToDisplay_cong) (simp_all add: resetDisplay_def)
  moreover have "objects (resetDisplay s) = objects s"
    by (simp add: resetDisplay_def)
  ultimately show "objects s \<noteq> [] \<Longrightarrow> ?thesis"
    by (simp add: selectedDateEffect_def Let_def fetchInitialImages_frame)
qed

lemma loadMoreImages_frame:
  "objects (loadMoreImages env s) = objects s"
  "selectedDate (loadMoreImages env s) = selectedDate s"
  "uniqueDates (loadMoreImages env s) = uniqueDates s"
  "error (loadMoreImages env s) = error s"
  by (simp_all add: loadMoreImages_def Let_def split: prod.splits)

lemma loadMoreImages_step:
  assumes "hasMore s" "\<not> loading s"
  shows "page (loadMoreImages env s) = page s + 1"
    and "hasMore (loadMoreImages env s) =
           ((page s + 1) * batchSize < length (objectsToDisplay env s))"
    and "\<not> loading (loadMoreImages env s)"
  using assms by (simp_all add: loadMoreImages_def Let_def split: prod.splits)

lemma objectsToDisplay_loadMoreImages:
  "objectsToDisplay env (loadMoreImages env' s) = objectsToDisplay env s"
  by (rule objectsToDisplay_cong) (simp_all add: loadMoreImages_frame)

lemma objectsToDisplay_selectedDateEffect:
  "objectsToDisplay env (selectedDateEffect env' s) = objectsToDisplay env s"
  by (rule objectsToDisplay_cong) (simp_all add: selectedDateEffect_frame)

lemma set_objectsToDisplay: "set (objectsToDisplay env s) \<subseteq> set (objects s)"
  by (auto simp: objectsToDisplay_def split: option.splits)

text \<open>The filtered objects do not depend on the store and the clock.\<close>

lemma sameCalendar_normalizeDate:
  "sameCalendar env env' \<Longrightarrow> normalizeDate env' d = normalizeDate env d"
  by (cases d) (simp_all add: sameCalendar_def)

lemma sameCalendar_objectsToDisplay:
  assumes "sameCalendar env env'"
  shows "objectsToDisplay env' s = objectsToDisplay env s"
proof -
  have "onSelectedDay env' d obj = onSelectedDay env d obj" for d and obj :: ObjectInfo
    using assms sameCalendar_normalizeDate[OF assms]
    by (simp add: onSelectedDay_def areDatesEqual_def sameCalendar_def cong: Date.case_cong)
  then show ?thesis
    by (simp add: objectsToDisplay_def cong: option.case_cong)
qed

lemma sameCalendar_step: "sameCalendar env (env\<lparr>fetchHead := h, now := c\<rparr>)"
  by (simp add: sameCalendar_def)

text \<open>
  The state after the date effect and \<open>k\<close> calls of \<^verbatim>\<open>loadMoreImages\<close>, each of which
  found more to load.
\<close>

lemma pages_loaded:
  assumes "objects s \<noteq> []"
  shows "(0 < k \<longrightarrow> k * batchSize < length (objectsToDisplay env s)) \<Longrightarrow>
     page ((loadMoreImages env ^^ k) (selectedDateEffect env s)) = k + 1 \<and>
     hasMore ((loadMoreImages env ^^ k) (selectedDateEffect env s)) =
       ((k + 1) * batchSize < length (objectsToDisplay env s)) \<and>
     \<not> loading ((loadMoreImages env ^^ k) (selectedDateEffect env s)) \<and>
     objectsToDisplay env ((loadMoreImages env ^^ k) (selectedDateEffect env s)) =
       objectsToDisplay env s"
proof (induction k)
  case 0
  show ?case
    using selectedDateEffect_hasMore[OF assms, of env]
    by (simp add: selectedDateEffect_frame objectsToDisplay_selectedDateEffect)
next
  case (Suc k)
  let ?t = "(loadMoreImages env ^^ k) (selectedDateEffect env s)"
  have more: "Suc k * batchSize < length (objectsToDisplay env s)"
    using Suc.prems by simp
  then have "0 < k \<longrightarrow> k * batchSize < length (objectsToDisplay env s)"
    by (simp add: batchSize_def)
  then have IH: "page ?t = k + 1" "hasMore ?t" "\<not> loading ?t"
    "objectsToDisplay env ?t = objectsToDisplay env s"
    using Suc.IH more by simp_all
  show ?case
    using loadMoreImages_step[OF IH(2) IH(3), of env] IH(1) IH(4)
    by (simp add: objectsToDisplay_loadMoreImages)
qed

section \<open>Claim C1: the flag of the Next button\<close>

text \<open>
  C1, as stated: \<open>hasNextDate\<close> is false exactly when the selected date is the current
  local day, for every value of \<open>selectedDate\<close>, the case of no selected date included.
  The source gives \<open>false\<close> when no date is selected
  (\<^verbatim>\<open>selectedDate ? ... : false\<close>), and \<^verbatim>\<open>handleNextDate\<close> does nothing then. With no
  date selected in the sample environment the flag is false although no date is the
  current day.
\<close>

theorem C1_all_dates_counterexample:
  "\<not> ((\<not> hasNextDate sampleEnv None) = isCurrentLocalDay sampleEnv None)"
  by (simp add: hasNextDate_def isCurrentLocalDay_def)

text \<open>
  C1, amended: \<open>hasNextDate\<close> is false exactly when no date is selected or the selected
  date is on the current local day.
\<close>

theorem C1_hasNextDate:
  "(\<not> hasNextDate env sel) = (sel = None \<or> isCurrentLocalDay env sel)"
  by (simp add: hasNextDate_def isCurrentLocalDay_def split: option.splits)

section \<open>Claim C3: a payload that is not a listing\<close>

lemma format_error_message:
  "isFormatError e \<Longrightarrow> errorMessage env e = message e"
  by (cases e) (simp_all add: errorMessage_def)

lemma listPage_badPayload:
  "badPayload env tok \<Longrightarrow> \<exists>e. isFormatError e \<and> listPage env tok = Inl e"
  by (auto simp: badPayload_def listPage_def Let_def split: fetched.splits)

text \<open>
  An error on the page requested with the token that \<open>k\<close> passes lead to ends the loop
  with that error, whatever was accumulated before.
\<close>

lemma listObjects_error_at:
  "tokenAfter env tok k = Some tok' \<Longrightarrow> listPage env tok' = Inl e \<Longrightarrow> k < fuel \<Longrightarrow>
   listObjects fuel env acc tok = Some (Inl e)"
proof (induction k arbitrary: tok acc fuel)
  case 0
  then obtain n where "fuel = Suc n"
    by (cases fuel) simp_all
  with 0 show ?case
    by simp
next
  case (Suc k)
  then obtain n where n: "fuel = Suc n" "k < n"
    by (cases fuel) simp_all
  from Suc.prems(1) obtain objs t where page: "listPage env tok = Inr (objs, Some t)"
    and rest: "tokenAfter env (Some t) k = Some tok'"
    by (auto split: sum.splits prod.splits option.splits)
  from Suc.IH[OF rest Suc.prems(2) n(2)] page n(1) show ?case
    by simp
qed

lemma html_bad: "badPayload htmlEnv None"
  by (simp add: badPayload_def htmlEnv_def okResponse_def looksLikeHtml_def trim_def
      isWhiteSpace_def)

lemma truncated_bad:
  "tokenAfter truncatedEnv None 1 = Some (Some ''next-1'')"
  "badPayload truncatedEnv (Some ''next-1'')"
  by (simp_all add: badPayload_def listPage_def truncatedEnv_def sampleEnv_sel okResponse_def
      looksLikeHtml_def trim_def isWhiteSpace_def samplePages_def orNull_def)

text \<open>
  C3: when a listing response, the first or a later page of the pagination, has a
  payload that does not parse as XML or that looks like an HTML page, \<^verbatim>\<open>fetchObjects\<close>
  ends with one of the two format errors, whose message (not empty) is put into
  \<open>error\<close> for the user to see; nothing else of the state changes but \<open>loading\<close>: the
  objects, the unique dates, the images, the displayed images, the page, \<open>hasMore\<close> and
  the cache are those of before, and no objects of the pages read so far are committed.
\<close>

theorem C3_format_error:
  assumes "tokenAfter env None k = Some tok" and "badPayload env tok" and "k < fuel"
  shows "\<exists>e. isFormatError e \<and> message e \<noteq> [] \<and>
           fetchObjects fuel env s = Some (s\<lparr>error := Some (message e), loading := False\<rparr>)"
proof -
  from listPage_badPayload[OF assms(2)] obtain e
    where e: "isFormatError e" "listPage env tok = Inl e"
    by blast
  from listObjects_error_at[OF assms(1) e(2) assms(3)]
  have "listAll fuel env = Some (Inl e)"
    by (simp add: listAll_def)
  then have "fetchObjects fuel env s = Some (s\<lparr>error := Some (message e), loading := False\<rparr>)"
    by (simp add: fetchObjects_def format_error_message[OF e(1)])
  moreover have "message e \<noteq> []"
    using e(1) by (cases e) simp_all
  ultimately show ?thesis
    using e(1) by blast
qed

text \<open>
  The console page of \<open>htmlEnv\<close> on the first request, and the cut-off second page of
  \<open>truncatedEnv\<close>.
\<close>

theorem C3_format_error_witness:
  "badPayload htmlEnv None \<and>
   (\<exists>e. isFormatError e \<and> message e \<noteq> [] \<and>
      fetchObjects 1 htmlEnv (initialState htmlEnv) =
        Some ((initialState htmlEnv)\<lparr>error := Some (message e), loading := False\<rparr>)) \<and>
   map_option error (fetchObjects 1 htmlEnv (initialState htmlEnv)) =
     Some (Some (message HtmlInsteadOfXml)) \<and>
   tokenAfter truncatedEnv None 1 = Some (Some ''next-1'') \<and>
   badPayload truncatedEnv (Some ''next-1'') \<and>
   (\<exists>e. isFormatError e \<and> message e \<noteq> [] \<and>
      fetchObjects 2 truncatedEnv (initialState truncatedEnv) =
        Some ((initialState truncatedEnv)\<lparr>error := Some (message e), loading := False\<rparr>)) \<and>
   map_option error (fetchObjects 2 truncatedEnv (initialState truncatedEnv)) =
     Some (Some ''Failed to parse XML response. Ensure the bucket returns a valid object listing.'') \<and>
   map_option objects (fetchObjects 2 truncatedEnv (initialState truncatedEnv)) = Some []"
proof -
  have "tokenAfter htmlEnv None 0 = Some None"
    by simp
  note html = C3_format_error[OF this html_bad, of 1 "initialState htmlEnv"]
  note truncated = C3_format_error[OF truncated_bad, of 2 "initialState truncatedEnv"]
  have "listPage htmlEnv None = Inl HtmlInsteadOfXml"
    by (simp add: listPage_def htmlEnv_def okResponse_def looksLikeHtml_def trim_def
        isWhiteSpace_def)
  then have "listAll 1 htmlEnv = Some (Inl HtmlInsteadOfXml)"
    by (simp add: listAll_def)
  then have h: "map_option error (fetchObjects 1 htmlEnv (initialState htmlEnv)) =
      Some (Some (message HtmlInsteadOfXml))"
    by (simp add: fetchObjects_def format_error_message del: One_nat_def message.simps)
  have "listObjects 2 truncatedEnv [] None = Some (Inl XmlParseError)"
    by (simp add: numeral_2_eq_2 listPage_def truncatedEnv_def sampleEnv_sel okResponse_def
        looksLikeHtml_def trim_def isWhiteSpace_def samplePages_def orNull_def)
  then have "listAll 2 truncatedEnv = Some (Inl XmlParseError)"
    by (simp add: listAll_def)
  then have t: "map_option error (fetchObjects 2 truncatedEnv (initialState truncatedEnv)) =
        Some (Some ''Failed to parse XML response. Ensure the bucket returns a valid object listing.'')"
      "map_option objects (fetchObjects 2 truncatedEnv (initialState truncatedEnv)) = Some []"
    by (simp_all add: fetchObjects_def format_error_message initialState_def)
  from html truncated h t html_bad truncated_bad show ?thesis
    by (simp only: simp_thms)
qed

section \<open>Claim C7: the empty listing\<close>

lemma empty_error_message:
  "errorMessage env NoObjectsFound = ''No objects found in the bucket.''"
  by (simp add: errorMessage_def)

lemma dayStamps_error:
  "dayStamps env xs = Inl e \<Longrightarrow> e = InvalidTimeValue"
  by (induction xs) (auto split: Date.splits sum.splits)

lemma notesEnv_listing:
  "listObjects 1 notesEnv [] None =
     Some (Inr [\<lparr>key = ''notes.txt'', lastModified = ''2025-04-18T09:30:00.000Z''\<rparr>])"
  by (simp add: listPage_def notesEnv_def sampleEnv_sel okResponse_def looksLikeHtml_def
      trim_def isWhiteSpace_def samplePages_def nodeToObject_def orEmpty_def orNull_def)

lemma notes_not_image: "\<not> isImageKey ''notes.txt''"
  by (simp add: isImageKey_def endsWith_def toLowerASCII_def)

text \<open>
  C7, as stated: a listing that succeeds and has no qualifying image (none with an image
  extension) fails with the error of the empty result. The source tests
  \<^verbatim>\<open>objectList.length === 0\<close> before it filters by extension, and its message is
  \<^verbatim>\<open>No objects found in the bucket.\<close>: the store of \<open>notesEnv\<close> lists one text file, no
  object qualifies, and \<^verbatim>\<open>fetchObjects\<close> commits an empty gallery and sets no error.
\<close>

theorem C7_text_only_counterexample:
  "listObjects 1 notesEnv [] None =
     Some (Inr [\<lparr>key = ''notes.txt'', lastModified = ''2025-04-18T09:30:00.000Z''\<rparr>]) \<and>
   \<not> isImageKey (key \<lparr>key = ''notes.txt'', lastModified = ''2025-04-18T09:30:00.000Z''\<rparr>) \<and>
   listAll 1 notesEnv = Some (Inr ([], [])) \<and>
   map_option error (fetchObjects 1 notesEnv (initialState notesEnv)) = Some None"
proof -
  have "listAll 1 notesEnv = Some (Inr ([], []))"
    by (simp add: listAll_def notesEnv_listing notes_not_image imageObjects_def sortBy_def
        distinctInOrder_def del: One_nat_def)
  then show ?thesis
    by (simp add: notesEnv_listing notes_not_image fetchObjects_def initialState_def
        del: One_nat_def)
qed

text \<open>
  C7, amended: a listing that succeeds fails with the error of the empty result exactly
  when it has no object at all, of any extension; the message
  \<^verbatim>\<open>No objects found in the bucket.\<close> is then set as the error the user sees. A listing
  with at least one object never raises that error; when none of its objects has an
  image extension, an empty gallery is committed and no error is set.
\<close>

theorem C7_empty_listing:
  assumes "listObjects fuel env [] None = Some (Inr objectList)"
  shows "(objectList = [] \<longrightarrow>
            listAll fuel env = Some (Inl NoObjectsFound) \<and>
            fetchObjects fuel env s =
              Some (s\<lparr>error := Some ''No objects found in the bucket.'', loading := False\<rparr>)) \<and>
         (objectList \<noteq> [] \<longrightarrow>
            (\<forall>e. listAll fuel env = Some (Inl e) \<longrightarrow> \<not> isEmptyResultError e)) \<and>
         (objectList \<noteq> [] \<and> filter (\<lambda>obj. isImageKey (key obj)) objectList = [] \<longrightarrow>
            fetchObjects fuel env s =
              Some (s\<lparr>objects := [], uniqueDates := [], loading := False\<rparr>))"
proof (intro conjI impI allI)
  assume "objectList = []"
  with assms show "listAll fuel env = Some (Inl NoObjectsFound)"
    by (simp add: listAll_def)
  then show "fetchObjects fuel env s =
      Some (s\<lparr>error := Some ''No objects found in the bucket.'', loading := False\<rparr>)"
    by (simp add: fetchObjects_def empty_error_message)
next
  fix e
  assume "objectList \<noteq> []" and "listAll fuel env = Some (Inl e)"
  with assms have "dayStamps env (imageObjects env objectList) = Inl e"
    by (simp add: listAll_def Let_def split: sum.splits)
  then have "e = InvalidTimeValue"
    by (rule dayStamps_error)
  then show "\<not> isEmptyResultError e"
    by simp
next
  assume "objectList \<noteq> [] \<and> filter (\<lambda>obj. isImageKey (key obj)) objectList = []"
  with assms have "listAll fuel env = Some (Inr ([], []))"
    by (simp add: listAll_def imageObjects_def sortBy_def distinctInOrder_def)
  then show "fetchObjects fuel env s = Some (s\<lparr>objects := [], uniqueDates := [], loading := False\<rparr>)"
    by (simp add: fetchObjects_def)
qed

theorem C7_empty_listing_witness:
  "listObjects 1 notesEnv [] None =
     Some (Inr [\<lparr>key = ''notes.txt'', lastModified = ''2025-04-18T09:30:00.000Z''\<rparr>]) \<and>
   fetchObjects 1 notesEnv (initialState notesEnv) =
     Some ((initialState notesEnv)\<lparr>objects := [], uniqueDates := [], loading := False\<rparr>)"
  using C7_empty_listing[OF notesEnv_listing, of "initialState notesEnv"]
  by (simp add: notesEnv_listing notes_not_image del: One_nat_def)

section \<open>Claim C5: a probe that fails\<close>

text \<open>
  A task writes the cache at the key of its own object only, and reads it there only.
\<close>

lemma probe_cache_other:
  "k \<noteq> key obj \<Longrightarrow> fst (snd (probe env cache obj)) k = cache k"
  by (simp add: probe_def Let_def split: option.splits fetched.splits)

lemma probe_depends_on_own_key:
  "cache' (key obj) = cache (key obj) \<Longrightarrow>
   fst (probe env cache' obj) = fst (probe env cache obj) \<and>
   snd (snd (probe env cache' obj)) = snd (snd (probe env cache obj))"
  by (simp add: probe_def Let_def split: option.splits fetched.splits)

lemma fetchMetadata_Cons:
  "fst (fetchMetadata env cache (obj # objs)) =
     (case enrich env cache obj of
        None \<Rightarrow> fst (fetchMetadata env (fst (snd (probe env cache obj))) objs)
      | Some img \<Rightarrow> img # fst (fetchMetadata env (fst (snd (probe env cache obj))) objs))"
  "snd (snd (fetchMetadata env cache (obj # objs))) =
     warned env cache obj @ snd (snd (fetchMetadata env (fst (snd (probe env cache obj))) objs))"
  by (cases "probe env cache obj"; cases "fetchMetadata env (fst (snd (probe env cache obj))) objs";
      simp add: enrich_def warned_def split: option.splits)+

text \<open>
  So, for a batch of objects with distinct keys, the tasks do not see one another: the
  result is what each task yields against the cache as it was before the batch, in the
  order of the batch, whatever the order in which the tasks run.
\<close>

lemma fetchMetadata_independent:
  "distinct (map key batch) \<Longrightarrow>
   fst (fetchMetadata env cache batch) = List.map_filter (enrich env cache) batch \<and>
   snd (snd (fetchMetadata env cache batch)) = concat (map (warned env cache) batch)"
proof (induction batch arbitrary: cache)
  case Nil
  show ?case
    by simp
next
  case (Cons obj objs)
  let ?c = "fst (snd (probe env cache obj))"
  have same: "?c (key o') = cache (key o')" if "o' \<in> set objs" for o'
  proof (rule probe_cache_other)
    have "key o' \<in> key ` set objs"
      using that by (rule imageI)
    moreover have "key obj \<notin> key ` set objs"
      using Cons.prems by simp
    ultimately show "key o' \<noteq> key obj"
      by metis
  qed
  have e: "enrich env ?c o' = enrich env cache o'"
    and w: "warned env ?c o' = warned env cache o'" if "o' \<in> set objs" for o'
    using probe_depends_on_own_key[where cache' = ?c and cache = cache and obj = o' and env = env]
      same[OF that]
    by (simp_all add: enrich_def warned_def)
  have "List.map_filter (enrich env ?c) objs = List.map_filter (enrich env cache) objs"
    unfolding List.map_filter_def using e by (auto intro!: map_cong filter_cong)
  moreover have "concat (map (warned env ?c) objs) = concat (map (warned env cache) objs)"
    using w by (auto intro!: arg_cong[where f = concat])
  moreover have "distinct (map key objs)"
    using Cons.prems by simp
  ultimately show ?case
    using Cons.IH[of ?c]
    by (simp add: fetchMetadata_Cons del: fetchMetadata.simps split: option.splits)
qed

lemma enrich_failed_probe:
  "cache (key obj) = None \<Longrightarrow> probeFails env (key obj) \<Longrightarrow>
   enrich env cache obj = None \<and> length (warned env cache obj) = 1"
  by (simp add: enrich_def warned_def probe_def probeFails_def split: fetched.splits)

lemma candidates_eq:
  "candidates = map (\<lambda>k. \<lparr>key = k, lastModified = ''2025-04-18T10:00:00.000Z''\<rparr>)
     [''photo-0.jpg'', ''photo-1.jpg'', ''photo-2.jpg'', ''photo-3.jpg'', ''photo-4.jpg'',
      ''photo-5.jpg'', ''photo-6.jpg'', ''photo-7.jpg'', ''photo-8.jpg'', ''photo-9.jpg'']"
  by (simp add: candidates_def albumPhoto_def decimal.simps upt_rec)

text \<open>
  C5: in a batch (of objects with distinct keys, as the keys of a listing are), an
  object that is not cached and whose probe fails, by a rejected request or by a
  status that is not ok, yields no image and one warning on the console; every other
  object is processed as if it were alone, and its image is kept when its own task
  yields one. \<^verbatim>\<open>fetchMetadata\<close> is a total function: the batch never aborts. The
  result has as many images as the batch has objects, less those whose own task yields
  none.
\<close>

theorem C5_failed_probe_dropped:
  assumes "distinct (map key batch)"
  shows "fst (fetchMetadata env cache batch) = List.map_filter (enrich env cache) batch \<and>
     snd (snd (fetchMetadata env cache batch)) = concat (map (warned env cache) batch) \<and>
     (\<forall>obj \<in> set batch. cache (key obj) = None \<and> probeFails env (key obj) \<longrightarrow>
        enrich env cache obj = None \<and> length (warned env cache obj) = 1) \<and>
     length (fst (fetchMetadata env cache batch)) =
       length batch - length (filter (\<lambda>obj. enrich env cache obj = None) batch)"
proof -
  note ind = fetchMetadata_independent[OF assms, of env cache]
  have "length (List.map_filter (enrich env cache) batch) =
      length batch - length (filter (\<lambda>obj. enrich env cache obj = None) batch)"
    using sum_length_filter_compl[of "\<lambda>obj. enrich env cache obj = None" batch]
    by (simp add: List.map_filter_def)
  with ind show ?thesis
    by (simp add: enrich_failed_probe)
qed

text \<open>
  The scenario of C5: ten candidates, two rejected requests, eight images, two
  warnings.
\<close>

theorem C5_failed_probe_dropped_witness:
  "distinct (map key candidates) \<and> length candidates = 10 \<and>
   filter (\<lambda>k. probeFails flakyEnv k) (map key candidates) = [''photo-3.jpg'', ''photo-7.jpg''] \<and>
   map key (fst (fetchMetadata flakyEnv Map.empty candidates)) =
     [''photo-0.jpg'', ''photo-1.jpg'', ''photo-2.jpg'', ''photo-4.jpg'', ''photo-5.jpg'',
      ''photo-6.jpg'', ''photo-8.jpg'', ''photo-9.jpg''] \<and>
   snd (snd (fetchMetadata flakyEnv Map.empty candidates)) =
     [''Error fetching metadata for photo-3.jpg:'', ''Error fetching metadata for photo-7.jpg:'']"
proof -
  have d: "distinct (map key candidates)"
    by (simp add: candidates_eq)
  have heads: "fetchHead flakyEnv k =
      (if k = ''photo-3.jpg'' \<or> k = ''photo-7.jpg'' then FetchRejected ''Failed to fetch''
       else Fetched \<lparr>headOk = True, contentLength = Some ''204800'',
                     contentTypeHeader = Some ''image/jpeg''\<rparr>)" for k
    by (simp add: flakyEnv_def)
  have f: "filter (\<lambda>k. probeFails flakyEnv k) (map key candidates) = [''photo-3.jpg'', ''photo-7.jpg'']"
    by (simp add: candidates_eq probeFails_def heads)
  have en: "enrich flakyEnv Map.empty \<lparr>key = k, lastModified = lm\<rparr> =
      (if k = ''photo-3.jpg'' \<or> k = ''photo-7.jpg'' then None
       else Some \<lparr>key = k, lastModified = lm, sizeBytes = Some 204800, contentType = ''image/jpeg''\<rparr>)"
    and wa: "warned flakyEnv Map.empty \<lparr>key = k, lastModified = lm\<rparr> =
      (if k = ''photo-3.jpg'' \<or> k = ''photo-7.jpg''
       then [''Error fetching metadata for '' @ k @ '':''] else [])" for k lm
    by (simp_all add: enrich_def warned_def probe_def heads headSize_def orDefault_def
        parseInt_samples lessNumber_def minFileSize_def Let_def)
  have m: "map key (List.map_filter (enrich flakyEnv Map.empty) candidates) =
     [''photo-0.jpg'', ''photo-1.jpg'', ''photo-2.jpg'', ''photo-4.jpg'', ''photo-5.jpg'',
      ''photo-6.jpg'', ''photo-8.jpg'', ''photo-9.jpg'']"
    by (simp add: candidates_eq en)
  have w: "concat (map (warned flakyEnv Map.empty) candidates) =
     [''Error fetching metadata for photo-3.jpg:'', ''Error fetching metadata for photo-7.jpg:'']"
    by (simp add: candidates_eq wa)
  have l: "length candidates = 10"
    by (simp add: candidates_def)
  note inst = C5_failed_probe_dropped[OF d, of flakyEnv Map.empty]
  have "fst (fetchMetadata flakyEnv Map.empty candidates) =
      List.map_filter (enrich flakyEnv Map.empty) candidates"
    using inst by (rule conjunct1)
  moreover have "snd (snd (fetchMetadata flakyEnv Map.empty candidates)) =
      concat (map (warned flakyEnv Map.empty) candidates)"
    using inst by (elim conjE)
  ultimately show ?thesis
    using d f l by (simp only: m w simp_thms)
qed

section \<open>Claim C4: the floor on the size\<close>

lemma fetchMetadata_Cons_cache:
  "fst (snd (fetchMetadata env cache (obj # objs))) =
     fst (snd (fetchMetadata env (fst (snd (probe env cache obj))) objs))"
  by (cases "probe env cache obj"; cases "fetchMetadata env (fst (snd (probe env cache obj))) objs")
    simp

text \<open>
  A property of images that holds of every cached image, and of every image that can
  be built from an object of the batch with a size that the test of the floor lets
  through, holds of every image \<^verbatim>\<open>fetchMetadata\<close> returns and of every image it leaves
  in the cache.
\<close>

lemma probe_all:
  assumes "\<forall>k i. cache k = Some i \<longrightarrow> Q i"
    and "\<forall>sz ct. \<not> lessNumber sz minFileSize \<longrightarrow>
           Q \<lparr>key = key obj, lastModified = lastModified obj, sizeBytes = sz, contentType = ct\<rparr>"
  shows "(\<forall>i. enrich env cache obj = Some i \<longrightarrow> Q i) \<and>
         (\<forall>k i. fst (snd (probe env cache obj)) k = Some i \<longrightarrow> Q i)"
  using assms
  by (auto simp: enrich_def probe_def Let_def split: option.splits fetched.splits if_splits)

lemma fetchMetadata_all:
  assumes "\<forall>k i. cache k = Some i \<longrightarrow> Q i"
    and "\<forall>obj \<in> set batch. \<forall>sz ct. \<not> lessNumber sz minFileSize \<longrightarrow>
           Q \<lparr>key = key obj, lastModified = lastModified obj, sizeBytes = sz, contentType = ct\<rparr>"
  shows "(\<forall>i \<in> set (fst (fetchMetadata env cache batch)). Q i) \<and>
         (\<forall>k i. fst (snd (fetchMetadata env cache batch)) k = Some i \<longrightarrow> Q i)"
  using assms
proof (induction batch arbitrary: cache)
  case Nil
  then show ?case
    by simp
next
  case (Cons obj objs)
  let ?c = "fst (snd (probe env cache obj))"
  have fresh: "\<forall>sz ct. \<not> lessNumber sz minFileSize \<longrightarrow>
      Q \<lparr>key = key obj, lastModified = lastModified obj, sizeBytes = sz, contentType = ct\<rparr>"
    using Cons.prems(2) by simp
  note p = probe_all[of cache Q obj env, OF Cons.prems(1) fresh]
  have rest: "\<forall>obj \<in> set objs. \<forall>sz ct. \<not> lessNumber sz minFileSize \<longrightarrow>
      Q \<lparr>key = key obj, lastModified = lastModified obj, sizeBytes = sz, contentType = ct\<rparr>"
    using Cons.prems(2) by simp
  from p have "\<forall>k i. ?c k = Some i \<longrightarrow> Q i"
    by (rule conjunct2)
  from Cons.IH[OF this rest] p show ?case
    by (simp add: fetchMetadata_Cons fetchMetadata_Cons_cache del: fetchMetadata.simps
        split: option.splits)
qed

lemma fetchMetadata_noneBelowFloor:
  assumes "\<forall>k i. cache k = Some i \<longrightarrow> \<not> belowFloor i"
  shows "(\<forall>i \<in> set (fst (fetchMetadata env cache batch)). \<not> belowFloor i) \<and>
         (\<forall>k i. fst (snd (fetchMetadata env cache batch)) k = Some i \<longrightarrow> \<not> belowFloor i)"
  by (rule fetchMetadata_all[OF assms]) (simp add: belowFloor_def)

lemma noneBelowFloor_fetchInitialImages:
  assumes "\<forall>k i. metadataCache s k = Some i \<longrightarrow> \<not> belowFloor i"
  shows "noneBelowFloor (fetchInitialImages env s)"
  using fetchMetadata_noneBelowFloor[OF assms, of env "slice 0 batchSize (objectsToDisplay env s)"]
  by (simp add: noneBelowFloor_def fetchInitialImages_def Let_def split: prod.splits)

lemma noneBelowFloor_selectedDateEffect:
  "noneBelowFloor (selectedDateEffect env s)"
proof (cases "0 < length (objects (resetDisplay s))")
  case True
  have "noneBelowFloor (fetchInitialImages env (resetDisplay s))"
    by (rule noneBelowFloor_fetchInitialImages) (simp add: resetDisplay_def)
  with True show ?thesis
    by (simp add: selectedDateEffect_def)
next
  case False
  then show ?thesis
    by (simp add: selectedDateEffect_def noneBelowFloor_def resetDisplay_def)
qed

lemma noneBelowFloor_loadMoreImages:
  assumes "noneBelowFloor s"
  shows "noneBelowFloor (loadMoreImages env s)"
proof -
  from assms have c: "\<forall>k i. metadataCache s k = Some i \<longrightarrow> \<not> belowFloor i"
    by (simp add: noneBelowFloor_def)
  from fetchMetadata_noneBelowFloor[OF c, of env
      "slice (page s * batchSize) ((page s + 1) * batchSize) (objectsToDisplay env s)"] assms
  show ?thesis
    by (auto simp: noneBelowFloor_def loadMoreImages_def Let_def split: prod.splits)
qed

lemma noneBelowFloor_react:
  assumes "noneBelowFloor s"
  shows "noneBelowFloor (react env ev s)"
  using assms
  by (cases ev)
    (simp_all add: setSelectedDate_def handlePreviousDate_def handleNextDate_def handleClear_def
      noneBelowFloor_selectedDateEffect noneBelowFloor_loadMoreImages
      split: option.splits)

lemma noneBelowFloor_run:
  "noneBelowFloor s \<Longrightarrow> noneBelowFloor (run env s evs)"
  by (induction evs arbitrary: s) (auto simp: noneBelowFloor_react)

lemma noneBelowFloor_mount:
  assumes "mount fuel env = Some s0"
  shows "noneBelowFloor s0"
proof -
  have "noneBelowFloor (selectedDateEffect env (initialState env))"
    by (rule noneBelowFloor_selectedDateEffect)
  then have "fetchObjects fuel env (selectedDateEffect env (initialState env)) = Some s \<Longrightarrow>
      noneBelowFloor s" for s
    by (auto simp: fetchObjects_def noneBelowFloor_def split: option.splits sum.splits)
  with assms show ?thesis
    by (auto simp: mount_def noneBelowFloor_selectedDateEffect
        split: option.splits sum.splits)
qed

lemma enrich_small:
  "cache (key obj) = None \<Longrightarrow> fetchHead env (key obj) = Fetched h \<Longrightarrow> headOk h \<Longrightarrow>
   lessNumber (headSize h) minFileSize \<Longrightarrow> enrich env cache obj = None"
  by (simp add: enrich_def probe_def)

lemma belowFloor_cases:
  "(\<not> belowFloor img) = (sizeBytes img = None \<or> aboveFloor img)"
  by (auto simp: belowFloor_def aboveFloor_def lessNumber_def split: option.splits)

text \<open>
  What the source keeps of the floor: at every moment of a session, after the gallery
  is mounted and after any sequence of events, every image retained in \<open>images\<close>, shown
  in \<open>displayedImages\<close> or served from the cache has a size that is at least 10240 or
  is NaN; and an object that is not cached and whose probe answers with a size that
  reads as a number under 10240 yields no image.
\<close>

lemma size_floor_or_NaN:
  assumes "mount fuel env = Some s0"
  shows "(\<forall>img \<in> set (images (run env s0 evs)). sizeBytes img = None \<or> aboveFloor img) \<and>
     (\<forall>img \<in> set (displayedImages (run env s0 evs)). sizeBytes img = None \<or> aboveFloor img) \<and>
     (\<forall>k img. metadataCache (run env s0 evs) k = Some img \<longrightarrow>
        sizeBytes img = None \<or> aboveFloor img) \<and>
     (\<forall>cache obj h n.
        cache (key obj) = None \<and> fetchHead env (key obj) = Fetched h \<and> headOk h \<and>
        headSize h = Some n \<and> n < 10240 \<longrightarrow>
        enrich env cache obj = None)"
proof -
  have "noneBelowFloor (run env s0 evs)"
    by (rule noneBelowFloor_run) (rule noneBelowFloor_mount[OF assms])
  then show ?thesis
    using enrich_small[of _ _ env]
    by (simp add: noneBelowFloor_def belowFloor_cases lessNumber_def minFileSize_def)
qed

text \<open>
  C4: every image ever retained has a size of at least 10240 bytes. The source reads
  the size with \<^verbatim>\<open>parseInt\<close> and drops the record when \<^verbatim>\<open>size < minFileSize\<close>. When the
  header \<^verbatim>\<open>Content-Length\<close> of a successful answer does not start with a number,
  \<^verbatim>\<open>parseInt\<close> yields NaN, the comparison is false, and the record is kept and cached
  with the size NaN, which is not at least 10240. On the sample bucket, mounted, with
  the store answering so from then on: Clear loads the three objects of the day, the
  thumbnail of 512 bytes and the object whose probe used to fail among them, and
  retains an image for each, none with a size of at least 10240.
\<close>

theorem C4_unreadable_length:
  "mount 2 sampleEnv = Some mounted \<and>
   garbledHeads ''sunrise.jpg'' =
     Fetched \<lparr>headOk = True, contentLength = Some ''unknown'',
              contentTypeHeader = Some ''image/jpeg''\<rparr> \<and>
   headSize \<lparr>headOk = True, contentLength = Some ''unknown'',
             contentTypeHeader = Some ''image/jpeg''\<rparr> = None \<and>
   map key (images (run sampleEnv mounted [(garbledHeads, 1744992000000, Clear)])) =
     [''sunrise.jpg'', ''thumb.gif'', ''broken.webp''] \<and>
   map sizeBytes (images (run sampleEnv mounted [(garbledHeads, 1744992000000, Clear)])) =
     [None, None, None] \<and>
   map aboveFloor (images (run sampleEnv mounted [(garbledHeads, 1744992000000, Clear)])) =
     [False, False, False] \<and>
   displayedImages (run sampleEnv mounted [(garbledHeads, 1744992000000, Clear)]) =
     images (run sampleEnv mounted [(garbledHeads, 1744992000000, Clear)]) \<and>
   map_option sizeBytes
     (metadataCache (run sampleEnv mounted [(garbledHeads, 1744992000000, Clear)])
        ''thumb.gif'') = Some None"
proof -
  let ?env = "sampleEnv\<lparr>fetchHead := garbledHeads, now := 1744992000000\<rparr>"
  let ?s = "mounted\<lparr>selectedDate := Some (Date 1744992000000)\<rparr>"
  have size: "headSize \<lparr>headOk = True, contentLength = Some ''unknown'',
      contentTypeHeader = Some ''image/jpeg''\<rparr> = None"
    by (simp add: headSize_def orDefault_def parseInt_samples)
  have today: "objectsToDisplay ?env (resetDisplay ?s) =
      [\<lparr>key = ''sunrise.jpg'', lastModified = ''2025-04-18T10:00:00.000Z''\<rparr>,
       \<lparr>key = ''thumb.gif'', lastModified = ''2025-04-18T10:00:00.000Z''\<rparr>,
       \<lparr>key = ''broken.webp'', lastModified = ''2025-04-18T09:30:00.000Z''\<rparr>]"
    using sample_today[of "\<lparr>key = k, lastModified = l\<rparr>" for k l]
    by (simp only: sameCalendar_objectsToDisplay[OF sameCalendar_step])
      (simp add: objectsToDisplay_def resetDisplay_def mounted_def)
  have probe: "probe ?env c \<lparr>key = k, lastModified = l\<rparr> =
      (case c k of
         Some cached \<Rightarrow> (Some cached, c, [])
       | None \<Rightarrow>
           (Some \<lparr>key = k, lastModified = l, sizeBytes = None, contentType = ''image/jpeg''\<rparr>,
            c(k \<mapsto> \<lparr>key = k, lastModified = l, sizeBytes = None, contentType = ''image/jpeg''\<rparr>),
            []))" for c k l
    by (simp add: probe_def garbledHeads_def size lessNumber_def orDefault_def Let_def
        split: option.splits)
  have "run sampleEnv mounted [(garbledHeads, 1744992000000, Clear)] =
      fetchInitialImages ?env (resetDisplay ?s)"
    by (simp add: handleClear_def setSelectedDate_def selectedDateEffect_def resetDisplay_def
        mounted_def)
  also have "\<dots> = (resetDisplay ?s)
      \<lparr>images :=
         [\<lparr>key = ''sunrise.jpg'', lastModified = ''2025-04-18T10:00:00.000Z'',
           sizeBytes = None, contentType = ''image/jpeg''\<rparr>,
          \<lparr>key = ''thumb.gif'', lastModified = ''2025-04-18T10:00:00.000Z'',
           sizeBytes = None, contentType = ''image/jpeg''\<rparr>,
          \<lparr>key = ''broken.webp'', lastModified = ''2025-04-18T09:30:00.000Z'',
           sizeBytes = None, contentType = ''image/jpeg''\<rparr>],
       displayedImages :=
         [\<lparr>key = ''sunrise.jpg'', lastModified = ''2025-04-18T10:00:00.000Z'',
           sizeBytes = None, contentType = ''image/jpeg''\<rparr>,
          \<lparr>key = ''thumb.gif'', lastModified = ''2025-04-18T10:00:00.000Z'',
           sizeBytes = None, contentType = ''image/jpeg''\<rparr>,
          \<lparr>key = ''broken.webp'', lastModified = ''2025-04-18T09:30:00.000Z'',
           sizeBytes = None, contentType = ''image/jpeg''\<rparr>],
       hasMore := False, loading := False,
       metadataCache :=
         [''sunrise.jpg'' \<mapsto>
            \<lparr>key = ''sunrise.jpg'', lastModified = ''2025-04-18T10:00:00.000Z'',
             sizeBytes = None, contentType = ''image/jpeg''\<rparr>,
          ''thumb.gif'' \<mapsto>
            \<lparr>key = ''thumb.gif'', lastModified = ''2025-04-18T10:00:00.000Z'',
             sizeBytes = None, contentType = ''image/jpeg''\<rparr>,
          ''broken.webp'' \<mapsto>
            \<lparr>key = ''broken.webp'', lastModified = ''2025-04-18T09:30:00.000Z'',
             sizeBytes = None, contentType = ''image/jpeg''\<rparr>]\<rparr>"
    by (simp add: fetchInitialImages_def today slice_def batchSize_def probe)
      (simp add: resetDisplay_def mounted_def)
  finally show ?thesis
    by (simp add: sample_mount size garbledHeads_def aboveFloor_def)
qed

section \<open>Claim C10: today by default\<close>

lemma onSelectedDay_fields:
  "lastModified a = lastModified b \<Longrightarrow> onSelectedDay env d a = onSelectedDay env d b"
  by (simp add: onSelectedDay_def)

lemma set_slice: "set (slice a b xs) \<subseteq> set xs"
  by (auto simp: slice_def dest: in_set_takeD in_set_dropD)

text \<open>
  After the date effect every displayed image passes the test of the date filter for
  the selected date: the cache was emptied, so each image was built from an object of
  the first page of the filtered objects.
\<close>

lemma displayed_on_selected_day:
  assumes "selectedDate s = Some d"
  shows "\<forall>img \<in> set (displayedImages (selectedDateEffect env s)). onSelectedDay env d img"
proof (cases "0 < length (objects s)")
  case False
  then show ?thesis
    by (simp add: selectedDateEffect_def resetDisplay_def)
next
  case True
  let ?r = "resetDisplay s"
  let ?batch = "slice 0 batchSize (objectsToDisplay env ?r)"
  have "set ?batch \<subseteq> set (filter (onSelectedDay env d) (objects s))"
    using set_slice[of 0 batchSize "objectsToDisplay env ?r"] assms
    by (simp add: objectsToDisplay_def resetDisplay_def)
  then have fresh: "\<forall>obj \<in> set ?batch. \<forall>sz ct. \<not> lessNumber sz minFileSize \<longrightarrow>
      onSelectedDay env d
        \<lparr>key = key obj, lastModified = lastModified obj, sizeBytes = sz, contentType = ct\<rparr>"
    by (auto simp: onSelectedDay_def)
  have "\<forall>k i. metadataCache ?r k = Some i \<longrightarrow> onSelectedDay env d i"
    by (simp add: resetDisplay_def)
  from fetchMetadata_all[of "metadataCache ?r" "onSelectedDay env d" ?batch env, OF this fresh]
  have "\<forall>img \<in> set (displayedImages (fetchInitialImages env ?r)). onSelectedDay env d img"
    by (simp add: fetchInitialImages_def Let_def split: prod.splits)
  with True show ?thesis
    by (simp add: selectedDateEffect_def resetDisplay_def)
qed

lemma selectedDate_setSelectedDate:
  "selectedDate (setSelectedDate env d s) = d"
  by (simp add: setSelectedDate_def selectedDateEffect_frame)

lemma selectedDate_react:
  assumes "selectedDate s \<noteq> None" and "selectedDate (react env ev s) = None"
  shows "ev = DatePickerChange None"
  using assms
  by (cases ev)
    (auto simp: selectedDate_setSelectedDate handlePreviousDate_def handleNextDate_def
      handleClear_def loadMoreImages_frame split: option.splits if_splits)

lemma selectedDate_run:
  "selectedDate s \<noteq> None \<Longrightarrow> selectedDate (run env s evs) = None \<Longrightarrow>
   DatePickerChange None \<in> set (map (\<lambda>e. snd (snd e)) evs)"
proof (induction evs arbitrary: s)
  case Nil
  then show ?case
    by simp
next
  case (Cons e evs)
  obtain h c ev where e: "e = (h, c, ev)"
    by (cases e)
  let ?s = "react (env\<lparr>fetchHead := h, now := c\<rparr>) ev s"
  show ?case
  proof (cases "selectedDate ?s = None")
    case True
    from selectedDate_react[OF Cons.prems(1) True] e show ?thesis
      by simp
  next
    case False
    from Cons.IH[OF False] Cons.prems(2) e show ?thesis
      by simp
  qed
qed

lemma mount_selectedDate:
  assumes "mount fuel env = Some s0"
  shows "selectedDate s0 = Some (Date (now env)) \<and>
         (\<forall>img \<in> set (displayedImages s0). onSelectedDay env (Date (now env)) img)"
proof -
  let ?i = "selectedDateEffect env (initialState env)"
  have i: "selectedDate ?i = Some (Date (now env))" "displayedImages ?i = []"
    by (simp_all add: selectedDateEffect_def resetDisplay_def initialState_def)
  obtain s1 where s1: "fetchObjects fuel env ?i = Some s1"
    using assms by (auto simp: mount_def split: option.splits)
  then have f: "selectedDate s1 = Some (Date (now env))" "displayedImages s1 = []"
    using i by (auto simp: fetchObjects_def split: option.splits sum.splits)
  from assms s1 have "s0 = s1 \<or> s0 = selectedDateEffect env s1"
    by (auto simp: mount_def split: option.splits sum.splits)
  then show ?thesis
    using f displayed_on_selected_day[OF f(1), of env]
    by (auto simp: selectedDateEffect_frame)
qed

text \<open>
  C10: the selected date starts as the current day (\<^verbatim>\<open>useState(new Date())\<close>), not as
  all dates, and once the gallery is mounted every displayed image passes the test of
  the date filter for the current day; the Clear button selects the current day again,
  and shows only images of that day; and no event but the date picker handing over
  \<^verbatim>\<open>null\<close> makes the selected date \<^verbatim>\<open>null\<close>, in one step or over a whole session.
\<close>

theorem C10_today_by_default:
  "selectedDate (initialState env) = Some (Date (now env)) \<and>
   (\<forall>s0. mount fuel env = Some s0 \<longrightarrow>
      selectedDate s0 = Some (Date (now env)) \<and>
      (\<forall>img \<in> set (displayedImages s0). onSelectedDay env (Date (now env)) img)) \<and>
   selectedDate (handleClear env s) = Some (Date (now env)) \<and>
   (\<forall>img \<in> set (displayedImages (handleClear env s)). onSelectedDay env (Date (now env)) img) \<and>
   (selectedDate s \<noteq> None \<and> selectedDate (react env ev s) = None \<longrightarrow>
      ev = DatePickerChange None) \<and>
   (\<forall>s0. mount fuel env = Some s0 \<and> selectedDate (run env s0 evs) = None \<longrightarrow>
      DatePickerChange None \<in> set (map (\<lambda>e. snd (snd e)) evs))"
proof (intro conjI allI impI)
  show "selectedDate (initialState env) = Some (Date (now env))"
    by (simp add: initialState_def)
  show "selectedDate (handleClear env s) = Some (Date (now env))"
    by (simp add: handleClear_def selectedDate_setSelectedDate)
  have "handleClear env s = selectedDateEffect env (s\<lparr>selectedDate := Some (Date (now env))\<rparr>)"
    by (simp add: handleClear_def setSelectedDate_def)
  then show "\<forall>img \<in> set (displayedImages (handleClear env s)). onSelectedDay env (Date (now env)) img"
    using displayed_on_selected_day[of "s\<lparr>selectedDate := Some (Date (now env))\<rparr>" "Date (now env)" env]
    by simp
next
  fix s0
  assume "mount fuel env = Some s0"
  from mount_selectedDate[OF this]
  show "selectedDate s0 = Some (Date (now env))"
    and "\<forall>img \<in> set (displayedImages s0). onSelectedDay env (Date (now env)) img"
    by simp_all
next
  assume "selectedDate s \<noteq> None \<and> selectedDate (react env ev s) = None"
  then show "ev = DatePickerChange None"
    using selectedDate_react by blast
next
  fix s0
  assume a: "mount fuel env = Some s0 \<and> selectedDate (run env s0 evs) = None"
  then have "selectedDate s0 \<noteq> None"
    using mount_selectedDate by auto
  with a show "DatePickerChange None \<in> set (map (\<lambda>e. snd (snd e)) evs)"
    using selectedDate_run by blast
qed

text \<open>
  The sample bucket: mounted, it shows the one image of 2025-04-18 that can be kept;
  Previous selects the day before, Clear selects 2025-04-18 again, and the date picker
  can select all dates.
\<close>

theorem C10_today_by_default_witness:
  "mount 2 sampleEnv = Some mounted \<and>
   selectedDate mounted = Some (Date (now sampleEnv)) \<and>
   map key (displayedImages mounted) = [''sunrise.jpg''] \<and>
   list_all (onSelectedDay sampleEnv (Date (now sampleEnv))) (displayedImages mounted) \<and>
   selectedDate (react sampleEnv PreviousDate mounted) = Some (Date 1744905600000) \<and>
   selectedDate (react sampleEnv (DatePickerChange None) mounted) = None \<and>
   selectedDate (handleClear sampleEnv (react sampleEnv PreviousDate mounted)) =
     Some (Date 1744992000000)"
proof -
  note inst = C10_today_by_default[of sampleEnv 2 "react sampleEnv PreviousDate mounted"
      "DatePickerChange None" "[]"]
  from inst sample_mount
  have "selectedDate mounted = Some (Date (now sampleEnv))"
    and "\<forall>img \<in> set (displayedImages mounted). onSelectedDay sampleEnv (Date (now sampleEnv)) img"
    and "selectedDate (handleClear sampleEnv (react sampleEnv PreviousDate mounted)) =
       Some (Date (now sampleEnv))"
    by blast+
  moreover have "map key (displayedImages mounted) = [''sunrise.jpg'']"
    by (simp add: mounted_def)
  moreover have "selectedDate (react sampleEnv (DatePickerChange None) mounted) = None"
    by (simp add: selectedDate_setSelectedDate)
  moreover have "selectedDate (react sampleEnv PreviousDate mounted) = Some (Date 1744905600000)"
    by (simp add: sample_previous del: react.simps)
  ultimately show ?thesis
    using sample_mount by (simp add: list_all_iff sampleEnv_sel del: react.simps)
qed

section \<open>Handlers that overlap, and handlers that do not\<close>

text \<open>
  A handler taken from its call to its end is the handler stopped at its \<^verbatim>\<open>await\<close> and
  resumed at once; a session in which every suspended function is resumed before the
  next event is a session of \<open>react\<close>.
\<close>

lemma fetchInitialImages_settled:
  "fetchInitialImages env s =
     resume env (snd (fetchInitialImagesBegin env s)) (fst (fetchInitialImagesBegin env s))"
  by (simp add: fetchInitialImages_def fetchInitialImagesBegin_def Let_def split: prod.splits)

lemma loadMoreImages_settled:
  "loadMoreImages env s = settled env (loadMoreImagesBegin env s)"
  by (simp add: loadMoreImages_def loadMoreImagesBegin_def settled_def Let_def split: prod.splits)

lemma selectedDateEffect_settled:
  "selectedDateEffect env s = settled env (selectedDateEffectBegin env s)"
  by (simp add: selectedDateEffect_def selectedDateEffectBegin_def settled_def Let_def
      fetchInitialImages_settled)

lemma setSelectedDate_settled:
  "setSelectedDate env d s = settled env (setSelectedDateBegin env d s)"
  by (simp add: setSelectedDate_def setSelectedDateBegin_def selectedDateEffect_settled)
    (simp add: settled_def)

lemma react_settled:
  "react env ev s = settled env (reactBegin env ev s)"
  by (cases ev)
    (simp_all add: handlePreviousDate_def handlePreviousDateBegin_def handleNextDate_def
      handleNextDateBegin_def handleClear_def handleClearBegin_def setSelectedDate_settled
      loadMoreImages_settled split: option.splits, simp_all add: settled_def)

lemma perform_sequential:
  "suspended session = [] \<Longrightarrow>
   perform env (Settle 0) (perform env (UserEvent ev) session) =
     \<lparr>app = react env ev (app session), suspended = []\<rparr>"
  by (cases "snd (reactBegin env ev (app session))")
    (simp_all add: react_settled settled_def del: reactBegin.simps)

lemma play_sequential:
  "play env \<lparr>app = s, suspended = []\<rparr> (concat (map (\<lambda>ev. [UserEvent ev, Settle 0]) evs)) =
     \<lparr>app = fold (react env) evs s, suspended = []\<rparr>"
proof (induction evs arbitrary: s)
  case Nil
  show ?case
    by simp
next
  case (Cons ev evs)
  have "perform env (Settle 0) (perform env (UserEvent ev) \<lparr>app = s, suspended = []\<rparr>) =
      \<lparr>app = react env ev s, suspended = []\<rparr>"
    using perform_sequential[of "\<lparr>app = s, suspended = []\<rparr>" env ev] by simp
  with Cons.IH[of "react env ev s"] show ?case
    by (simp del: perform.simps)
qed

lemma resume_frame:
  "objects (resume env a s) = objects s"
  "selectedDate (resume env a s) = selectedDate s"
  "uniqueDates (resume env a s) = uniqueDates s"
  "error (resume env a s) = error s"
  "loading (resume env a s) = False"
  "page (resume env (InitialImages batch m) s) = page s"
  "page (resume env (MoreImages batch p m) s) = p"
  "hasMore (resume env (InitialImages batch m) s) = m"
  "hasMore (resume env (MoreImages batch p m) s) = m"
  by (cases a; simp split: prod.splits)+

section \<open>A store that serves every object\<close>

text \<open>
  When every HEAD request is answered with success and with one and the same answer,
  whose size passes the test of the floor, and the cache holds nothing but images
  built from that answer, \<^verbatim>\<open>fetchMetadata\<close> yields the image of every object of its
  batch, in order, and logs nothing.
\<close>

lemma probe_served:
  assumes "fetchHead env (key obj) = Fetched h" and "headOk h"
    and "\<not> lessNumber (headSize h) minFileSize"
    and "cache (key obj) = None \<or> cache (key obj) = Some (imageOf h obj)"
  shows "probe env cache obj =
     (Some (imageOf h obj),
      (case cache (key obj) of None \<Rightarrow> cache(key obj \<mapsto> imageOf h obj) | Some i \<Rightarrow> cache), [])"
  using assms by (auto simp: probe_def imageOf_def Let_def)

lemma fetchMetadata_served:
  assumes heads: "\<forall>k. fetchHead env k = Fetched h" "headOk h"
      "\<not> lessNumber (headSize h) minFileSize"
    and d: "distinct (map key objs)"
  shows "set batch \<subseteq> set objs \<Longrightarrow> cacheServes (imageOf h) objs cache \<Longrightarrow>
     fst (fetchMetadata env cache batch) = map (imageOf h) batch \<and>
     snd (snd (fetchMetadata env cache batch)) = [] \<and>
     cacheServes (imageOf h) objs (fst (snd (fetchMetadata env cache batch)))"
proof (induction batch arbitrary: cache)
  case Nil
  then show ?case
    by simp
next
  case (Cons obj batch)
  have inj: "inj_on key (set objs)"
    using d by (simp add: distinct_map)
  have own: "cache (key obj) = None \<or> cache (key obj) = Some (imageOf h obj)"
  proof (cases "cache (key obj)")
    case None
    then show ?thesis
      by simp
  next
    case (Some img)
    with Cons.prems(2) obtain obj' where "obj' \<in> set objs" "key obj' = key obj"
      "img = imageOf h obj'"
      by (auto simp: cacheServes_def)
    moreover have "obj \<in> set objs"
      using Cons.prems(1) by simp
    ultimately have "img = imageOf h obj"
      using inj by (auto dest: inj_onD)
    with Some show ?thesis
      by simp
  qed
  have hd: "fetchHead env (key obj) = Fetched h"
    using heads(1) by simp
  note p = probe_served[where cache = cache and obj = obj and env = env and h = h,
      OF hd heads(2,3) own]
  let ?c = "case cache (key obj) of None \<Rightarrow> cache(key obj \<mapsto> imageOf h obj) | Some i \<Rightarrow> cache"
  have c: "cacheServes (imageOf h) objs ?c"
    using Cons.prems by (auto simp: cacheServes_def split: option.splits)
  from Cons.prems(1) have "set batch \<subseteq> set objs"
    by simp
  from Cons.IH[OF this c] p show ?case
    by (simp add: fetchMetadata_Cons fetchMetadata_Cons_cache enrich_def warned_def
        del: fetchMetadata.simps)
qed

text \<open>The album, its store, and the listing that the gallery commits when mounted on it.\<close>

lemma albumEnv_sel:
  "fetchListing albumEnv tok = okResponse ''<ListBucketResult>album</ListBucketResult>''"
  "fetchHead albumEnv k = Fetched albumHead"
  "parseFromString albumEnv txt =
     \<lparr>parsererror = False,
      contentsNodes =
        map (\<lambda>obj. \<lparr>keyText = Some (key obj), lastModifiedText = Some (lastModified obj)\<rparr>)
          albumObjects,
      nextContinuationToken = None\<rparr>"
  "dateParse albumEnv = dateParse sampleEnv"
  "now albumEnv = 1744992000000"
  by (simp_all add: albumEnv_def sampleEnv_sel)

lemma albumEnv_calendar: "sameCalendar sampleEnv albumEnv"
  by (simp add: sameCalendar_def albumEnv_def)

lemma albumHead_sel:
  "headOk albumHead" "headSize albumHead = Some 204800"
  "\<not> lessNumber (headSize albumHead) minFileSize"
  "imageOf albumHead obj =
     \<lparr>key = key obj, lastModified = lastModified obj, sizeBytes = Some 204800,
      contentType = ''image/jpeg''\<rparr>"
  by (simp_all add: albumHead_def headSize_def imageOf_def orDefault_def parseInt_samples
      lessNumber_def minFileSize_def)

lemma album_keys:
  "map key albumObjects =
     [''photo-0.jpg'', ''photo-1.jpg'', ''photo-2.jpg'', ''photo-3.jpg'', ''photo-4.jpg'',
      ''photo-5.jpg'', ''photo-6.jpg'', ''photo-7.jpg'', ''photo-8.jpg'', ''photo-9.jpg'',
      ''photo-10.jpg'', ''photo-11.jpg'', ''photo-12.jpg'', ''photo-13.jpg'', ''photo-14.jpg'',
      ''photo-15.jpg'', ''photo-16.jpg'', ''photo-17.jpg'', ''photo-18.jpg'', ''photo-19.jpg'',
      ''photo-20.jpg'', ''photo-21.jpg'', ''photo-22.jpg'', ''photo-23.jpg'', ''photo-24.jpg'',
      ''photo-25.jpg'', ''photo-26.jpg'', ''photo-27.jpg'', ''photo-28.jpg'', ''photo-29.jpg'',
      ''photo-30.jpg'', ''photo-31.jpg'', ''photo-32.jpg'', ''photo-33.jpg'', ''photo-34.jpg'',
      ''photo-35.jpg'', ''photo-36.jpg'', ''photo-37.jpg'', ''photo-38.jpg'', ''photo-39.jpg'',
      ''photo-40.jpg'', ''photo-41.jpg'', ''photo-42.jpg'', ''photo-43.jpg'', ''photo-44.jpg'']"
  by (simp add: albumObjects_def albumPhoto_def decimal.simps upt_rec)

lemma album_distinct: "distinct (map key albumObjects)"
  by (simp add: album_keys)

lemma album_days:
  "onSelectedDay sampleEnv (Date 1744761600000) (albumPhoto ''2025-04-16T08:00:00.000Z'' n)"
  "\<not> onSelectedDay sampleEnv (Date 1744761600000) (albumPhoto ''2025-04-17T12:00:00.000Z'' n)"
  "\<not> onSelectedDay sampleEnv (Date 1744761600000) (albumPhoto ''2025-04-18T10:00:00.000Z'' n)"
  by (simp_all add: onSelectedDay_def albumPhoto_def areDatesEqual_def sampleEnv_sel
      sampleTimes_def timeClip_def civil_defs)

lemma album_filtered:
  "filter (onSelectedDay sampleEnv (Date 1744992000000)) albumObjects =
     map (albumPhoto ''2025-04-18T10:00:00.000Z'') [0..<20]"
  "filter (onSelectedDay sampleEnv (Date 1744761600000)) albumObjects =
     map (albumPhoto ''2025-04-16T08:00:00.000Z'') [35..<45]"
  by (simp_all add: albumObjects_def filter_map o_def sample_days album_days)

lemma album_pages:
  "slice 0 batchSize albumObjects = map (albumPhoto ''2025-04-18T10:00:00.000Z'') [0..<20]"
  "slice batchSize (batchSize + batchSize) albumObjects =
     map (albumPhoto ''2025-04-17T12:00:00.000Z'') [20..<35] @
     map (albumPhoto ''2025-04-16T08:00:00.000Z'') [35..<40]"
  "slice 0 batchSize (map (albumPhoto ''2025-04-16T08:00:00.000Z'') [35..<45]) =
     map (albumPhoto ''2025-04-16T08:00:00.000Z'') [35..<45]"
  by (simp_all add: slice_def batchSize_def albumObjects_def take_map)

lemma album_listing: "listObjects 1 albumEnv [] None = Some (Inr albumObjects)"
proof -
  have "map (\<lambda>x. \<lparr>key = key x, lastModified = lastModified x\<rparr>) xs = xs"
    for xs :: "ObjectInfo list"
    by (induction xs) simp_all
  then show ?thesis
    by (simp add: listPage_def albumEnv_sel okResponse_def looksLikeHtml_def trim_def
        isWhiteSpace_def nodeToObject_def orEmpty_def orNull_def o_def)
qed

lemma photo_isImageKey: "isImageKey (key (albumPhoto stamp n))"
  by (simp add: isImageKey_def endsWith_def albumPhoto_def toLowerASCII_def)

lemma album_imageKeys: "filter (\<lambda>obj. isImageKey (key obj)) albumObjects = albumObjects"
  by (simp add: albumObjects_def photo_isImageKey)

lemma album_times:
  "timeOf albumEnv (albumPhoto ''2025-04-18T10:00:00.000Z'' n) = Some 1744970400000"
  "timeOf albumEnv (albumPhoto ''2025-04-17T12:00:00.000Z'' n) = Some 1744891200000"
  "timeOf albumEnv (albumPhoto ''2025-04-16T08:00:00.000Z'' n) = Some 1744790400000"
  by (simp_all add: timeOf_def albumEnv_sel sampleEnv_sel sampleTimes_def albumPhoto_def)

lemma album_sorted: "sorted_wrt (newerOrEqual albumEnv) albumObjects"
  by (simp add: albumObjects_def sorted_wrt_append sorted_wrt_map newerOrEqual_def album_times)

lemma sortBy_sorted:
  "\<forall>x \<in> set xs. timeOf env x \<noteq> None \<Longrightarrow> sorted_wrt (newerOrEqual env) xs \<Longrightarrow>
   sortBy (newestFirst env) xs = xs"
proof (induction xs)
  case Nil
  show ?case
    by (simp add: sortBy_def)
next
  case (Cons x xs)
  then have "sortBy (newestFirst env) xs = xs"
    by simp
  then have "sortBy (newestFirst env) (x # xs) = insertBy (newestFirst env) x xs"
    by (simp add: sortBy_def)
  also have "\<dots> = x # xs"
    using Cons.prems
    by (cases xs) (auto simp: newestFirst_def newerOrEqual_def split: option.splits)
  finally show ?case .
qed

lemma album_valid: "\<forall>x \<in> set albumObjects. timeOf albumEnv x \<noteq> None"
  by (auto simp: albumObjects_def album_times)

lemma album_imageObjects: "imageObjects albumEnv albumObjects = albumObjects"
  by (simp add: imageObjects_def album_imageKeys sortBy_sorted album_valid album_sorted)

lemma dayStamps_append:
  "dayStamps env xs = Inr a \<Longrightarrow> dayStamps env ys = Inr b \<Longrightarrow>
   dayStamps env (xs @ ys) = Inr (a @ b)"
  by (induction xs arbitrary: a) (auto split: Date.splits sum.splits)

lemma dayStamps_photos:
  "normalizeDate env (dateParse env stamp) = Date t \<Longrightarrow>
   dayStamps env (map (albumPhoto stamp) ns) = Inr (map (\<lambda>n. t) ns)"
  by (induction ns) (simp_all add: albumPhoto_def)

lemma album_dayStamps:
  "dayStamps albumEnv albumObjects =
     Inr (map (\<lambda>n. 1744934400000) [0..<20] @ map (\<lambda>n. 1744848000000) [20..<35] @
          map (\<lambda>n. 1744761600000) [35..<45])"
  unfolding albumObjects_def
  by (intro dayStamps_append dayStamps_photos)
    (simp_all add: albumEnv_sel sampleEnv_sel sampleTimes_def timeClip_def albumEnv_def)

lemma album_listAll:
  "listAll 1 albumEnv =
     Some (Inr (albumObjects, [Date 1744934400000, Date 1744848000000, Date 1744761600000]))"
proof -
  have "distinctInOrder
      (map (\<lambda>n. 1744934400000) [0..<20] @ map (\<lambda>n. 1744848000000) [20..<35] @
       map (\<lambda>n. 1744761600000) [35..<45]) =
      [1744934400000, 1744848000000, 1744761600000 :: int]"
    by (simp add: distinctInOrder_def upt_rec)
  moreover have "length albumObjects \<noteq> 0"
    by (simp add: album_lengths)
  ultimately show ?thesis
    by (simp add: listAll_def album_listing album_imageObjects album_dayStamps sortBy_def
        del: One_nat_def dayStamps.simps)
qed

lemma album_toDisplay:
  "objects s = albumObjects \<Longrightarrow> selectedDate s = None \<Longrightarrow>
   objectsToDisplay albumEnv s = albumObjects"
  "objects s = albumObjects \<Longrightarrow> selectedDate s = Some (Date 1744992000000) \<Longrightarrow>
   objectsToDisplay albumEnv s = map (albumPhoto ''2025-04-18T10:00:00.000Z'') [0..<20]"
  "objects s = albumObjects \<Longrightarrow> selectedDate s = Some (Date 1744761600000) \<Longrightarrow>
   objectsToDisplay albumEnv s = map (albumPhoto ''2025-04-16T08:00:00.000Z'') [35..<45]"
  by (simp_all only: sameCalendar_objectsToDisplay[OF albumEnv_calendar])
    (simp_all only: objectsToDisplay_eq option.case album_filtered)

text \<open>
  With the store of the album, the rest of a suspended function yields an image for
  every object of its batch.
\<close>

lemma album_fetchMetadata:
  assumes "set batch \<subseteq> set albumObjects"
    and "cacheServes (imageOf albumHead) albumObjects cache"
  shows "fst (fetchMetadata albumEnv cache batch) = map (imageOf albumHead) batch"
    and "snd (snd (fetchMetadata albumEnv cache batch)) = []"
    and "cacheServes (imageOf albumHead) albumObjects (fst (snd (fetchMetadata albumEnv cache batch)))"
  using fetchMetadata_served[of albumEnv albumHead albumObjects batch cache, OF _ _ _ album_distinct assms]
  by (simp_all add: albumEnv_sel albumHead_sel(1,3))

lemma album_resume:
  assumes "set batch \<subseteq> set albumObjects"
    and "cacheServes (imageOf albumHead) albumObjects (metadataCache s)"
  shows "images (resume albumEnv (InitialImages batch m) s) = map (imageOf albumHead) batch"
    and "images (resume albumEnv (MoreImages batch p m) s) =
           images s @ map (imageOf albumHead) batch"
    and "displayedImages (resume albumEnv (InitialImages batch m) s) =
           map (imageOf albumHead) batch"
    and "displayedImages (resume albumEnv (MoreImages batch p m) s) =
           displayedImages s @ map (imageOf albumHead) batch"
    and "cacheServes (imageOf albumHead) albumObjects
           (metadataCache (resume albumEnv (InitialImages batch m) s))"
    and "cacheServes (imageOf albumHead) albumObjects
           (metadataCache (resume albumEnv (MoreImages batch p m) s))"
  using album_fetchMetadata[OF assms]
  by (cases "fetchMetadata albumEnv (metadataCache s) batch"; simp)+

lemma album_mount:
  "\<exists>s0. mount 1 albumEnv = Some s0 \<and> objects s0 = albumObjects \<and>
        selectedDate s0 = Some (Date 1744992000000)"
proof -
  let ?s1 = "(selectedDateEffect albumEnv (initialState albumEnv))
      \<lparr>objects := albumObjects,
       uniqueDates := [Date 1744934400000, Date 1744848000000, Date 1744761600000],
       loading := False\<rparr>"
  have "mount 1 albumEnv = Some (selectedDateEffect albumEnv ?s1)"
    by (simp add: mount_def fetchObjects_def album_listAll del: One_nat_def)
  moreover have "objects (selectedDateEffect albumEnv ?s1) = albumObjects"
    by (simp add: selectedDateEffect_frame)
  moreover have "selectedDate (selectedDateEffect albumEnv ?s1) = Some (Date 1744992000000)"
    by (simp add: selectedDateEffect_frame initialState_def albumEnv_sel)
  ultimately show ?thesis
    by blast
qed

lemma album_subsets:
  "set (map (albumPhoto ''2025-04-18T10:00:00.000Z'') [0..<20]) \<subseteq> set albumObjects"
  "set (map (albumPhoto ''2025-04-17T12:00:00.000Z'') [20..<35] @
        map (albumPhoto ''2025-04-16T08:00:00.000Z'') [35..<40]) \<subseteq> set albumObjects"
  "set (map (albumPhoto ''2025-04-16T08:00:00.000Z'') [35..<45]) \<subseteq> set albumObjects"
  by (auto simp: albumObjects_def)

lemma album_first_page:
  assumes "objects s = albumObjects"
  shows "images (selectedDateEffect albumEnv s) =
           map (imageOf albumHead) (take batchSize (objectsToDisplay albumEnv s)) \<and>
         cacheServes (imageOf albumHead) albumObjects (metadataCache (selectedDateEffect albumEnv s))"
proof -
  let ?r = "resetDisplay s"
  have r: "objects ?r = albumObjects" "metadataCache ?r = Map.empty"
    using assms by (simp_all add: resetDisplay_def)
  have same: "objectsToDisplay albumEnv ?r = objectsToDisplay albumEnv s"
    by (rule objectsToDisplay_cong) (simp_all add: resetDisplay_def)
  have sub: "set (slice 0 batchSize (objectsToDisplay albumEnv ?r)) \<subseteq> set albumObjects"
    using set_slice[of 0 batchSize "objectsToDisplay albumEnv ?r"]
      set_objectsToDisplay[of albumEnv ?r] r(1)
    by simp
  have c: "cacheServes (imageOf albumHead) albumObjects (metadataCache (fst (fetchInitialImagesBegin albumEnv ?r)))"
    by (simp add: fetchInitialImagesBegin_def Let_def r cacheServes_def)
  have b: "snd (fetchInitialImagesBegin albumEnv ?r) =
      InitialImages (slice 0 batchSize (objectsToDisplay albumEnv ?r))
        (batchSize < length (objectsToDisplay albumEnv ?r))"
    by (simp add: fetchInitialImagesBegin_def Let_def)
  have "selectedDateEffect albumEnv s = fetchInitialImages albumEnv ?r"
    using r(1) album_lengths(2) by (auto simp: selectedDateEffect_def Let_def)
  then show ?thesis
    using album_resume(1,5)[OF sub c]
    by (simp add: fetchInitialImages_settled b same slice_def del: resume.simps)
qed

lemma album_pages_loaded:
  assumes "objects s = albumObjects"
  shows "(0 < k \<longrightarrow> k * batchSize < length (objectsToDisplay albumEnv s)) \<Longrightarrow>
     images ((loadMoreImages albumEnv ^^ k) (selectedDateEffect albumEnv s)) =
       map (imageOf albumHead) (take ((k + 1) * batchSize) (objectsToDisplay albumEnv s)) \<and>
     cacheServes (imageOf albumHead) albumObjects
       (metadataCache ((loadMoreImages albumEnv ^^ k) (selectedDateEffect albumEnv s)))"
proof (induction k)
  case 0
  show ?case
    using album_first_page[OF assms] by simp
next
  case (Suc k)
  let ?d = "objectsToDisplay albumEnv s"
  let ?t = "(loadMoreImages albumEnv ^^ k) (selectedDateEffect albumEnv s)"
  let ?batch = "slice ((k + 1) * batchSize) ((Suc k + 1) * batchSize) ?d"
  let ?more = "(Suc k + 1) * batchSize < length ?d"
  have ne: "objects s \<noteq> []"
    using assms album_lengths(2) by auto
  have more: "Suc k * batchSize < length ?d"
    using Suc.prems by simp
  then have less: "0 < k \<longrightarrow> k * batchSize < length ?d"
    by (simp add: batchSize_def)
  from pages_loaded[OF ne less]
  have t: "page ?t = k + 1" "hasMore ?t" "\<not> loading ?t" "objectsToDisplay albumEnv ?t = ?d"
    using more by simp_all
  from Suc.IH[OF less]
  have IH: "images ?t = map (imageOf albumHead) (take ((k + 1) * batchSize) ?d)"
    "cacheServes (imageOf albumHead) albumObjects (metadataCache ?t)"
    by simp_all
  have "loadMoreImagesBegin albumEnv ?t =
      (?t\<lparr>loading := True\<rparr>, Some (MoreImages ?batch (Suc k + 1) ?more))"
    using t by (simp add: loadMoreImagesBegin_def Let_def)
  then have step: "loadMoreImages albumEnv ?t =
      resume albumEnv (MoreImages ?batch (Suc k + 1) ?more) (?t\<lparr>loading := True\<rparr>)"
    by (simp add: loadMoreImages_settled settled_def del: resume.simps)
  have sub: "set ?batch \<subseteq> set albumObjects"
    using set_slice[of "(k + 1) * batchSize" "(Suc k + 1) * batchSize" ?d]
      set_objectsToDisplay[of albumEnv s] assms
    by simp
  have c: "cacheServes (imageOf albumHead) albumObjects (metadataCache (?t\<lparr>loading := True\<rparr>))"
    using IH(2) by simp
  have tk: "take ((Suc k + 1) * batchSize) ?d = take ((k + 1) * batchSize) ?d @ ?batch"
    using take_add[of "(k + 1) * batchSize" batchSize ?d] by (simp add: slice_def add.commute)
  have "images (loadMoreImages albumEnv ?t) =
      images (?t\<lparr>loading := True\<rparr>) @ map (imageOf albumHead) ?batch"
    unfolding step by (rule album_resume(2)[OF sub c])
  also have "\<dots> = map (imageOf albumHead) (take ((k + 1) * batchSize) ?d @ ?batch)"
    using IH(1) by simp
  finally have i: "images (loadMoreImages albumEnv ?t) =
      map (imageOf albumHead) (take ((Suc k + 1) * batchSize) ?d)"
    by (simp only: tk)
  have "cacheServes (imageOf albumHead) albumObjects (metadataCache (loadMoreImages albumEnv ?t))"
    unfolding step by (rule album_resume(6)[OF sub c])
  with i show ?case
    by (simp only: funpow.simps o_apply simp_thms)
qed

section \<open>Claim C2: \<open>hasMore\<close> after a page\<close>

lemma notes_listAll: "listAll 1 notesEnv = Some (Inr ([], []))"
  by (simp add: listAll_def notesEnv_listing notes_not_image imageObjects_def sortBy_def
      distinctInOrder_def del: One_nat_def)

lemma notes_mount:
  "mount 1 notesEnv = Some ((initialState notesEnv)\<lparr>loading := False\<rparr>)"
  by (simp add: mount_def fetchObjects_def notes_listAll selectedDateEffect_no_objects
      resetDisplay_def initialState_def del: One_nat_def)

text \<open>
  C2, as stated: for every gallery, selected date and page number, after that page is
  loaded \<open>hasMore\<close> holds exactly when \<open>pageNumber * 20\<close> is less than the length of the
  filtered subset. The date effect calls \<^verbatim>\<open>fetchInitialImages\<close>, which alone sets
  \<open>hasMore\<close> for page 1, only \<^verbatim>\<open>if (objects.length > 0)\<close>. The store of \<open>notesEnv\<close>
  lists one text file: the listing succeeds, the gallery is empty, the page is 1, the
  filtered subset has length 0 and \<open>hasMore\<close> is still \<^verbatim>\<open>true\<close>, its initial value.
\<close>

theorem C2_empty_gallery_counterexample:
  "map_option error (mount 1 notesEnv) = Some None \<and>
   map_option objects (mount 1 notesEnv) = Some [] \<and>
   map_option page (mount 1 notesEnv) = Some 1 \<and>
   map_option hasMore (mount 1 notesEnv) = Some True \<and>
   map_option (\<lambda>s. length (objectsToDisplay notesEnv s)) (mount 1 notesEnv) = Some 0 \<and>
   map_option (\<lambda>s. hasMore s = (page s * 20 < length (objectsToDisplay notesEnv s)))
     (mount 1 notesEnv) = Some False"
  by (simp add: notes_mount initialState_def objectsToDisplay_def del: One_nat_def)

text \<open>
  C2, amended: for every gallery that is not empty, every selected date and every page
  number, after that page has been loaded \<open>hasMore\<close> holds exactly when
  \<open>pageNumber * 20\<close> is less than the length of the filtered subset of the object
  listing: all objects when no date is selected, else the objects on the selected day,
  counted before the metadata probes drop any of them. Page 1 is loaded by the date
  effect, page \<open>p + 1\<close> by \<^verbatim>\<open>loadMoreImages\<close>, which runs only while \<open>hasMore\<close> holds, so
  page \<open>pageNumber\<close> is loaded when the pages before it left more to load; each load
  runs to its end before the next starts, with no change of the date in between. For
  an empty gallery the date effect loads nothing: the page is 1, \<open>images\<close> is empty and
  \<open>hasMore\<close> keeps the value it had.
\<close>

theorem C2_hasMore_after_page:
  assumes "1 \<le> pageNumber"
    and "1 < pageNumber \<longrightarrow> (pageNumber - 1) * batchSize < length (objectsToDisplay env s)"
  shows "(objects s \<noteq> [] \<longrightarrow>
       page ((loadMoreImages env ^^ (pageNumber - 1)) (selectedDateEffect env s)) = pageNumber \<and>
       hasMore ((loadMoreImages env ^^ (pageNumber - 1)) (selectedDateEffect env s)) =
         (pageNumber * 20 <
            length (objectsToDisplay env
              ((loadMoreImages env ^^ (pageNumber - 1)) (selectedDateEffect env s)))) \<and>
       objectsToDisplay env ((loadMoreImages env ^^ (pageNumber - 1)) (selectedDateEffect env s)) =
         (case selectedDate s of
            None \<Rightarrow> objects s
          | Some d \<Rightarrow> filter (onSelectedDay env d) (objects s))) \<and>
     (objects s = [] \<longrightarrow>
       page (selectedDateEffect env s) = 1 \<and>
       hasMore (selectedDateEffect env s) = hasMore s \<and>
       images (selectedDateEffect env s) = [] \<and>
       objectsToDisplay env (selectedDateEffect env s) = [])"
proof (intro conjI impI)
  assume ne: "objects s \<noteq> []"
  let ?t = "(loadMoreImages env ^^ (pageNumber - 1)) (selectedDateEffect env s)"
  have "0 < pageNumber - 1 \<longrightarrow>
      (pageNumber - 1) * batchSize < length (objectsToDisplay env s)"
    using assms(2) by simp
  from pages_loaded[OF ne this] assms(1)
  have p: "page ?t = pageNumber"
    and h: "hasMore ?t = (pageNumber * batchSize < length (objectsToDisplay env s))"
    and o: "objectsToDisplay env ?t = objectsToDisplay env s"
    by simp_all
  show "page ?t = pageNumber"
    by (rule p)
  show "hasMore ?t = (pageNumber * 20 < length (objectsToDisplay env ?t))"
    using h by (simp only: o batchSize_def)
  show "objectsToDisplay env ?t =
      (case selectedDate s of
         None \<Rightarrow> objects s
       | Some d \<Rightarrow> filter (onSelectedDay env d) (objects s))"
    unfolding o by (rule objectsToDisplay_eq)
next
  assume e: "objects s = []"
  then show "page (selectedDateEffect env s) = 1"
    and "hasMore (selectedDateEffect env s) = hasMore s"
    and "images (selectedDateEffect env s) = []"
    and "objectsToDisplay env (selectedDateEffect env s) = []"
    by (simp_all add: selectedDateEffect_no_objects resetDisplay_def objectsToDisplay_def
        split: option.splits)
qed

text \<open>
  The scenario of C2 on the album, whose store serves every object (45 images, 20 of
  them on 2025-04-18): with that day selected \<open>hasMore\<close> is false after page 1, which
  has 20 images; with no date selected it is true after page 1 and false after page 3,
  when all 45 images are loaded. And the empty gallery of \<open>notesEnv\<close>.
\<close>

theorem C2_hasMore_after_page_witness:
  "length albumObjects = 45 \<and>
   length (filter (onSelectedDay albumEnv (Date 1744992000000)) albumObjects) = 20 \<and>
   hasMore (selectedDateEffect albumEnv (albumState (Some (Date 1744992000000)))) = False \<and>
   length (images (selectedDateEffect albumEnv (albumState (Some (Date 1744992000000))))) = 20 \<and>
   hasMore (selectedDateEffect albumEnv (albumState None)) = True \<and>
   length (images (selectedDateEffect albumEnv (albumState None))) = 20 \<and>
   page ((loadMoreImages albumEnv ^^ 2) (selectedDateEffect albumEnv (albumState None))) = 3 \<and>
   hasMore ((loadMoreImages albumEnv ^^ 2) (selectedDateEffect albumEnv (albumState None))) = False \<and>
   length (images ((loadMoreImages albumEnv ^^ 2) (selectedDateEffect albumEnv (albumState None)))) =
     45 \<and>
   objects (initialState notesEnv) = [] \<and>
   page (selectedDateEffect notesEnv (initialState notesEnv)) = 1 \<and>
   hasMore (selectedDateEffect notesEnv (initialState notesEnv)) = True"
proof -
  have o: "objects (albumState sel) = albumObjects" "selectedDate (albumState sel) = sel" for sel
    by (simp_all add: albumState_def initialState_def)
  have ne: "objects (albumState sel) \<noteq> []" for sel
    using album_lengths(2) by (auto simp: o)
  have today: "filter (onSelectedDay albumEnv (Date 1744992000000)) albumObjects =
      map (albumPhoto ''2025-04-18T10:00:00.000Z'') [0..<20]"
    using album_toDisplay(2)[OF o(1), of "Some (Date 1744992000000)"]
    by (simp add: objectsToDisplay_eq o)
  have d: "objectsToDisplay albumEnv (albumState (Some (Date 1744992000000))) =
      map (albumPhoto ''2025-04-18T10:00:00.000Z'') [0..<20]"
    "objectsToDisplay albumEnv (albumState None) = albumObjects"
    by (simp_all add: album_toDisplay o)
  have p3: "1 < (3::nat) \<longrightarrow>
      (3 - 1) * batchSize < length (objectsToDisplay albumEnv (albumState None))"
    by (simp add: d album_lengths batchSize_def)
  have "hasMore (selectedDateEffect albumEnv (albumState (Some (Date 1744992000000)))) =
      (1 * 20 < length (objectsToDisplay albumEnv
         (selectedDateEffect albumEnv (albumState (Some (Date 1744992000000))))))"
    using C2_hasMore_after_page
      [where s = "albumState (Some (Date 1744992000000))" and env = albumEnv and pageNumber = 1]
      ne
    by simp
  then have a: "hasMore (selectedDateEffect albumEnv (albumState (Some (Date 1744992000000)))) =
      False"
    by (simp add: objectsToDisplay_selectedDateEffect d)
  have "hasMore (selectedDateEffect albumEnv (albumState None)) =
      (1 * 20 < length (objectsToDisplay albumEnv (selectedDateEffect albumEnv (albumState None))))"
    using C2_hasMore_after_page [where s = "albumState None" and env = albumEnv and pageNumber = 1]
      ne
    by simp
  then have b: "hasMore (selectedDateEffect albumEnv (albumState None)) = True"
    by (simp add: objectsToDisplay_selectedDateEffect d album_lengths)
  have le3: "1 \<le> (3::nat)"
    by simp
  have three: "page ((loadMoreImages albumEnv ^^ (3 - 1)) (selectedDateEffect albumEnv (albumState None))) = 3 \<and>
     hasMore ((loadMoreImages albumEnv ^^ (3 - 1)) (selectedDateEffect albumEnv (albumState None))) =
       (3 * 20 < length (objectsToDisplay albumEnv
          ((loadMoreImages albumEnv ^^ (3 - 1)) (selectedDateEffect albumEnv (albumState None))))) \<and>
     objectsToDisplay albumEnv
        ((loadMoreImages albumEnv ^^ (3 - 1)) (selectedDateEffect albumEnv (albumState None))) =
       (case selectedDate (albumState None) of
          None \<Rightarrow> objects (albumState None)
        | Some d \<Rightarrow> filter (onSelectedDay albumEnv d) (objects (albumState None)))"
    using C2_hasMore_after_page
      [where s = "albumState None" and env = albumEnv and pageNumber = 3, OF le3 p3] ne
    by blast
  have two: "(3::nat) - 1 = 2"
    by simp
  from three have c: "page ((loadMoreImages albumEnv ^^ 2) (selectedDateEffect albumEnv (albumState None))) = 3"
    unfolding two by (rule conjunct1)
  from three have "hasMore ((loadMoreImages albumEnv ^^ 2) (selectedDateEffect albumEnv (albumState None))) =
      (3 * 20 < length (objects (albumState None)))"
    unfolding two by (simp add: o)
  then have e: "hasMore ((loadMoreImages albumEnv ^^ 2) (selectedDateEffect albumEnv (albumState None))) = False"
    by (simp add: o album_lengths)
  have i1: "length (images (selectedDateEffect albumEnv (albumState (Some (Date 1744992000000))))) = 20"
    using album_first_page[OF o(1), of "Some (Date 1744992000000)"] by (simp add: d batchSize_def)
  have i2: "length (images (selectedDateEffect albumEnv (albumState None))) = 20"
    using album_first_page[OF o(1), of None] by (simp add: d batchSize_def album_lengths)
  have "0 < (2::nat) \<longrightarrow> 2 * batchSize < length (objectsToDisplay albumEnv (albumState None))"
    by (simp add: d album_lengths batchSize_def)
  from album_pages_loaded[OF o(1) this]
  have i3: "length (images ((loadMoreImages albumEnv ^^ 2) (selectedDateEffect albumEnv (albumState None)))) = 45"
    by (simp add: d album_lengths batchSize_def)
  have "page (selectedDateEffect notesEnv (initialState notesEnv)) = 1 \<and>
      hasMore (selectedDateEffect notesEnv (initialState notesEnv)) = hasMore (initialState notesEnv)"
    using C2_hasMore_after_page [where s = "initialState notesEnv" and env = notesEnv and pageNumber = 1]
    by (simp add: initialState_def)
  then have n: "objects (initialState notesEnv) = []"
    "page (selectedDateEffect notesEnv (initialState notesEnv)) = 1"
    "hasMore (selectedDateEffect notesEnv (initialState notesEnv)) = True"
    by (simp_all add: initialState_def)
  from a b c e i1 i2 i3 n today album_lengths(2) show ?thesis
    by simp
qed

section \<open>Claim C6: a change of the selected date\<close>

text \<open>
  An image in the cache after \<^verbatim>\<open>fetchMetadata\<close> was there before or is among the
  images returned.
\<close>

lemma probe_cache_origin:
  "fst (snd (probe env cache obj)) k = Some i \<Longrightarrow>
   cache k = Some i \<or> enrich env cache obj = Some i"
  by (auto simp: enrich_def probe_def Let_def split: option.splits fetched.splits if_splits)

lemma fetchMetadata_cache_origin:
  "fst (snd (fetchMetadata env cache batch)) k = Some i \<Longrightarrow>
   cache k = Some i \<or> i \<in> set (fst (fetchMetadata env cache batch))"
proof (induction batch arbitrary: cache)
  case Nil
  then show ?case
    by simp
next
  case (Cons obj objs)
  let ?c = "fst (snd (probe env cache obj))"
  from Cons.prems have "fst (snd (fetchMetadata env ?c objs)) k = Some i"
    by (simp only: fetchMetadata_Cons_cache)
  from Cons.IH[OF this] probe_cache_origin[of env cache obj k i] show ?case
    by (auto simp: fetchMetadata_Cons simp del: fetchMetadata.simps split: option.splits)
qed

lemma fetchInitialImages_fresh:
  assumes "metadataCache s = Map.empty"
  shows "images (fetchInitialImages env s) = displayedImages (fetchInitialImages env s) \<and>
     (\<forall>k img. metadataCache (fetchInitialImages env s) k = Some img \<longrightarrow>
        img \<in> set (images (fetchInitialImages env s)))"
  using fetchMetadata_cache_origin[of env Map.empty "slice 0 batchSize (objectsToDisplay env s)"]
    assms
  by (auto simp: fetchInitialImages_def Let_def split: prod.splits)

lemma selectedDateEffect_fresh:
  "images (selectedDateEffect env s) = displayedImages (selectedDateEffect env s) \<and>
   (\<forall>k img. metadataCache (selectedDateEffect env s) k = Some img \<longrightarrow>
      img \<in> set (images (selectedDateEffect env s)))"
proof (cases "0 < length (objects (resetDisplay s))")
  case True
  have "metadataCache (resetDisplay s) = Map.empty"
    by (simp add: resetDisplay_def)
  from fetchInitialImages_fresh[OF this, of env] True show ?thesis
    by (auto simp: selectedDateEffect_def)
next
  case False
  then show ?thesis
    by (simp add: selectedDateEffect_def resetDisplay_def)
qed

text \<open>
  C6, as stated: a change of the selected date leaves the underlying gallery unchanged,
  the enriched collection included. In this source the enriched collection \<open>images\<close>
  holds the pages loaded so far, and the date effect empties it with the display
  (\<^verbatim>\<open>setImages([])\<close>) before the first page of the new date is loaded: on the sample
  bucket, Previous replaces the one image of 2025-04-18 by the one of the day before,
  while the object listing stays as it was.
\<close>

theorem C6_images_counterexample:
  "selectedDate (react sampleEnv PreviousDate mounted) \<noteq> selectedDate mounted \<and>
   objects (react sampleEnv PreviousDate mounted) = objects mounted \<and>
   images mounted =
     [\<lparr>key = ''sunrise.jpg'', lastModified = ''2025-04-18T10:00:00.000Z'',
       sizeBytes = Some 20480, contentType = ''image/jpeg''\<rparr>] \<and>
   images (resetDisplay (mounted\<lparr>selectedDate := Some (Date 1744905600000)\<rparr>)) = [] \<and>
   images (react sampleEnv PreviousDate mounted) =
     [\<lparr>key = ''harbour.PNG'', lastModified = ''2025-04-17T12:00:00.000Z'',
       sizeBytes = Some 51200, contentType = ''unknown''\<rparr>] \<and>
   images (react sampleEnv PreviousDate mounted) \<noteq> images mounted"
  by (simp add: sample_previous del: react.simps) (simp add: mounted_def resetDisplay_def)

text \<open>
  C6, amended: for every change of the selected date (any new value, unless both the
  old and the new one are \<^verbatim>\<open>null\<close>), the date effect at once sets the page to 1 and
  empties the cache, the displayed images and the enriched images, and leaves the
  object listing and the unique dates as they were; if the listing is not empty it
  then asks for the metadata of the first page of the new date, the first 20 of the
  objects that pass the date filter (all objects for \<^verbatim>\<open>null\<close>). When that metadata
  arrives with nothing else having happened since the change, the enriched images and
  the displayed images are exactly the images that \<^verbatim>\<open>fetchMetadata\<close> yields for that
  first page against an empty cache, the cache is what that call leaves, so it holds
  nothing but images of that page, the page is still 1, and the object listing and the
  unique dates are still what they were. For an empty listing nothing is asked for and
  the images and the cache stay empty.
\<close>

lemma setSelectedDateBegin_change:
  assumes "d \<noteq> None \<or> selectedDate s \<noteq> None"
  shows "fst (setSelectedDateBegin env d s) =
     (resetDisplay (s\<lparr>selectedDate := d\<rparr>))\<lparr>loading := (objects s \<noteq> [] \<or> loading s)\<rparr>"
    and "snd (setSelectedDateBegin env d s) =
     (if objects s = [] then None
      else Some (InitialImages
             (take batchSize (objectsToDisplay env (s\<lparr>selectedDate := d\<rparr>)))
             (batchSize < length (objectsToDisplay env (s\<lparr>selectedDate := d\<rparr>)))))"
proof -
  have same: "objectsToDisplay env (resetDisplay (s\<lparr>selectedDate := d\<rparr>)) =
      objectsToDisplay env (s\<lparr>selectedDate := d\<rparr>)"
    by (rule objectsToDisplay_cong) (simp_all add: resetDisplay_def)
  have eff: "setSelectedDateBegin env d s = selectedDateEffectBegin env (s\<lparr>selectedDate := d\<rparr>)"
    using assms by (auto simp: setSelectedDateBegin_def)
  show "fst (setSelectedDateBegin env d s) =
     (resetDisplay (s\<lparr>selectedDate := d\<rparr>))\<lparr>loading := (objects s \<noteq> [] \<or> loading s)\<rparr>"
    by (simp add: eff selectedDateEffectBegin_def fetchInitialImagesBegin_def Let_def
        resetDisplay_def)
  show "snd (setSelectedDateBegin env d s) =
     (if objects s = [] then None
      else Some (InitialImages
             (take batchSize (objectsToDisplay env (s\<lparr>selectedDate := d\<rparr>)))
             (batchSize < length (objectsToDisplay env (s\<lparr>selectedDate := d\<rparr>)))))"
    using same
    by (simp add: eff selectedDateEffectBegin_def fetchInitialImagesBegin_def Let_def slice_def)
      (simp add: resetDisplay_def)
qed

theorem C6_date_change:
  assumes "d \<noteq> None \<or> selectedDate s \<noteq> None"
  shows "selectedDate (fst (setSelectedDateBegin env d s)) = d \<and>
     page (fst (setSelectedDateBegin env d s)) = 1 \<and>
     metadataCache (fst (setSelectedDateBegin env d s)) = Map.empty \<and>
     displayedImages (fst (setSelectedDateBegin env d s)) = [] \<and>
     images (fst (setSelectedDateBegin env d s)) = [] \<and>
     objects (fst (setSelectedDateBegin env d s)) = objects s \<and>
     uniqueDates (fst (setSelectedDateBegin env d s)) = uniqueDates s \<and>
     snd (setSelectedDateBegin env d s) =
       (if objects s = [] then None
        else Some (InitialImages
               (take batchSize (objectsToDisplay env (s\<lparr>selectedDate := d\<rparr>)))
               (batchSize < length (objectsToDisplay env (s\<lparr>selectedDate := d\<rparr>))))) \<and>
     objectsToDisplay env (s\<lparr>selectedDate := d\<rparr>) =
       (case d of None \<Rightarrow> objects s | Some day \<Rightarrow> filter (onSelectedDay env day) (objects s)) \<and>
     setSelectedDate env d s = settled env (setSelectedDateBegin env d s) \<and>
     selectedDate (setSelectedDate env d s) = d \<and>
     page (setSelectedDate env d s) = 1 \<and>
     objects (setSelectedDate env d s) = objects s \<and>
     uniqueDates (setSelectedDate env d s) = uniqueDates s \<and>
     images (setSelectedDate env d s) =
       (if objects s = [] then []
        else fst (fetchMetadata env Map.empty
               (take batchSize (objectsToDisplay env (s\<lparr>selectedDate := d\<rparr>))))) \<and>
     displayedImages (setSelectedDate env d s) = images (setSelectedDate env d s) \<and>
     metadataCache (setSelectedDate env d s) =
       (if objects s = [] then Map.empty
        else fst (snd (fetchMetadata env Map.empty
               (take batchSize (objectsToDisplay env (s\<lparr>selectedDate := d\<rparr>)))))) \<and>
     (\<forall>k img. metadataCache (setSelectedDate env d s) k = Some img \<longrightarrow>
        img \<in> set (images (setSelectedDate env d s)))"
proof -
  let ?b = "setSelectedDateBegin env d s"
  let ?batch = "take batchSize (objectsToDisplay env (s\<lparr>selectedDate := d\<rparr>))"
  note b = setSelectedDateBegin_change[OF assms, of env]
  have eff: "setSelectedDate env d s = selectedDateEffect env (s\<lparr>selectedDate := d\<rparr>)"
    using assms by (auto simp: setSelectedDate_def)
  have sync: "selectedDate (fst ?b) = d" "page (fst ?b) = 1" "metadataCache (fst ?b) = Map.empty"
    "displayedImages (fst ?b) = []" "images (fst ?b) = []" "objects (fst ?b) = objects s"
    "uniqueDates (fst ?b) = uniqueDates s"
    by (simp_all add: b(1) resetDisplay_def)
  have od: "objectsToDisplay env (s\<lparr>selectedDate := d\<rparr>) =
      (case d of None \<Rightarrow> objects s | Some day \<Rightarrow> filter (onSelectedDay env day) (objects s))"
    by (simp add: objectsToDisplay_def split: option.splits)
  have st: "setSelectedDate env d s = settled env ?b"
    by (rule setSelectedDate_settled)
  have frame: "selectedDate (setSelectedDate env d s) = d" "page (setSelectedDate env d s) = 1"
    "objects (setSelectedDate env d s) = objects s"
    "uniqueDates (setSelectedDate env d s) = uniqueDates s"
    by (simp_all add: eff selectedDateEffect_frame)
  have imgs: "images (setSelectedDate env d s) =
      (if objects s = [] then [] else fst (fetchMetadata env Map.empty ?batch))"
    and cache: "metadataCache (setSelectedDate env d s) =
      (if objects s = [] then Map.empty else fst (snd (fetchMetadata env Map.empty ?batch)))"
    by (cases "fetchMetadata env Map.empty ?batch";
        simp add: st settled_def b sync resetDisplay_def)+
  note f = selectedDateEffect_fresh[of env "s\<lparr>selectedDate := d\<rparr>"]
  have fresh: "displayedImages (setSelectedDate env d s) = images (setSelectedDate env d s)"
    "\<forall>k img. metadataCache (setSelectedDate env d s) k = Some img \<longrightarrow>
        img \<in> set (images (setSelectedDate env d s))"
    unfolding eff using f[THEN conjunct1, symmetric] f[THEN conjunct2] by this+
  from sync b(2) od st frame imgs fresh(1) cache fresh(2) show ?thesis
    by (intro conjI)
qed

text \<open>
  The sample bucket, from 2025-04-18 to the day before: the one image of 2025-04-18
  is dropped, the metadata of \<^verbatim>\<open>harbour.PNG\<close> is asked for, and when it arrives the images
  and the cache hold that image alone.
\<close>

theorem C6_date_change_witness:
  "images mounted =
     [\<lparr>key = ''sunrise.jpg'', lastModified = ''2025-04-18T10:00:00.000Z'',
       sizeBytes = Some 20480, contentType = ''image/jpeg''\<rparr>] \<and>
   images (fst (setSelectedDateBegin sampleEnv (Some (Date 1744905600000)) mounted)) = [] \<and>
   metadataCache (fst (setSelectedDateBegin sampleEnv (Some (Date 1744905600000)) mounted)) =
     Map.empty \<and>
   page (fst (setSelectedDateBegin sampleEnv (Some (Date 1744905600000)) mounted)) = 1 \<and>
   objects (fst (setSelectedDateBegin sampleEnv (Some (Date 1744905600000)) mounted)) =
     objects mounted \<and>
   snd (setSelectedDateBegin sampleEnv (Some (Date 1744905600000)) mounted) =
     Some (InitialImages [\<lparr>key = ''harbour.PNG'', lastModified = ''2025-04-17T12:00:00.000Z''\<rparr>]
            False) \<and>
   images (setSelectedDate sampleEnv (Some (Date 1744905600000)) mounted) =
     [\<lparr>key = ''harbour.PNG'', lastModified = ''2025-04-17T12:00:00.000Z'',
       sizeBytes = Some 51200, contentType = ''unknown''\<rparr>] \<and>
   displayedImages (setSelectedDate sampleEnv (Some (Date 1744905600000)) mounted) =
     images (setSelectedDate sampleEnv (Some (Date 1744905600000)) mounted) \<and>
   dom (metadataCache (setSelectedDate sampleEnv (Some (Date 1744905600000)) mounted)) =
     {''harbour.PNG''} \<and>
   objects (setSelectedDate sampleEnv (Some (Date 1744905600000)) mounted) = objects mounted \<and>
   uniqueDates (setSelectedDate sampleEnv (Some (Date 1744905600000)) mounted) =
     uniqueDates mounted"
proof -
  let ?d = "Some (Date 1744905600000)"
  have change: "?d \<noteq> None \<or> selectedDate mounted \<noteq> None"
    by simp
  note inst = C6_date_change[of ?d mounted sampleEnv, OF change]
  have ne: "objects mounted \<noteq> []"
    by (simp add: mounted_def)
  have od: "objectsToDisplay sampleEnv (mounted\<lparr>selectedDate := ?d\<rparr>) =
      [\<lparr>key = ''harbour.PNG'', lastModified = ''2025-04-17T12:00:00.000Z''\<rparr>]"
    using sample_yesterday[of "\<lparr>key = k, lastModified = l\<rparr>" for k l]
    by (simp add: objectsToDisplay_def mounted_def)
  have batch: "take batchSize (objectsToDisplay sampleEnv (mounted\<lparr>selectedDate := ?d\<rparr>)) =
      [\<lparr>key = ''harbour.PNG'', lastModified = ''2025-04-17T12:00:00.000Z''\<rparr>]"
    "(batchSize < length (objectsToDisplay sampleEnv (mounted\<lparr>selectedDate := ?d\<rparr>))) = False"
    by (simp_all add: od batchSize_def)
  have fm: "fetchMetadata sampleEnv Map.empty
        [\<lparr>key = ''harbour.PNG'', lastModified = ''2025-04-17T12:00:00.000Z''\<rparr>] =
      ([\<lparr>key = ''harbour.PNG'', lastModified = ''2025-04-17T12:00:00.000Z'',
         sizeBytes = Some 51200, contentType = ''unknown''\<rparr>],
       [''harbour.PNG'' \<mapsto>
          \<lparr>key = ''harbour.PNG'', lastModified = ''2025-04-17T12:00:00.000Z'',
           sizeBytes = Some 51200, contentType = ''unknown''\<rparr>],
       [])"
    by (simp add: sample_probes)
  from inst have "images (fst (setSelectedDateBegin sampleEnv ?d mounted)) = [] \<and>
      metadataCache (fst (setSelectedDateBegin sampleEnv ?d mounted)) = Map.empty \<and>
      page (fst (setSelectedDateBegin sampleEnv ?d mounted)) = 1 \<and>
      objects (fst (setSelectedDateBegin sampleEnv ?d mounted)) = objects mounted \<and>
      displayedImages (setSelectedDate sampleEnv ?d mounted) =
        images (setSelectedDate sampleEnv ?d mounted) \<and>
      objects (setSelectedDate sampleEnv ?d mounted) = objects mounted \<and>
      uniqueDates (setSelectedDate sampleEnv ?d mounted) = uniqueDates mounted"
    by blast
  moreover from inst have "snd (setSelectedDateBegin sampleEnv ?d mounted) =
       (if objects mounted = [] then None
        else Some (InitialImages
               (take batchSize (objectsToDisplay sampleEnv (mounted\<lparr>selectedDate := ?d\<rparr>)))
               (batchSize < length (objectsToDisplay sampleEnv (mounted\<lparr>selectedDate := ?d\<rparr>)))))"
    by (elim conjE)
  then have "snd (setSelectedDateBegin sampleEnv ?d mounted) =
     Some (InitialImages [\<lparr>key = ''harbour.PNG'', lastModified = ''2025-04-17T12:00:00.000Z''\<rparr>]
            False)"
    by (simp only: batch ne if_False)
  moreover from inst have "images (setSelectedDate sampleEnv ?d mounted) =
       (if objects mounted = [] then []
        else fst (fetchMetadata sampleEnv Map.empty
               (take batchSize (objectsToDisplay sampleEnv (mounted\<lparr>selectedDate := ?d\<rparr>)))))"
    by (elim conjE)
  then have "images (setSelectedDate sampleEnv ?d mounted) =
     [\<lparr>key = ''harbour.PNG'', lastModified = ''2025-04-17T12:00:00.000Z'',
       sizeBytes = Some 51200, contentType = ''unknown''\<rparr>]"
    by (simp only: batch ne if_False fm fst_conv)
  moreover from inst have "metadataCache (setSelectedDate sampleEnv ?d mounted) =
       (if objects mounted = [] then Map.empty
        else fst (snd (fetchMetadata sampleEnv Map.empty
               (take batchSize (objectsToDisplay sampleEnv (mounted\<lparr>selectedDate := ?d\<rparr>))))))"
    by (elim conjE)
  then have "dom (metadataCache (setSelectedDate sampleEnv ?d mounted)) = {''harbour.PNG''}"
    by (simp only: batch ne if_False fm fst_conv snd_conv) simp
  moreover have "images mounted =
     [\<lparr>key = ''sunrise.jpg'', lastModified = ''2025-04-18T10:00:00.000Z'',
       sizeBytes = Some 20480, contentType = ''image/jpeg''\<rparr>]"
    by (simp add: mounted_def)
  ultimately show ?thesis
    by (simp only: simp_thms)
qed

section \<open>Claim C8: newest first\<close>

text \<open>
  Where every element has a valid timestamp, the sort with the comparison function of
  the source is the stable insertion sort of the library by the negated timestamp.
\<close>

lemma set_insertBy: "set (insertBy cmp x ys) = insert x (set ys)"
  by (induction ys) auto

lemma set_sortBy: "set (sortBy cmp xs) = set xs"
  by (induction xs) (simp_all add: sortBy_def set_insertBy)

lemma insertBy_newestFirst:
  assumes "timeOf env x \<noteq> None" and "\<forall>y \<in> set ys. timeOf env y \<noteq> None"
  shows "insertBy (newestFirst env) x ys = insort_key (\<lambda>obj. - the (timeOf env obj)) x ys"
  using assms by (induction ys) (auto simp: newestFirst_def)

lemma sortBy_newestFirst:
  assumes "\<forall>x \<in> set xs. timeOf env x \<noteq> None"
  shows "sortBy (newestFirst env) xs = sort_key (\<lambda>obj. - the (timeOf env obj)) xs"
  using assms
proof (induction xs)
  case Nil
  show ?case
    by (simp add: sortBy_def)
next
  case (Cons x xs)
  then have IH: "sortBy (newestFirst env) xs = sort_key (\<lambda>obj. - the (timeOf env obj)) xs"
    by simp
  have "\<forall>y \<in> set (sort_key (\<lambda>obj. - the (timeOf env obj)) xs). timeOf env y \<noteq> None"
    using Cons.prems by simp
  from insertBy_newestFirst[OF _ this, of x] Cons.prems IH show ?case
    by (simp add: sortBy_def sort_key_def)
qed

lemma dayStamps_valid:
  "dayStamps env xs = Inr ts \<Longrightarrow> \<forall>x \<in> set xs. timeOf env x \<noteq> None"
proof (induction xs arbitrary: ts)
  case Nil
  show ?case
    by simp
next
  case (Cons x xs)
  from Cons.prems obtain t ts' where t: "normalizeDate env (dateParse env (lastModified x)) = Date t"
    and rest: "dayStamps env xs = Inr ts'"
    by (auto split: Date.splits sum.splits)
  from t have "timeOf env x \<noteq> None"
    by (cases "dateParse env (lastModified x)") (simp_all add: timeOf_def)
  with Cons.IH[OF rest] show ?case
    by simp
qed

lemma sorted_newestFirst:
  assumes "\<forall>x \<in> set xs. timeOf env x \<noteq> None"
  shows "sorted_wrt (newerOrEqual env) (sortBy (newestFirst env) xs)"
proof -
  let ?f = "\<lambda>obj. - the (timeOf env obj)"
  have "sorted (map ?f (sort_key ?f xs))"
    by (rule sorted_sort_key)
  then have "sorted_wrt (\<lambda>a b. ?f a \<le> ?f b) (sort_key ?f xs)"
    by (simp only: sorted_map)
  then have "sorted_wrt (newerOrEqual env) (sort_key ?f xs)"
  proof (rule sorted_wrt_mono_rel[rotated])
    fix a b
    assume "a \<in> set (sort_key ?f xs)" "b \<in> set (sort_key ?f xs)" "?f a \<le> ?f b"
    moreover from this assms obtain ta tb where "timeOf env a = Some ta" "timeOf env b = Some tb"
      by fastforce
    ultimately show "newerOrEqual env a b"
      by (simp add: newerOrEqual_def)
  qed
  then show ?thesis
    by (simp only: sortBy_newestFirst[OF assms])
qed

lemma stable_newestFirst:
  assumes "\<forall>x \<in> set xs. timeOf env x \<noteq> None"
  shows "filter (\<lambda>obj. timeOf env obj = Some t) (sortBy (newestFirst env) xs) =
         filter (\<lambda>obj. timeOf env obj = Some t) xs"
proof -
  let ?f = "\<lambda>obj. - the (timeOf env obj)"
  have eq: "(timeOf env obj = Some t) = (?f obj = - t)" if "obj \<in> set xs" for obj
    using assms that by auto
  have "filter (\<lambda>obj. timeOf env obj = Some t) (sort_key ?f xs) =
      filter (\<lambda>obj. ?f obj = - t) (sort_key ?f xs)"
    by (rule filter_cong) (simp_all add: eq)
  also have "\<dots> = filter (\<lambda>obj. ?f obj = - t) xs"
    by (rule sort_key_stable)
  also have "\<dots> = filter (\<lambda>obj. timeOf env obj = Some t) xs"
    by (rule filter_cong) (simp_all add: eq)
  finally show ?thesis
    by (simp only: sortBy_newestFirst[OF assms])
qed

text \<open>What a listing that is committed has been through.\<close>

lemma listAll_committed:
  assumes "listAll fuel env = Some (Inr (objs, dates))"
  obtains objectList where "listObjects fuel env [] None = Some (Inr objectList)"
    and "objs = imageObjects env objectList"
    and "\<forall>x \<in> set (filter (\<lambda>obj. isImageKey (key obj)) objectList). timeOf env x \<noteq> None"
proof -
  from assms obtain objectList ts where l: "listObjects fuel env [] None = Some (Inr objectList)"
    and o: "objs = imageObjects env objectList"
    and d: "dayStamps env (imageObjects env objectList) = Inr ts"
    by (auto simp: listAll_def Let_def split: option.splits sum.splits if_splits)
  from dayStamps_valid[OF d]
  have "\<forall>x \<in> set (filter (\<lambda>obj. isImageKey (key obj)) objectList). timeOf env x \<noteq> None"
    by (simp add: imageObjects_def set_sortBy)
  with l o that show thesis
    by blast
qed

lemma listAll_sorted:
  assumes "listAll fuel env = Some (Inr (objs, dates))"
  shows "sorted_wrt (newerOrEqual env) objs"
proof -
  from assms obtain objectList where "objs = imageObjects env objectList"
    and "\<forall>x \<in> set (filter (\<lambda>obj. isImageKey (key obj)) objectList). timeOf env x \<noteq> None"
    by (rule listAll_committed)
  then show ?thesis
    by (simp only: imageObjects_def sorted_newestFirst)
qed

lemma listAll_stable:
  assumes "listAll fuel env = Some (Inr (objs, dates))"
    and "listObjects fuel env [] None = Some (Inr objectList)"
  shows "filter (\<lambda>obj. timeOf env obj = Some t) objs =
         filter (\<lambda>obj. timeOf env obj = Some t) (filter (\<lambda>obj. isImageKey (key obj)) objectList)"
proof -
  from assms(1) obtain objectList' where "listObjects fuel env [] None = Some (Inr objectList')"
    and o: "objs = imageObjects env objectList'"
    and v: "\<forall>x \<in> set (filter (\<lambda>obj. isImageKey (key obj)) objectList'). timeOf env x \<noteq> None"
    by (rule listAll_committed)
  with assms(2) have "objectList' = objectList"
    by simp
  with o v show ?thesis
    by (simp only: imageObjects_def stable_newestFirst)
qed


text \<open>
  The invariant of the gallery does not depend on the store and the clock, holds once
  the gallery is mounted on a listing with distinct keys, and is kept by every event.
\<close>

lemma galleryInvariant_cong:
  assumes "sameCalendar env env'"
  shows "galleryInvariant env' s = galleryInvariant env s"
proof -
  have "newerOrEqual env' a b = newerOrEqual env a b" for a b :: ObjectInfo
    using assms by (simp add: newerOrEqual_def timeOf_def sameCalendar_def cong: option.case_cong)
  then have "sorted_wrt (newerOrEqual env') (objects s) = sorted_wrt (newerOrEqual env) (objects s)"
    by presburger
  then show ?thesis
    by (simp add: galleryInvariant_def sameCalendar_objectsToDisplay[OF assms])
qed

lemma sorted_wrt_subseq:
  "subseq xs ys \<Longrightarrow> sorted_wrt R ys \<Longrightarrow> sorted_wrt R xs"
proof (induction rule: list_emb.induct)
  case (list_emb_Nil ys)
  show ?case
    by simp
next
  case (list_emb_Cons xs ys y)
  then show ?case
    by simp
next
  case (list_emb_Cons2 x y xs ys)
  have "set xs \<subseteq> set ys"
    using list_emb_Cons2.hyps(2) by (auto elim: list_emb_set)
  with list_emb_Cons2 show ?case
    by auto
qed

lemma toObject_eq:
  "toObject \<lparr>key = key obj, lastModified = lastModified obj, sizeBytes = n, contentType = c\<rparr> =
   (obj :: ObjectInfo)"
  by (simp add: toObject_def)

lemma probe_mirror:
  assumes "distinct (map key objs)" and "obj \<in> set objs" and "cacheMirrors objs cache"
  shows "(\<forall>i. enrich env cache obj = Some i \<longrightarrow> toObject i = obj) \<and>
         cacheMirrors objs (fst (snd (probe env cache obj)))"
proof (cases "cache (key obj)")
  case (Some img)
  with assms(3) have "key img = key obj" "toObject img \<in> set objs"
    by (auto simp: cacheMirrors_def)
  moreover have "key (toObject img) = key img"
    by (simp add: toObject_def)
  moreover have "inj_on key (set objs)"
    using assms(1) by (simp add: distinct_map)
  ultimately have "toObject img = obj"
    using assms(2) by (auto dest: inj_onD)
  with Some assms(3) show ?thesis
    by (simp add: enrich_def probe_def)
next
  case None
  with assms(2,3) show ?thesis
    by (auto simp: enrich_def probe_def Let_def cacheMirrors_def toObject_eq
        split: fetched.splits)
qed

lemma fetchMetadata_subseq:
  assumes "distinct (map key objs)" and "set batch \<subseteq> set objs" and "cacheMirrors objs cache"
  shows "subseq (map toObject (fst (fetchMetadata env cache batch))) batch \<and>
         cacheMirrors objs (fst (snd (fetchMetadata env cache batch)))"
  using assms(2,3)
proof (induction batch arbitrary: cache)
  case Nil
  then show ?case
    by simp
next
  case (Cons obj batch)
  let ?c = "fst (snd (probe env cache obj))"
  from Cons.prems have "obj \<in> set objs" and sub: "set batch \<subseteq> set objs"
    by simp_all
  from probe_mirror[OF assms(1) this(1) Cons.prems(2), of env]
  have one: "\<forall>i. enrich env cache obj = Some i \<longrightarrow> toObject i = obj"
    and c: "cacheMirrors objs ?c"
    by simp_all
  from Cons.IH[OF sub c] one show ?case
    by (simp add: fetchMetadata_Cons fetchMetadata_Cons_cache list_emb_Cons
        del: fetchMetadata.simps split: option.splits)
qed

lemma galleryInvariant_selectedDateEffect:
  assumes "sorted_wrt (newerOrEqual env) (objects s)" and "distinct (map key (objects s))"
  shows "galleryInvariant env (selectedDateEffect env s)"
proof (cases "0 < length (objects s)")
  case False
  with assms show ?thesis
    by (simp add: selectedDateEffect_def resetDisplay_def galleryInvariant_def cacheMirrors_def)
next
  case True
  let ?r = "resetDisplay s"
  let ?batch = "slice 0 batchSize (objectsToDisplay env ?r)"
  have r: "objects ?r = objects s" "metadataCache ?r = Map.empty" "page ?r = 1"
    by (simp_all add: resetDisplay_def)
  have "set ?batch \<subseteq> set (objects s)"
    using set_slice[of 0 batchSize "objectsToDisplay env ?r"] set_objectsToDisplay[of env ?r]
    by (simp add: r)
  moreover have "cacheMirrors (objects s) Map.empty"
    by (simp add: cacheMirrors_def)
  ultimately have "subseq (map toObject (fst (fetchMetadata env Map.empty ?batch))) ?batch \<and>
      cacheMirrors (objects s) (fst (snd (fetchMetadata env Map.empty ?batch)))"
    by (rule fetchMetadata_subseq[OF assms(2)])
  moreover have "objectsToDisplay env (fetchInitialImages env ?r) = objectsToDisplay env ?r"
    by (rule objectsToDisplay_cong) (simp_all add: fetchInitialImages_frame)
  ultimately have "galleryInvariant env (fetchInitialImages env ?r)"
    using assms
    by (simp add: galleryInvariant_def fetchInitialImages_frame r)
      (simp add: fetchInitialImages_def Let_def r slice_def split: prod.splits)
  with True show ?thesis
    by (simp add: selectedDateEffect_def r)
qed

lemma galleryInvariant_loadMoreImages:
  assumes "galleryInvariant env s"
  shows "galleryInvariant env (loadMoreImages env s)"
proof (cases "\<not> hasMore s \<or> loading s")
  case True
  with assms show ?thesis
    by (simp add: loadMoreImages_def)
next
  case False
  let ?d = "objectsToDisplay env s"
  let ?batch = "slice (page s * batchSize) ((page s + 1) * batchSize) ?d"
  from assms have inv: "sorted_wrt (newerOrEqual env) (objects s)" "distinct (map key (objects s))"
    "cacheMirrors (objects s) (metadataCache s)"
    "subseq (map toObject (images s)) (take (page s * batchSize) ?d)"
    by (simp_all add: galleryInvariant_def)
  have "set ?batch \<subseteq> set (objects s)"
    using set_slice[of "page s * batchSize" "(page s + 1) * batchSize" ?d]
      set_objectsToDisplay[of env s]
    by simp
  from fetchMetadata_subseq[OF inv(2) this inv(3), of env]
  have new: "subseq (map toObject (fst (fetchMetadata env (metadataCache s) ?batch))) ?batch"
    and c: "cacheMirrors (objects s) (fst (snd (fetchMetadata env (metadataCache s) ?batch)))"
    by simp_all
  have "take ((page s + 1) * batchSize) ?d = take (page s * batchSize) ?d @ ?batch"
    using take_add[of "page s * batchSize" batchSize ?d] by (simp add: slice_def add.commute)
  with inv(4) new
  have "subseq (map toObject (images s @ fst (fetchMetadata env (metadataCache s) ?batch)))
      (take ((page s + 1) * batchSize) ?d)"
    by (simp add: list_emb_append_mono)
  moreover have "objectsToDisplay env (loadMoreImages env s) = ?d"
    by (rule objectsToDisplay_loadMoreImages)
  moreover have "page (loadMoreImages env s) = page s + 1"
    "images (loadMoreImages env s) = images s @ fst (fetchMetadata env (metadataCache s) ?batch)"
    "metadataCache (loadMoreImages env s) = fst (snd (fetchMetadata env (metadataCache s) ?batch))"
    using False by (simp_all add: loadMoreImages_def Let_def split: prod.splits)
  ultimately show ?thesis
    using inv(1,2) c by (simp add: galleryInvariant_def loadMoreImages_frame)
qed

lemma galleryInvariant_setSelectedDate:
  assumes "galleryInvariant env s"
  shows "galleryInvariant env (setSelectedDate env d s)"
proof -
  have "galleryInvariant env (selectedDateEffect env (s\<lparr>selectedDate := d\<rparr>))"
    using assms by (intro galleryInvariant_selectedDateEffect) (simp_all add: galleryInvariant_def)
  with assms show ?thesis
    by (simp add: setSelectedDate_def)
qed

lemma galleryInvariant_react:
  assumes "galleryInvariant env s"
  shows "galleryInvariant env (react env ev s)"
  using assms
  by (cases ev)
    (simp_all add: handlePreviousDate_def handleNextDate_def handleClear_def
      galleryInvariant_setSelectedDate galleryInvariant_loadMoreImages split: option.splits)

lemma galleryInvariant_run:
  "galleryInvariant env s \<Longrightarrow> galleryInvariant env (run env s evs)"
proof (induction evs arbitrary: s)
  case Nil
  then show ?case
    by simp
next
  case (Cons e evs)
  obtain h c ev where e: "e = (h, c, ev)"
    by (cases e)
  let ?env = "env\<lparr>fetchHead := h, now := c\<rparr>"
  from Cons.prems have "galleryInvariant ?env s"
    by (simp only: galleryInvariant_cong[OF sameCalendar_step])
  then have "galleryInvariant ?env (react ?env ev s)"
    by (rule galleryInvariant_react)
  then have "galleryInvariant env (react ?env ev s)"
    by (simp only: galleryInvariant_cong[OF sameCalendar_step])
  from Cons.IH[OF this] e show ?case
    by simp
qed

lemma objects_react: "objects (react env ev s) = objects s"
  by (cases ev)
    (simp_all add: setSelectedDate_def handlePreviousDate_def handleNextDate_def handleClear_def
      selectedDateEffect_frame loadMoreImages_frame split: option.splits)

lemma objects_run: "objects (run env s evs) = objects s"
  by (induction evs arbitrary: s) (auto simp: objects_react simp del: react.simps)

lemma mount_objects:
  assumes "mount fuel env = Some s0"
  shows "sorted_wrt (newerOrEqual env) (objects s0) \<and>
     (\<forall>objs dates. listAll fuel env = Some (Inr (objs, dates)) \<longrightarrow> objects s0 = objs)"
proof (cases "listAll fuel env")
  case None
  with assms show ?thesis
    by (simp add: mount_def fetchObjects_def)
next
  case (Some r)
  show ?thesis
  proof (cases r)
    case (Inl e)
    with Some assms have "objects s0 = []"
      by (auto simp: mount_def fetchObjects_def selectedDateEffect_frame initialState_def)
    with Some Inl show ?thesis
      by simp
  next
    case (Inr committed)
    obtain objs dates where c: "committed = (objs, dates)"
      by (cases committed)
    with Some Inr assms have "objects s0 = objs"
      by (auto simp: mount_def fetchObjects_def selectedDateEffect_frame)
    with Some Inr c listAll_sorted[of fuel env objs dates] show ?thesis
      by simp
  qed
qed

lemma galleryInvariant_mount:
  assumes "mount fuel env = Some s0" and "distinct (map key (objects s0))"
  shows "galleryInvariant env s0"
proof -
  let ?i = "selectedDateEffect env (initialState env)"
  have i: "images ?i = []" "metadataCache ?i = Map.empty"
    by (simp_all add: selectedDateEffect_def resetDisplay_def initialState_def)
  from assms(1) obtain s1 where s1: "fetchObjects fuel env ?i = Some s1"
    by (auto simp: mount_def split: option.splits)
  then have f: "images s1 = []" "metadataCache s1 = Map.empty"
    using i by (auto simp: fetchObjects_def split: option.splits sum.splits)
  from assms(1) s1 have "s0 = s1 \<or> s0 = selectedDateEffect env s1"
    by (auto simp: mount_def split: option.splits sum.splits)
  then show ?thesis
  proof
    assume "s0 = s1"
    with f assms(2) mount_objects[OF assms(1)] show ?thesis
      by (simp add: galleryInvariant_def cacheMirrors_def)
  next
    assume e: "s0 = selectedDateEffect env s1"
    then have "objects s1 = objects s0"
      by (simp add: selectedDateEffect_frame)
    with assms(2) mount_objects[OF assms(1)] show ?thesis
      unfolding e by (intro galleryInvariant_selectedDateEffect) simp_all
  qed
qed

lemma newerOrEqual_toObject:
  "newerOrEqual env (toObject a) (toObject b) = newerOrEqual env a b"
  by (simp add: newerOrEqual_def timeOf_def toObject_def cong: option.case_cong)

lemma galleryInvariant_images_sorted:
  assumes "galleryInvariant env s"
  shows "sorted_wrt (newerOrEqual env) (images s)"
proof -
  from assms have "sorted_wrt (newerOrEqual env) (objectsToDisplay env s)"
    by (auto simp: galleryInvariant_def objectsToDisplay_def sorted_wrt_filter split: option.splits)
  then have "sorted_wrt (newerOrEqual env) (take (page s * batchSize) (objectsToDisplay env s))"
    by (rule sorted_wrt_take)
  with assms have "sorted_wrt (newerOrEqual env) (map toObject (images s))"
    by (auto simp: galleryInvariant_def intro: sorted_wrt_subseq)
  then show ?thesis
    by (simp add: sorted_wrt_map newerOrEqual_toObject)
qed

text \<open>
  What holds of the order. The objects committed by the listing are sorted newest
  first at every moment, and the initial sort is stable: the objects of one timestamp
  keep the order in which the listing delivered them. When the keys of the listing are
  distinct and every handler runs to its end before the next event, the images retained
  are sorted newest first as well, and every page appended by \<^verbatim>\<open>loadMoreImages\<close> keeps
  them sorted.
\<close>

lemma sorted_when_sequential:
  assumes "mount fuel env = Some s0"
  shows "sorted_wrt (newerOrEqual env) (objects (run env s0 evs)) \<and>
     (\<forall>objectList objs dates t.
        listObjects fuel env [] None = Some (Inr objectList) \<and>
        listAll fuel env = Some (Inr (objs, dates)) \<longrightarrow>
        objects s0 = objs \<and>
        filter (\<lambda>obj. timeOf env obj = Some t) objs =
          filter (\<lambda>obj. timeOf env obj = Some t)
            (filter (\<lambda>obj. isImageKey (key obj)) objectList)) \<and>
     (distinct (map key (objects s0)) \<longrightarrow>
        sorted_wrt (newerOrEqual env) (images (run env s0 evs)) \<and>
        (\<forall>i. Suc i < length (images (run env s0 evs)) \<longrightarrow>
           newerOrEqual env (images (run env s0 evs) ! i) (images (run env s0 evs) ! Suc i)) \<and>
        (\<forall>h c. sorted_wrt (newerOrEqual env)
           (images (loadMoreImages (env\<lparr>fetchHead := h, now := c\<rparr>) (run env s0 evs)))))"
proof (intro conjI allI impI)
  show "sorted_wrt (newerOrEqual env) (objects (run env s0 evs))"
    using mount_objects[OF assms] by (simp add: objects_run)
next
  fix objectList objs dates t
  assume a: "listObjects fuel env [] None = Some (Inr objectList) \<and>
      listAll fuel env = Some (Inr (objs, dates))"
  with mount_objects[OF assms] show "objects s0 = objs"
    by simp
  from a listAll_stable[of fuel env objs dates objectList t]
  show "filter (\<lambda>obj. timeOf env obj = Some t) objs =
      filter (\<lambda>obj. timeOf env obj = Some t) (filter (\<lambda>obj. isImageKey (key obj)) objectList)"
    by simp
next
  assume "distinct (map key (objects s0))"
  then have inv: "galleryInvariant env (run env s0 evs)"
    by (intro galleryInvariant_run galleryInvariant_mount[OF assms])
  then show sorted: "sorted_wrt (newerOrEqual env) (images (run env s0 evs))"
    by (rule galleryInvariant_images_sorted)
  {
    fix i
    assume "Suc i < length (images (run env s0 evs))"
    with sorted
    show "newerOrEqual env (images (run env s0 evs) ! i) (images (run env s0 evs) ! Suc i)"
      by (simp add: sorted_wrt_nth_less)
  }
  fix h c
  let ?env = "env\<lparr>fetchHead := h, now := c\<rparr>"
  from inv have "galleryInvariant ?env (run env s0 evs)"
    by (simp only: galleryInvariant_cong[OF sameCalendar_step])
  then have "galleryInvariant ?env (loadMoreImages ?env (run env s0 evs))"
    by (rule galleryInvariant_loadMoreImages)
  then have "galleryInvariant env (loadMoreImages ?env (run env s0 evs))"
    by (simp only: galleryInvariant_cong[OF sameCalendar_step])
  then show "sorted_wrt (newerOrEqual env) (images (loadMoreImages ?env (run env s0 evs)))"
    by (rule galleryInvariant_images_sorted)
qed


text \<open>Images have the timestamps of their objects.\<close>

lemma timeOf_imageOf: "timeOf env (imageOf h obj) = timeOf env obj"
  by (simp add: timeOf_def imageOf_def)

lemma stale_page_session:
  assumes "objects s0 = albumObjects" and "selectedDate s0 \<noteq> None"
  shows "suspended (play albumEnv \<lparr>app = s0, suspended = []\<rparr> stalePage) = []"
    and "images (app (play albumEnv \<lparr>app = s0, suspended = []\<rparr> stalePage)) =
           map (imageOf albumHead) (map (albumPhoto ''2025-04-16T08:00:00.000Z'') [35..<45]) @
           map (imageOf albumHead)
             (map (albumPhoto ''2025-04-17T12:00:00.000Z'') [20..<35] @
              map (albumPhoto ''2025-04-16T08:00:00.000Z'') [35..<40])"
    and "displayedImages (app (play albumEnv \<lparr>app = s0, suspended = []\<rparr> stalePage)) =
           images (app (play albumEnv \<lparr>app = s0, suspended = []\<rparr> stalePage))"
    and "selectedDate (app (play albumEnv \<lparr>app = s0, suspended = []\<rparr> stalePage)) =
           Some (Date 1744761600000)"
    and "page (app (play albumEnv \<lparr>app = s0, suspended = []\<rparr> stalePage)) = 2"
    and "objects (app (play albumEnv \<lparr>app = s0, suspended = []\<rparr> stalePage)) = albumObjects"
proof -
  let ?P1 = "map (albumPhoto ''2025-04-18T10:00:00.000Z'') [0..<20]"
  let ?P2 = "map (albumPhoto ''2025-04-17T12:00:00.000Z'') [20..<35] @
             map (albumPhoto ''2025-04-16T08:00:00.000Z'') [35..<40]"
  let ?F = "map (albumPhoto ''2025-04-16T08:00:00.000Z'') [35..<45]"
  let ?mk = "imageOf albumHead"
  define t1 where "t1 = (resetDisplay (s0\<lparr>selectedDate := None\<rparr>))\<lparr>loading := True\<rparr>"
  define t2 where "t2 = resume albumEnv (InitialImages ?P1 True) t1"
  define t3 where "t3 = t2\<lparr>loading := True\<rparr>"
  define t4 where
    "t4 = (resetDisplay (t3\<lparr>selectedDate := Some (Date 1744761600000)\<rparr>))\<lparr>loading := True\<rparr>"
  define t5 where "t5 = resume albumEnv (InitialImages ?F False) t4"
  define t6 where "t6 = resume albumEnv (MoreImages ?P2 2 True) t5"
  have long: "batchSize < length albumObjects" "0 < length albumObjects"
    "\<not> batchSize < length ?F" "(1 + 1) * batchSize < length albumObjects"
    by (simp_all add: album_lengths batchSize_def)
  have r1: "objects (resetDisplay (s0\<lparr>selectedDate := None\<rparr>)) = albumObjects"
    "selectedDate (resetDisplay (s0\<lparr>selectedDate := None\<rparr>)) = None"
    using assms(1) by (simp_all add: resetDisplay_def)
  have b1: "reactBegin albumEnv (DatePickerChange None) s0 = (t1, Some (InitialImages ?P1 True))"
    using assms(2) long album_toDisplay(1)[OF r1]
    by (simp add: setSelectedDateBegin_def selectedDateEffectBegin_def fetchInitialImagesBegin_def
        r1 album_pages t1_def Let_def)
  have f1: "objects t1 = albumObjects" "selectedDate t1 = None" "page t1 = 1"
    "cacheServes ?mk albumObjects (metadataCache t1)"
    using assms(1) by (simp_all add: t1_def resetDisplay_def cacheServes_def)
  have f2: "objects t2 = albumObjects" "selectedDate t2 = None" "page t2 = 1" "hasMore t2"
    "\<not> loading t2" "images t2 = map ?mk ?P1" "displayedImages t2 = map ?mk ?P1"
    "cacheServes ?mk albumObjects (metadataCache t2)"
    unfolding t2_def
    using album_resume[OF album_subsets(1) f1(4)] f1(1-3) by (simp_all add: resume_frame del: resume.simps)
  have b3: "reactBegin albumEnv ScrollToSentinel t2 = (t3, Some (MoreImages ?P2 2 True))"
    using f2(3-5) long album_toDisplay(1)[OF f2(1,2)]
    by (simp add: loadMoreImagesBegin_def album_pages t3_def Let_def)
  have f3: "objects t3 = albumObjects" "selectedDate t3 = None"
    using f2(1,2) by (simp_all add: t3_def)
  have r4: "objects (resetDisplay (t3\<lparr>selectedDate := Some (Date 1744761600000)\<rparr>)) = albumObjects"
    "selectedDate (resetDisplay (t3\<lparr>selectedDate := Some (Date 1744761600000)\<rparr>)) =
       Some (Date 1744761600000)"
    using f3(1) by (simp_all add: resetDisplay_def)
  have b4: "reactBegin albumEnv (DatePickerChange (Some (Date 1744761600000))) t3 =
      (t4, Some (InitialImages ?F False))"
    using long album_toDisplay(3)[OF r4]
    by (simp add: setSelectedDateBegin_def selectedDateEffectBegin_def fetchInitialImagesBegin_def
        r4 slice_def batchSize_def t4_def Let_def)
  have f4: "objects t4 = albumObjects" "selectedDate t4 = Some (Date 1744761600000)"
    "page t4 = 1" "images t4 = []" "displayedImages t4 = []"
    "cacheServes ?mk albumObjects (metadataCache t4)"
    using f3(1) by (simp_all add: t4_def resetDisplay_def cacheServes_def)
  have f5: "objects t5 = albumObjects" "selectedDate t5 = Some (Date 1744761600000)"
    "images t5 = map ?mk ?F" "displayedImages t5 = map ?mk ?F"
    "cacheServes ?mk albumObjects (metadataCache t5)"
    unfolding t5_def
    using album_resume[OF album_subsets(3) f4(6)] f4(1,2) by (simp_all add: resume_frame del: resume.simps)
  have f6: "objects t6 = albumObjects" "selectedDate t6 = Some (Date 1744761600000)"
    "images t6 = map ?mk ?F @ map ?mk ?P2" "displayedImages t6 = map ?mk ?F @ map ?mk ?P2"
    "page t6 = 2"
    unfolding t6_def
    using album_resume[OF album_subsets(2) f5(5)] f5(1-4) by (simp_all add: resume_frame del: resume.simps)
  have s1: "perform albumEnv (UserEvent (DatePickerChange None)) \<lparr>app = s0, suspended = []\<rparr> =
      \<lparr>app = t1, suspended = [InitialImages ?P1 True]\<rparr>"
    by (simp add: b1 del: reactBegin.simps)
  have s2: "perform albumEnv (Settle 0) \<lparr>app = t1, suspended = [InitialImages ?P1 True]\<rparr> =
      \<lparr>app = t2, suspended = []\<rparr>"
    by (simp add: t2_def del: resume.simps)
  have s3: "perform albumEnv (UserEvent ScrollToSentinel) \<lparr>app = t2, suspended = []\<rparr> =
      \<lparr>app = t3, suspended = [MoreImages ?P2 2 True]\<rparr>"
    by (simp add: b3 del: reactBegin.simps)
  have s4: "perform albumEnv (UserEvent (DatePickerChange (Some (Date 1744761600000))))
        \<lparr>app = t3, suspended = [MoreImages ?P2 2 True]\<rparr> =
      \<lparr>app = t4, suspended = [MoreImages ?P2 2 True, InitialImages ?F False]\<rparr>"
    by (simp add: b4 del: reactBegin.simps)
  have s5: "perform albumEnv (Settle 1)
        \<lparr>app = t4, suspended = [MoreImages ?P2 2 True, InitialImages ?F False]\<rparr> =
      \<lparr>app = t5, suspended = [MoreImages ?P2 2 True]\<rparr>"
    by (simp add: t5_def del: resume.simps)
  have s6: "perform albumEnv (Settle 0) \<lparr>app = t5, suspended = [MoreImages ?P2 2 True]\<rparr> =
      \<lparr>app = t6, suspended = []\<rparr>"
    by (simp add: t6_def del: resume.simps)
  have "play albumEnv \<lparr>app = s0, suspended = []\<rparr> stalePage = \<lparr>app = t6, suspended = []\<rparr>"
    by (simp only: stalePage_def play.simps s1 s2 s3 s4 s5 s6)
  with f6 show
    "suspended (play albumEnv \<lparr>app = s0, suspended = []\<rparr> stalePage) = []"
    "images (app (play albumEnv \<lparr>app = s0, suspended = []\<rparr> stalePage)) =
           map (imageOf albumHead) (map (albumPhoto ''2025-04-16T08:00:00.000Z'') [35..<45]) @
           map (imageOf albumHead)
             (map (albumPhoto ''2025-04-17T12:00:00.000Z'') [20..<35] @
              map (albumPhoto ''2025-04-16T08:00:00.000Z'') [35..<40])"
    "displayedImages (app (play albumEnv \<lparr>app = s0, suspended = []\<rparr> stalePage)) =
           images (app (play albumEnv \<lparr>app = s0, suspended = []\<rparr> stalePage))"
    "selectedDate (app (play albumEnv \<lparr>app = s0, suspended = []\<rparr> stalePage)) =
           Some (Date 1744761600000)"
    "page (app (play albumEnv \<lparr>app = s0, suspended = []\<rparr> stalePage)) = 2"
    "objects (app (play albumEnv \<lparr>app = s0, suspended = []\<rparr> stalePage)) = albumObjects"
    by simp_all
qed

text \<open>
  C8: the retained collection is always sorted by \<open>lastModified\<close>, newest first, and
  every page appended keeps it so. \<^verbatim>\<open>loadMoreImages\<close> appends its page to whatever
  \<open>images\<close> holds when its metadata arrives, and nothing keeps the user from changing
  the date while it waits. On the album, mounted: all dates are picked and page 1
  arrives; the sentinel asks for page 2, the objects 20 to 39; before it arrives
  2025-04-16 is picked, and its first page, the objects 35 to 44, arrives; then page 2
  of all dates arrives and is appended. The images are then the objects 35 to 44
  followed by the objects 20 to 39: the tenth is of 2025-04-16 and the eleventh of
  2025-04-17, so the list is not sorted, and five keys occur twice, while the date
  selected is 2025-04-16. The object listing itself is still sorted. (The store of the
  album gives every request the same answer, so the images of a batch are the same
  at whatever moment its tasks read the cache.)
\<close>

theorem C8_stale_page:
  "map_option suspended afterStalePage = Some [] \<and>
   map_option (\<lambda>session. selectedDate (app session)) afterStalePage =
     Some (Some (Date 1744761600000)) \<and>
   map_option (\<lambda>session. map key (images (app session))) afterStalePage =
     Some [''photo-35.jpg'', ''photo-36.jpg'', ''photo-37.jpg'', ''photo-38.jpg'', ''photo-39.jpg'',
           ''photo-40.jpg'', ''photo-41.jpg'', ''photo-42.jpg'', ''photo-43.jpg'', ''photo-44.jpg'',
           ''photo-20.jpg'', ''photo-21.jpg'', ''photo-22.jpg'', ''photo-23.jpg'', ''photo-24.jpg'',
           ''photo-25.jpg'', ''photo-26.jpg'', ''photo-27.jpg'', ''photo-28.jpg'', ''photo-29.jpg'',
           ''photo-30.jpg'', ''photo-31.jpg'', ''photo-32.jpg'', ''photo-33.jpg'', ''photo-34.jpg'',
           ''photo-35.jpg'', ''photo-36.jpg'', ''photo-37.jpg'', ''photo-38.jpg'', ''photo-39.jpg''] \<and>
   map_option (\<lambda>session. map lastModified (take 2 (drop 9 (images (app session))))) afterStalePage =
     Some [''2025-04-16T08:00:00.000Z'', ''2025-04-17T12:00:00.000Z''] \<and>
   map_option (\<lambda>session. newerOrEqual albumEnv (images (app session) ! 9) (images (app session) ! 10))
     afterStalePage = Some False \<and>
   map_option (\<lambda>session. sorted_wrt (newerOrEqual albumEnv) (images (app session))) afterStalePage =
     Some False \<and>
   map_option (\<lambda>session. distinct (map key (images (app session)))) afterStalePage = Some False \<and>
   map_option (\<lambda>session. displayedImages (app session) = images (app session)) afterStalePage =
     Some True \<and>
   map_option (\<lambda>session. sorted_wrt (newerOrEqual albumEnv) (objects (app session))) afterStalePage =
     Some True"
proof -
  from album_mount obtain s0 where s0: "mount 1 albumEnv = Some s0"
    and o: "objects s0 = albumObjects" and d: "selectedDate s0 \<noteq> None"
    by auto
  let ?end = "play albumEnv \<lparr>app = s0, suspended = []\<rparr> stalePage"
  let ?imgs = "map (imageOf albumHead) (map (albumPhoto ''2025-04-16T08:00:00.000Z'') [35..<45]) @
           map (imageOf albumHead)
             (map (albumPhoto ''2025-04-17T12:00:00.000Z'') [20..<35] @
              map (albumPhoto ''2025-04-16T08:00:00.000Z'') [35..<40])"
  note f = stale_page_session[OF o d]
  have after: "afterStalePage = Some ?end"
    by (simp add: afterStalePage_def s0 del: One_nat_def)
  have keys: "map key ?imgs =
      [''photo-35.jpg'', ''photo-36.jpg'', ''photo-37.jpg'', ''photo-38.jpg'', ''photo-39.jpg'',
       ''photo-40.jpg'', ''photo-41.jpg'', ''photo-42.jpg'', ''photo-43.jpg'', ''photo-44.jpg'',
       ''photo-20.jpg'', ''photo-21.jpg'', ''photo-22.jpg'', ''photo-23.jpg'', ''photo-24.jpg'',
       ''photo-25.jpg'', ''photo-26.jpg'', ''photo-27.jpg'', ''photo-28.jpg'', ''photo-29.jpg'',
       ''photo-30.jpg'', ''photo-31.jpg'', ''photo-32.jpg'', ''photo-33.jpg'', ''photo-34.jpg'',
       ''photo-35.jpg'', ''photo-36.jpg'', ''photo-37.jpg'', ''photo-38.jpg'', ''photo-39.jpg'']"
    by (simp add: imageOf_def albumPhoto_def decimal.simps)
  have pair: "take 2 (drop 9 ?imgs) =
      [imageOf albumHead (albumPhoto ''2025-04-16T08:00:00.000Z'' 44),
       imageOf albumHead (albumPhoto ''2025-04-17T12:00:00.000Z'' 20)]"
    "?imgs ! 9 = imageOf albumHead (albumPhoto ''2025-04-16T08:00:00.000Z'' 44)"
    "?imgs ! 10 = imageOf albumHead (albumPhoto ''2025-04-17T12:00:00.000Z'' 20)"
    "length ?imgs = 30"
    by simp_all
  have older: "\<not> newerOrEqual albumEnv (?imgs ! 9) (?imgs ! 10)"
    by (simp only: pair) (simp add: newerOrEqual_def timeOf_imageOf album_times)
  have unsorted: "\<not> sorted_wrt (newerOrEqual albumEnv) ?imgs"
  proof
    assume "sorted_wrt (newerOrEqual albumEnv) ?imgs"
    then have "newerOrEqual albumEnv (?imgs ! 9) (?imgs ! 10)"
      by (rule sorted_wrt_nth_less) simp_all
    with older show False
      by simp
  qed
  have twice: "\<not> distinct (map key ?imgs)"
    by (simp only: keys) simp
  have stamps: "map lastModified (take 2 (drop 9 ?imgs)) =
      [''2025-04-16T08:00:00.000Z'', ''2025-04-17T12:00:00.000Z'']"
    by (simp only: pair) (simp add: imageOf_def albumPhoto_def)
  show ?thesis
    unfolding after option.map f
    using keys older unsorted twice stamps album_sorted
    by (simp only: simp_thms)
qed

end
